theory Spec2Isabelle
  imports Complex_Main "HOL-Library.AList"
begin

section \<open>Python values used by the engine\<close>

text \<open>
  A Python \<open>str\<close> is a sequence of Unicode code points; the keyword tables of the
  engine are Korean, so a string is modelled as the list of its code points.
  \<open>time.time()\<close> returns seconds as a float; time stamps and durations are modelled
  as reals (the rounding of floating-point subtraction is not modelled).
\<close>

type_synonym pystr = "nat list"

section \<open>ai/core/cache.py: class OptimizedCache\<close>

text \<open>
  \<open>self._cache\<close> is a Python dict from key to \<open>{'value': v, 'timestamp': t}\<close>.
  A dict keeps its keys in insertion order, and writing an existing key keeps the key's
  position; this is the association list below, with \<open>AList.update\<close> for
  \<open>d[k] = v\<close> and \<open>AList.delete\<close> for \<open>del d[k]\<close>. The keys of a dict are
  distinct: \<open>wf_cache\<close>.
\<close>

record 'v item =
  val :: 'v
  timestamp :: real

record 'v OptimizedCache =
  cache :: "(pystr \<times> 'v item) list"
  maxsize :: int
  ttl :: real

definition wf_cache :: "'v OptimizedCache \<Rightarrow> bool" where
  "wf_cache c = distinct (map fst (cache c))"

text \<open>\<open>OptimizedCache.__init__\<close>\<close>

definition cache_init :: "int \<Rightarrow> real \<Rightarrow> 'v OptimizedCache" where
  "cache_init m t = \<lparr>cache = [], maxsize = m, ttl = t\<rparr>"

text \<open>
  Python's \<open>min(iterable, key=f)\<close>: the first element is the candidate, and a later
  element replaces it only when its key is strictly smaller, so the first minimal element
  in iteration order is returned.
\<close>

fun py_min :: "('a \<Rightarrow> real) \<Rightarrow> 'a \<Rightarrow> 'a list \<Rightarrow> 'a" where
  "py_min f best [] = best"
| "py_min f best (x # xs) = py_min f (if f x < f best then x else best) xs"

text \<open>
  \<open>_cleanup_oldest\<close>: nothing on an empty dict; otherwise the key whose entry has the
  smallest time stamp is deleted. The source takes the minimum over the keys with the
  key function \<open>lambda k: self._cache[k]['timestamp']\<close>; iterating the pairs and
  reading the time stamp of each pair is the same traversal.
\<close>

definition cleanup_oldest :: "'v OptimizedCache \<Rightarrow> 'v OptimizedCache" where
  "cleanup_oldest c =
     (case cache c of
        [] \<Rightarrow> c
      | p # ps \<Rightarrow>
          (let oldest_key = fst (py_min (\<lambda>q. timestamp (snd q)) p ps)
           in c\<lparr>cache := AList.delete oldest_key (cache c)\<rparr>))"

text \<open>\<open>set(key, value)\<close>; \<open>now\<close> is the reading of \<open>time.time()\<close>.\<close>

definition cache_set :: "real \<Rightarrow> pystr \<Rightarrow> 'v \<Rightarrow> 'v OptimizedCache \<Rightarrow> 'v OptimizedCache" where
  "cache_set now key v c =
     (let c1 = c\<lparr>cache := AList.update key \<lparr>val = v, timestamp = now\<rparr> (cache c)\<rparr>
      in if int (length (cache c1)) > maxsize c1 then cleanup_oldest c1 else c1)"

text \<open>\<open>get(key, default)\<close>: the returned value and the cache after the call.\<close>

definition cache_get :: "real \<Rightarrow> pystr \<Rightarrow> 'v \<Rightarrow> 'v OptimizedCache \<Rightarrow> 'v \<times> 'v OptimizedCache" where
  "cache_get now key dflt c =
     (case map_of (cache c) key of
        Some it \<Rightarrow>
          if now - timestamp it < ttl c then (val it, c)
          else (dflt, c\<lparr>cache := AList.delete key (cache c)\<rparr>)
      | None \<Rightarrow> (dflt, c))"

text \<open>\<open>__contains__(key)\<close>\<close>

definition cache_contains :: "real \<Rightarrow> pystr \<Rightarrow> 'v OptimizedCache \<Rightarrow> bool \<times> 'v OptimizedCache" where
  "cache_contains now key c =
     (case map_of (cache c) key of
        Some it \<Rightarrow>
          if now - timestamp it < ttl c then (True, c)
          else (False, c\<lparr>cache := AList.delete key (cache c)\<rparr>)
      | None \<Rightarrow> (False, c))"

text \<open>\<open>__setitem__(key, value)\<close> has the body of \<open>set\<close>.\<close>

definition cache_setitem :: "real \<Rightarrow> pystr \<Rightarrow> 'v \<Rightarrow> 'v OptimizedCache \<Rightarrow> 'v OptimizedCache" where
  "cache_setitem now key v c =
     (let c1 = c\<lparr>cache := AList.update key \<lparr>val = v, timestamp = now\<rparr> (cache c)\<rparr>
      in if int (length (cache c1)) > maxsize c1 then cleanup_oldest c1 else c1)"

text \<open>
  \<open>__getitem__(key)\<close> raises \<open>KeyError\<close> (here \<open>None\<close>) when the key is absent or
  expired, after deleting an expired entry. The test \<open>if item and ...\<close> is on the
  entry dict, which has two keys and is therefore truthy whenever it exists.
\<close>

definition cache_getitem :: "real \<Rightarrow> pystr \<Rightarrow> 'v OptimizedCache \<Rightarrow> 'v option \<times> 'v OptimizedCache" where
  "cache_getitem now key c =
     (case map_of (cache c) key of
        Some it \<Rightarrow>
          if now - timestamp it < ttl c then (Some (val it), c)
          else (None, c\<lparr>cache := AList.delete key (cache c)\<rparr>)
      | None \<Rightarrow> (None, c))"

text \<open>\<open>clear()\<close>, \<open>__len__()\<close>, \<open>keys()\<close> and \<open>cleanup_expired()\<close>\<close>

definition cache_clear :: "'v OptimizedCache \<Rightarrow> 'v OptimizedCache" where
  "cache_clear c = c\<lparr>cache := []\<rparr>"

definition cache_keys :: "real \<Rightarrow> 'v OptimizedCache \<Rightarrow> pystr list" where
  "cache_keys now c = map fst (filter (\<lambda>p. now - timestamp (snd p) < ttl c) (cache c))"

definition cache_len :: "real \<Rightarrow> 'v OptimizedCache \<Rightarrow> nat" where
  "cache_len now c = length (filter (\<lambda>p. now - timestamp (snd p) < ttl c) (cache c))"

definition cleanup_expired :: "real \<Rightarrow> 'v OptimizedCache \<Rightarrow> nat \<times> 'v OptimizedCache" where
  "cleanup_expired now c =
     (let expired_keys = map fst (filter (\<lambda>p. now - timestamp (snd p) \<ge> ttl c) (cache c))
      in (length expired_keys, c\<lparr>cache := fold AList.delete expired_keys (cache c)\<rparr>))"

text \<open>
  \<open>update(other_dict)\<close> calls \<open>set\<close> for every item of the dict, in order; each
  call reads the clock, so an item is given here with the reading of its call.
\<close>

definition cache_update_items :: "(real \<times> pystr \<times> 'v) list \<Rightarrow> 'v OptimizedCache \<Rightarrow> 'v OptimizedCache" where
  "cache_update_items kvs c = fold (\<lambda>p. cache_set (fst p) (fst (snd p)) (snd (snd p))) kvs c"

section \<open>ai/core/rag_engine.py: values, results and the environment\<close>

text \<open>
  An ASCII literal of the source, as code points.
\<close>

definition ascii :: "string \<Rightarrow> pystr" where
  "ascii s = map of_char s"

text \<open>
  Exceptions. \<open>Raised m\<close> is an exception thrown by a collaborator (vector store,
  generation chain, embedding model); the others are raised by the engine's own code or
  by the Python operations it uses.
\<close>

datatype pyexc =
    ValueError pystr
  | KeyError pystr
  | TypeError
  | ZeroDivisionError
  | UnicodeEncodeError
  | Raised pystr

record quality =
  completeness :: real
  relevance :: real
  structure_score :: real

datatype source = SrcCache | SrcDirect | SrcEmpty | SrcError

record doc =
  page_content :: pystr

text \<open>
  The result dict of \<open>ask\<close> and \<open>ask_async\<close>. A key that a path does not write is
  \<open>None\<close> here. The response cache holds answer and context strings (written by
  \<open>ask\<close> and \<open>_get_context_async\<close>) and whole result dicts (written by
  \<open>ask_async\<close>); \<open>VNone\<close> is Python's \<open>None\<close>, the default of \<open>get\<close>. On a
  cache hit the cached value itself becomes the \<open>answer\<close> of the result.
\<close>

datatype result =
  Result (answer: rval) (execution_time: real) (quality_metrics: quality)
    (source: "source option") (context_length: "nat option") (error: "pystr option")
    (source_documents: "doc list option")
and rval = VNone | VStr pystr | VDict result

text \<open>The embedding cache holds embedding vectors and relevance scores.\<close>

datatype evalue = ENone | EVec "real list" | EScore real

text \<open>The dict returned by the generation chain; a missing key is \<open>None\<close>.\<close>

record qa_response =
  resp_answer :: "pystr option"
  resp_source_documents :: "doc list option"

text \<open>
  Everything outside the repository. \<open>clk n\<close> is the value of the \<open>n\<close>-th call of
  \<open>time.time()\<close>; the collaborators may answer differently at every call, so they
  too are indexed by the number of the call (the field \<open>ticks\<close> of the engine below).
  \<open>lower\<close> is \<open>str.lower\<close>, \<open>isspace\<close> the whitespace of \<open>str.strip\<close> and
  \<open>str.split\<close>, \<open>isdecimal\<close> the class \<open>\d\<close> of \<open>re\<close>,
  \<open>md5_hexdigest s\<close> is \<open>hashlib.md5(s.encode()).hexdigest()\<close>,
  \<open>str_of_exc\<close> and \<open>str_of_dict\<close> are \<open>str\<close> on an exception and on a result
  dict.
\<close>

record env =
  clk :: "nat \<Rightarrow> real"
  lower :: "pystr \<Rightarrow> pystr"
  isspace :: "nat \<Rightarrow> bool"
  isdecimal :: "nat \<Rightarrow> bool"
  md5_hexdigest :: "pystr \<Rightarrow> pystr"
  str_of_exc :: "pyexc \<Rightarrow> pystr"
  str_of_dict :: "result \<Rightarrow> pystr"
  similarity_search :: "nat \<Rightarrow> pystr \<Rightarrow> pyexc + doc list"
  qa_invoke :: "nat \<Rightarrow> pystr \<Rightarrow> rval \<Rightarrow> pyexc + qa_response"
  embed_query :: "nat \<Rightarrow> pystr \<Rightarrow> pyexc + real list"

section \<open>String operations of Python\<close>

text \<open>\<open>text.startswith(prefix)\<close> and \<open>needle in text\<close>.\<close>

fun startswith :: "pystr \<Rightarrow> pystr \<Rightarrow> bool" where
  "startswith cs [] = True"
| "startswith [] (p # ps) = False"
| "startswith (c # cs) (p # ps) = (c = p \<and> startswith cs ps)"

fun py_in :: "pystr \<Rightarrow> pystr \<Rightarrow> bool" where
  "py_in needle [] = (needle = [])"
| "py_in needle (c # cs) = (startswith (c # cs) needle \<or> py_in needle cs)"

text \<open>\<open>s.strip()\<close>\<close>

definition py_strip :: "(nat \<Rightarrow> bool) \<Rightarrow> pystr \<Rightarrow> pystr" where
  "py_strip sp s = rev (dropWhile sp (rev (dropWhile sp s)))"

text \<open>\<open>s.split()\<close>: the maximal runs of characters that are not whitespace.\<close>

fun py_split_acc :: "(nat \<Rightarrow> bool) \<Rightarrow> pystr \<Rightarrow> pystr \<Rightarrow> pystr list" where
  "py_split_acc sp word [] = (if word = [] then [] else [rev word])"
| "py_split_acc sp word (c # cs) =
     (if sp c then (if word = [] then py_split_acc sp [] cs
                    else rev word # py_split_acc sp [] cs)
      else py_split_acc sp (c # word) cs)"

definition py_split :: "(nat \<Rightarrow> bool) \<Rightarrow> pystr \<Rightarrow> pystr list" where
  "py_split sp s = py_split_acc sp [] s"

text \<open>\<open>sep.join(parts)\<close>\<close>

fun py_join :: "pystr \<Rightarrow> pystr list \<Rightarrow> pystr" where
  "py_join sep [] = []"
| "py_join sep [p] = p"
| "py_join sep (p # q # ps) = p @ sep @ py_join sep (q # ps)"

text \<open>
  \<open>len(text.split('\n\n'))\<close>: one more than the number of separators found from
  left to right without overlap.
\<close>

fun count_blank_lines :: "pystr \<Rightarrow> nat" where
  "count_blank_lines (a # b # cs) =
     (if a = 10 \<and> b = 10 then Suc (count_blank_lines cs) else count_blank_lines (b # cs))"
| "count_blank_lines cs = 0"

text \<open>
  \<open>re.search(r'\d+\.|\d+\)', text)\<close> finds a match exactly when some decimal digit is
  directly followed by a full stop or a closing parenthesis;
  \<open>re.search(r'[-\<bullet>*]', text)\<close> when the text has one of the three characters.
\<close>

fun has_numbering :: "(nat \<Rightarrow> bool) \<Rightarrow> pystr \<Rightarrow> bool" where
  "has_numbering dg (a # b # cs) =
     ((dg a \<and> (b = 46 \<or> b = 41)) \<or> has_numbering dg (b # cs))"
| "has_numbering dg cs = False"

definition has_bullet :: "pystr \<Rightarrow> bool" where
  "has_bullet text = list_ex (\<lambda>c. c = 45 \<or> c = 8226 \<or> c = 42) text"

text \<open>
  \<open>round(x, 2)\<close>: to the nearest multiple of one hundredth, a tie to the even one.
\<close>

definition py_round2 :: "real \<Rightarrow> real" where
  "py_round2 x =
     (let y = x * 100; f = \<lfloor>y\<rfloor>
      in (if y - of_int f < 1 / 2 then of_int f
          else if y - of_int f > 1 / 2 then of_int (f + 1)
          else if even f then of_int f else of_int (f + 1)) / 100)"

section \<open>The quality scorer: \<open>_calculate_quality_metrics\<close>\<close>

text \<open>The two keyword tables of the function, in the order of the dict literals.\<close>

definition required_sections :: "(pystr \<times> pystr list) list" where
  "required_sections =
     [([51116, 47308],
         [[51116, 47308], [51456, 48708, 47932], [54596, 50836, 54620], [51080, 50612, 50556]]),
      ([51312, 47532],
         [[51312, 47532], [47564, 46308, 44592], [50836, 47532], [48169, 48277], [44284, 51221]]),
      ([54017],
         [[54017], [51452, 51032], [54252, 51064, 53944], [51473, 50836], [48708, 48277]])]"

definition relevance_keywords :: "(pystr \<times> real) list" where
  "relevance_keywords =
     [([50836, 47532], 1), ([47112, 49884, 54588], 1), ([47564, 46308, 44592], 9 / 10),
      ([51312, 47532, 48277], 9 / 10), ([45139, 51060, 44592], 8 / 10), ([48374, 44592], 8 / 10),
      ([44413, 44592], 8 / 10), ([51116, 47308], 8 / 10), ([50577, 45392], 8 / 10),
      ([44036], 7 / 10), ([47579], 7 / 10), ([51020, 49885], 7 / 10)]"

text \<open>
  The text scored is \<open>response.lower()\<close> for a string and \<open>str(response).lower()\<close>
  otherwise. No operation of the body raises on a string, so the \<open>except\<close> branch,
  which returns three zeros, has no counterpart here.
\<close>

definition scored_text :: "env \<Rightarrow> rval \<Rightarrow> pystr" where
  "scored_text e response =
     lower e (case response of
                VStr s \<Rightarrow> s
              | VDict d \<Rightarrow> str_of_dict e d
              | VNone \<Rightarrow> ascii ''None'')"

definition calculate_quality_metrics :: "env \<Rightarrow> rval \<Rightarrow> quality" where
  "calculate_quality_metrics e response =
     (let text = scored_text e response;
          section_scores =
            map (\<lambda>(section, keywords). list_ex (\<lambda>keyword. py_in keyword text) keywords)
              required_sections;
          completeness_v =
            real (length (filter (\<lambda>b. b) section_scores)) / real (length required_sections);
          matched_keywords = filter (\<lambda>(keyword, weight). py_in keyword text) relevance_keywords;
          relevance_v =
            (if matched_keywords \<noteq> []
             then sum_list (map snd matched_keywords) / real (length matched_keywords)
             else 0);
          points1 = (if has_numbering (isdecimal e) text then 4 / 10 else 0);
          points2 = points1 + (if has_bullet text then 3 / 10 else 0);
          structure_points =
            points2 + (if Suc (count_blank_lines text) \<ge> 3 then 3 / 10 else 0)
      in \<lparr>completeness = py_round2 completeness_v,
          relevance = py_round2 (min (relevance_v * (12 / 10)) 1),
          structure_score = py_round2 (min structure_points 1)\<rparr>)"

text \<open>The list \<open>matched_keywords\<close> of the function, named for the proofs.\<close>

definition matched :: "env \<Rightarrow> rval \<Rightarrow> (pystr \<times> real) list" where
  "matched e response = filter (\<lambda>(keyword, weight). py_in keyword (scored_text e response)) relevance_keywords"

section \<open>An example environment\<close>

text \<open>
  A concrete environment for the evaluated instances: the clock shows the number of the
  reading, strings are their own lower case and their own digest, an exception prints as
  its message, nothing is retrieved and the generation chain answers with the question.
\<close>

definition env0 :: env where
  "env0 = \<lparr>clk = (\<lambda>n. real n), lower = (\<lambda>s. s), isspace = (\<lambda>c. c = 32 \<or> c = 10),
            isdecimal = (\<lambda>c. 48 \<le> c \<and> c \<le> 57), md5_hexdigest = (\<lambda>s. s),
            str_of_exc = (\<lambda>x. case x of ValueError m \<Rightarrow> m | KeyError k \<Rightarrow> k
                                       | Raised m \<Rightarrow> m | _ \<Rightarrow> []),
            str_of_dict = (\<lambda>d. []),
            similarity_search = (\<lambda>n q. Inr []),
            qa_invoke = (\<lambda>n q c. Inr \<lparr>resp_answer = Some q, resp_source_documents = None\<rparr>),
            embed_query = (\<lambda>n q. Inr [])\<rparr>"

section \<open>ai/core/rag_engine.py: class OptimizedRecipeRAG\<close>

text \<open>
  The fields of \<open>AsyncRequestHandler\<close> that the request path uses. The handler's
  \<open>rag_system\<close> is either \<open>None\<close> or the engine that owns the handler
  (\<open>self.request_handler.rag_system = self\<close> in the engine's constructor);
  \<open>rag_attached\<close> tells which.
\<close>

record handler =
  max_concurrent :: int
  rate_limit :: real
  last_request_time :: real
  request_times :: "real list"
  rag_attached :: bool

text \<open>
  The engine: the two caches, the metrics and the counters. \<open>ticks\<close> is not a field
  of the source: it counts the calls made so far to the clock and to the collaborators,
  and so selects the answers of the environment.
\<close>

record rag =
  response_cache :: "rval OptimizedCache"
  embedding_cache :: "evalue OptimizedCache"
  metrics_execution_time :: "real list"
  metrics_quality_scores :: "quality list"
  error_count :: int
  request_count :: int
  cache_hits :: int
  request_handler :: handler
  ticks :: nat

text \<open>The state right after \<open>__init__\<close> (without the precomputed embeddings).\<close>

definition rag_init :: "int \<Rightarrow> real \<Rightarrow> rag" where
  "rag_init max_conc t0 =
     \<lparr>response_cache = cache_init 5000 7200, embedding_cache = cache_init 5000 7200,
      metrics_execution_time = [], metrics_quality_scores = [],
      error_count = 0, request_count = 0, cache_hits = 0,
      request_handler = \<lparr>max_concurrent = max_conc, rate_limit = 10, last_request_time = t0,
                           request_times = [], rag_attached = True\<rparr>,
      ticks = 0\<rparr>"

definition tick :: "rag \<Rightarrow> rag" where
  "tick r = r\<lparr>ticks := Suc (ticks r)\<rparr>"

text \<open>Truth value of a cached value: \<open>None\<close> and the empty string are false.\<close>

fun truthy :: "rval \<Rightarrow> bool" where
  "truthy VNone = False"
| "truthy (VStr s) = (s \<noteq> [])"
| "truthy (VDict d) = True"

text \<open>
  \<open>_get_cache_key\<close>: \<open>text.encode()\<close> raises \<open>UnicodeEncodeError\<close> on a string with
  a surrogate code point.
\<close>

definition encodable :: "pystr \<Rightarrow> bool" where
  "encodable s = list_all (\<lambda>c. \<not> (55296 \<le> c \<and> c \<le> 57343)) s"

definition get_cache_key :: "env \<Rightarrow> pystr \<Rightarrow> pyexc + pystr" where
  "get_cache_key e text =
     (if encodable text then Inr (md5_hexdigest e text) else Inl UnicodeEncodeError)"

definition zero_quality :: quality where
  "zero_quality = \<lparr>completeness = 0, relevance = 0, structure_score = 0\<rparr>"

text \<open>
  The loop of \<open>_get_context\<close>. \<open>seen_content\<close> always holds exactly the elements of
  \<open>context_parts\<close>, so one accumulator stands for both.
\<close>

fun context_parts_sync :: "(nat \<Rightarrow> bool) \<Rightarrow> doc list \<Rightarrow> pystr list \<Rightarrow> pystr list" where
  "context_parts_sync sp [] context_parts = context_parts"
| "context_parts_sync sp (d # ds) context_parts =
     (let content = py_strip sp (page_content d)
      in if content \<noteq> [] \<and> content \<notin> set context_parts
         then context_parts_sync sp ds (context_parts @ [content])
         else context_parts_sync sp ds context_parts)"

definition truncate_context :: "pystr \<Rightarrow> pystr" where
  "truncate_context context = (if length context > 1500 then take 1500 context else context)"

text \<open>
  \<open>_get_context\<close>: every exception of the search gives the empty context. The
  context depends on the answer of the vector store alone (\<open>search_context\<close>); the
  engine changes only in that one more call has been made.
\<close>

definition search_context :: "env \<Rightarrow> nat \<Rightarrow> pystr \<Rightarrow> pystr" where
  "search_context e n question =
     (case similarity_search e n question of
        Inl ex \<Rightarrow> []
      | Inr similar_docs \<Rightarrow>
          truncate_context (py_join [10, 10] (context_parts_sync (isspace e) similar_docs [])))"

definition get_context :: "env \<Rightarrow> pystr \<Rightarrow> rag \<Rightarrow> pystr \<times> rag" where
  "get_context e question r = (search_context e (ticks r) question, tick r)"

text \<open>\<open>_check_relevance\<close>; the table is \<open>cooking_keywords\<close>.\<close>

definition cooking_keywords :: "(pystr \<times> real) list" where
  "cooking_keywords =
     [([47112, 49884, 54588], 1), ([50836, 47532], 1), ([47564, 46308, 44592], 8 / 10),
      ([51116, 47308], 9 / 10), ([51312, 47532], 9 / 10), ([45139, 51060, 44592], 7 / 10),
      ([48374, 44592], 7 / 10), ([44413, 44592], 7 / 10), ([52236, 44592], 7 / 10),
      ([50577, 45392], 8 / 10), ([44036], 6 / 10), ([47579], 6 / 10)]"

definition relevance_score :: "env \<Rightarrow> pystr \<Rightarrow> pystr \<Rightarrow> real" where
  "relevance_score e content query =
     (let content_words = py_split (isspace e) (lower e content);
          query_words = remdups (py_split (isspace e) (lower e query));
          keyword_score =
            sum_list (map snd (filter (\<lambda>(word, weight). word \<in> set content_words)
                                 cooking_keywords));
          max_keyword_score = sum_list (map snd cooking_keywords);
          normalized_keyword_score =
            (if max_keyword_score > 0 then keyword_score / max_keyword_score else 0);
          common_words = filter (\<lambda>w. w \<in> set content_words) query_words;
          query_match_score =
            (if query_words \<noteq> [] then real (length common_words) / real (length query_words)
             else 0)
      in min (normalized_keyword_score * (7 / 10) + query_match_score * (3 / 10)) 1)"

definition check_relevance :: "env \<Rightarrow> pystr \<Rightarrow> pystr \<Rightarrow> rag \<Rightarrow> evalue \<times> rag" where
  "check_relevance e content query r =
     (case get_cache_key e (content @ query) of
        Inl ex \<Rightarrow> (EScore 0, r)
      | Inr h \<Rightarrow>
          (let cache_key = ascii ''relevance_'' @ h;
               (cached_score, ec) = cache_get (clk e (ticks r)) cache_key ENone (embedding_cache r);
               r1 = tick (r\<lparr>embedding_cache := ec\<rparr>)
           in if cached_score \<noteq> ENone then (cached_score, r1)
              else (let final_score = relevance_score e content query
                    in (EScore final_score,
                        tick (r1\<lparr>embedding_cache :=
                                  cache_set (clk e (ticks r1)) cache_key (EScore final_score)
                                    (embedding_cache r1)\<rparr>)))))"

text \<open>
  The loop of \<open>_get_context_async\<close>. A part is added to \<open>seen_content\<close> only together
  with \<open>context_parts\<close>. The comparison \<open>relevance >= 0.3\<close> raises \<open>TypeError\<close> when
  the cached value is not a number; the result is then \<open>None\<close>.
\<close>

fun context_parts_async ::
  "env \<Rightarrow> pystr \<Rightarrow> doc list \<Rightarrow> pystr list \<Rightarrow> rag \<Rightarrow> pystr list option \<times> rag" where
  "context_parts_async e question [] context_parts r = (Some context_parts, r)"
| "context_parts_async e question (d # ds) context_parts r =
     (let content = py_strip (isspace e) (page_content d)
      in if content \<noteq> [] \<and> content \<notin> set context_parts
         then (case check_relevance e content question r of
                 (EScore x, r1) \<Rightarrow>
                   if x \<ge> 3 / 10
                   then context_parts_async e question ds (context_parts @ [content]) r1
                   else context_parts_async e question ds context_parts r1
               | (other, r1) \<Rightarrow> (None, r1))
         else context_parts_async e question ds context_parts r)"

text \<open>
  \<open>_get_context_async\<close>: looks the context up in \<open>self.response_cache\<close> under
  \<open>'context_' + md5\<close>, and stores it there. Every exception gives the empty string.
\<close>

definition get_context_async :: "env \<Rightarrow> pystr \<Rightarrow> rag \<Rightarrow> rval \<times> rag" where
  "get_context_async e question r =
     (case get_cache_key e question of
        Inl ex \<Rightarrow> (VStr [], r)
      | Inr h \<Rightarrow>
          (let cache_key = ascii ''context_'' @ h;
               (hit, rc) = cache_contains (clk e (ticks r)) cache_key (response_cache r);
               r1 = tick (r\<lparr>response_cache := rc\<rparr>)
           in if hit
              then (let r2 = r1\<lparr>cache_hits := cache_hits r1 + 1\<rparr>;
                        (v, rc2) = cache_getitem (clk e (ticks r2)) cache_key (response_cache r2);
                        r3 = tick (r2\<lparr>response_cache := rc2\<rparr>)
                    in case v of Some x \<Rightarrow> (x, r3) | None \<Rightarrow> (VStr [], r3))
              else (case similarity_search e (ticks r1) question of
                      Inl ex \<Rightarrow> (VStr [], tick r1)
                    | Inr similar_docs \<Rightarrow>
                        (case context_parts_async e question similar_docs [] (tick r1) of
                           (None, r3) \<Rightarrow> (VStr [], r3)
                         | (Some context_parts, r3) \<Rightarrow>
                             (let context0 = truncate_context (py_join [10, 10] context_parts);
                                  context =
                                    (case similar_docs of
                                       [] \<Rightarrow> context0
                                     | d # ds \<Rightarrow>
                                         if context0 = [] then page_content d else context0)
                              in (VStr context,
                                  tick (r3\<lparr>response_cache :=
                                            cache_setitem (clk e (ticks r3)) cache_key
                                              (VStr context) (response_cache r3)\<rparr>)))))))"

text \<open>\<open>_compute_embedding_async\<close>; its exceptions reach the caller.\<close>

definition compute_embedding_async :: "env \<Rightarrow> pystr \<Rightarrow> rag \<Rightarrow> (pyexc + evalue) \<times> rag" where
  "compute_embedding_async e text r =
     (case get_cache_key e text of
        Inl ex \<Rightarrow> (Inl ex, r)
      | Inr cache_key \<Rightarrow>
          (let (hit, ec) = cache_contains (clk e (ticks r)) cache_key (embedding_cache r);
               r1 = tick (r\<lparr>embedding_cache := ec\<rparr>)
           in if hit
              then (let r2 = r1\<lparr>cache_hits := cache_hits r1 + 1\<rparr>;
                        (v, ec2) = cache_getitem (clk e (ticks r2)) cache_key (embedding_cache r2);
                        r3 = tick (r2\<lparr>embedding_cache := ec2\<rparr>)
                    in case v of Some x \<Rightarrow> (Inr x, r3) | None \<Rightarrow> (Inl (KeyError cache_key), r3))
              else (case embed_query e (ticks r1) text of
                      Inl ex \<Rightarrow> (Inl ex, tick r1)
                    | Inr embedding \<Rightarrow>
                        (let r2 = tick r1
                         in (Inr (EVec embedding),
                             tick (r2\<lparr>embedding_cache :=
                                       cache_setitem (clk e (ticks r2)) cache_key (EVec embedding)
                                         (embedding_cache r2)\<rparr>))))))"

text \<open>
  \<open>_record_metrics\<close>: the averages it computes are only logged.
\<close>

definition record_metrics :: "env \<Rightarrow> real \<Rightarrow> quality \<Rightarrow> rag \<Rightarrow> rag" where
  "record_metrics e start_time metrics r =
     (let execution_time_v = clk e (ticks r) - start_time
      in tick (r\<lparr>metrics_execution_time := metrics_execution_time r @ [execution_time_v],
                 metrics_quality_scores := metrics_quality_scores r @ [metrics]\<rparr>))"

section \<open>The query entry points\<close>

text \<open>
  The \<open>except\<close> branch of \<open>ask\<close>: the result has no \<open>source\<close> key. The answer is
  the fixed Korean apology followed by \<open>str(e)\<close>.
\<close>

definition ask_error :: "env \<Rightarrow> real \<Rightarrow> pyexc \<Rightarrow> rag \<Rightarrow> result \<times> rag" where
  "ask_error e start_time ex r =
     (Result
        (VStr ([51396, 49569, 54633, 45768, 45796, 46, 32, 50724, 47448, 44032, 32, 48156,
                49373, 54664, 49845, 45768, 45796, 58, 32] @ str_of_exc e ex))
        (clk e (ticks r) - start_time) zero_quality None None (Some (str_of_exc e ex)) None,
      tick (r\<lparr>error_count := error_count r + 1\<rparr>))"

text \<open>
  The part of \<open>ask\<close> after a cache miss: context search, generation, scoring, the
  cache write behind the quality gate, and the metrics.
\<close>

definition ask_generate :: "env \<Rightarrow> pystr \<Rightarrow> pystr \<Rightarrow> real \<Rightarrow> rag \<Rightarrow> result \<times> rag" where
  "ask_generate e question cache_key start_time r1 =
     (let (context, r2) = get_context e question r1
      in case qa_invoke e (ticks r2) question (VStr context) of
           Inl ex \<Rightarrow> ask_error e start_time ex (tick r2)
         | Inr response \<Rightarrow>
             (let r3 = tick r2;
                  answer_v = (case resp_answer response of None \<Rightarrow> [] | Some a \<Rightarrow> a)
              in if answer_v = []
                 then ask_error e start_time
                        (ValueError (ascii ''Empty response from QA chain'')) r3
                 else (let quality = calculate_quality_metrics e (VStr answer_v);
                           res = Result (VStr answer_v) (clk e (ticks r3) - start_time) quality
                                   (Some SrcDirect) (Some (length context)) None None;
                           r4 = tick r3;
                           r5 = (if completeness quality \<ge> 1 / 2 \<and> relevance quality \<ge> 1 / 2
                                 then tick (r4\<lparr>response_cache :=
                                        cache_set (clk e (ticks r4)) cache_key (VStr answer_v)
                                          (response_cache r4)\<rparr>)
                                 else r4)
                       in (res, record_metrics e start_time quality r5))))"

text \<open>\<open>ask\<close>, the synchronous entry point.\<close>

definition ask :: "env \<Rightarrow> pystr \<Rightarrow> rag \<Rightarrow> result \<times> rag" where
  "ask e question r =
     (let start_time = clk e (ticks r);
          r0 = tick (r\<lparr>request_count := request_count r + 1\<rparr>)
      in case get_cache_key e question of
           Inl ex \<Rightarrow> ask_error e start_time ex r0
         | Inr cache_key \<Rightarrow>
             (let (cached_response, rc) =
                    cache_get (clk e (ticks r0)) cache_key VNone (response_cache r0);
                  r1 = tick (r0\<lparr>response_cache := rc\<rparr>)
              in if truthy cached_response
                 then (Result cached_response (clk e (ticks r1) - start_time)
                         (calculate_quality_metrics e cached_response)
                         (Some SrcCache) None None None,
                       tick (r1\<lparr>cache_hits := cache_hits r1 + 1\<rparr>))
                 else ask_generate e question cache_key start_time r1))"

text \<open>The \<open>except\<close> branch of \<open>ask_async\<close>, with its fixed apology.\<close>

definition ask_async_error :: "env \<Rightarrow> real \<Rightarrow> pyexc \<Rightarrow> rag \<Rightarrow> result \<times> rag" where
  "ask_async_error e start_time ex r =
     (Result
        (VStr [51396, 49569, 54633, 45768, 45796, 46, 32, 51025, 45813, 32, 49373, 49457, 32,
               51473, 32, 50724, 47448, 44032, 32, 48156, 49373, 54664, 49845, 45768, 45796, 46])
        (clk e (ticks r) - start_time) zero_quality (Some SrcError) None
        (Some (str_of_exc e ex)) None,
      tick (r\<lparr>error_count := error_count r + 1\<rparr>))"

text \<open>
  The part of \<open>ask_async\<close> after a cache miss: context fetch, generation, scoring,
  and the cache write, which has no condition.
\<close>

definition ask_async_generate :: "env \<Rightarrow> pystr \<Rightarrow> pystr \<Rightarrow> real \<Rightarrow> rag \<Rightarrow> result \<times> rag" where
  "ask_async_generate e question cache_key start_time r1 =
     (let (context, r2) = get_context_async e question r1
      in case qa_invoke e (ticks r2) question context of
           Inl ex \<Rightarrow> ask_async_error e start_time ex (tick r2)
         | Inr response \<Rightarrow>
             (let r3 = tick r2
              in case resp_answer response of
                   None \<Rightarrow> ask_async_error e start_time (KeyError (ascii ''answer'')) r3
                 | Some a \<Rightarrow>
                     (let quality = calculate_quality_metrics e (VStr a);
                          res = Result (VStr a) (clk e (ticks r3) - start_time) quality
                                  (Some SrcDirect) None None
                                  (Some (case resp_source_documents response of
                                           None \<Rightarrow> [] | Some ds \<Rightarrow> ds));
                          r4 = tick r3;
                          r5 = tick (r4\<lparr>response_cache :=
                                 cache_setitem (clk e (ticks r4)) cache_key (VDict res)
                                   (response_cache r4)\<rparr>)
                      in (res, record_metrics e start_time quality r5))))"

text \<open>
  The cache hit of \<open>ask_async\<close>: a cached dict is copied with \<open>execution_time\<close> and
  \<open>source\<close> overwritten; any other cached value is returned as the answer. An entry
  that expires between the membership test and the read raises \<open>KeyError\<close>.
\<close>

definition ask_async_cached :: "env \<Rightarrow> pystr \<Rightarrow> real \<Rightarrow> rag \<Rightarrow> result \<times> rag" where
  "ask_async_cached e cache_key start_time r1 =
     (let r2 = r1\<lparr>cache_hits := cache_hits r1 + 1\<rparr>;
          (v, rc2) = cache_getitem (clk e (ticks r2)) cache_key (response_cache r2);
          r3 = tick (r2\<lparr>response_cache := rc2\<rparr>)
      in case v of
           None \<Rightarrow> ask_async_error e start_time (KeyError cache_key) r3
         | Some (VDict d) \<Rightarrow>
             (Result (answer d) (1 / 10) (quality_metrics d) (Some SrcCache)
                (context_length d) (error d) (source_documents d), r3)
         | Some cached_response \<Rightarrow>
             (Result cached_response (1 / 10) (calculate_quality_metrics e cached_response)
                (Some SrcCache) None None None, r3))"

text \<open>
  \<open>ask_async\<close>. The check for an empty question comes first and returns without
  touching the engine.
\<close>

definition ask_async :: "env \<Rightarrow> pystr \<Rightarrow> rag \<Rightarrow> result \<times> rag" where
  "ask_async e question r =
     (if py_strip (isspace e) question = []
      then (Result (VStr [51656, 47928, 51012, 32, 51077, 47141, 54644, 51452, 49464, 50836, 46])
              0 zero_quality (Some SrcEmpty) None None None, r)
      else
       (let ra = r\<lparr>request_count := request_count r + 1\<rparr>;
            start_time = clk e (ticks ra);
            r0 = tick ra
        in case get_cache_key e question of
             Inl ex \<Rightarrow> ask_async_error e start_time ex r0
           | Inr cache_key \<Rightarrow>
               (let (hit, rc) = cache_contains (clk e (ticks r0)) cache_key (response_cache r0);
                    r1 = tick (r0\<lparr>response_cache := rc\<rparr>)
                in if hit then ask_async_cached e cache_key start_time r1
                   else ask_async_generate e question cache_key start_time r1)))"

section \<open>ai/core/async_handler.py: class AsyncRequestHandler\<close>

text \<open>
  The dicts returned by the handler: a fresh answer, a cached result dict extended by
  \<open>source\<close> and \<open>cached_at\<close>, or an error entry (\<open>status = 'error'\<close>) with the
  time stamp that only \<open>process_batch\<close> adds.
\<close>

datatype hresult =
    HAnswer pystr pystr bool quality real
  | HCached result real
  | HError pystr "real option"

text \<open>
  \<open>_check_cache\<close>: unpacking a cached value that is not a dict raises \<open>TypeError\<close>.
\<close>

definition check_cache :: "env \<Rightarrow> pystr \<Rightarrow> rag \<Rightarrow> (pyexc + hresult option) \<times> rag" where
  "check_cache e question r =
     (if rag_attached (request_handler r)
      then (case get_cache_key e question of
              Inl ex \<Rightarrow> (Inl ex, r)
            | Inr cache_key \<Rightarrow>
                (let (hit, rc) = cache_contains (clk e (ticks r)) cache_key (response_cache r);
                     r1 = tick (r\<lparr>response_cache := rc\<rparr>)
                 in if hit
                    then (let r2 = r1\<lparr>cache_hits := cache_hits r1 + 1\<rparr>;
                              (v, rc2) = cache_getitem (clk e (ticks r2)) cache_key
                                           (response_cache r2);
                              r3 = tick (r2\<lparr>response_cache := rc2\<rparr>)
                          in case v of
                               None \<Rightarrow> (Inl (KeyError cache_key), r3)
                             | Some (VDict d) \<Rightarrow>
                                 (Inr (Some (HCached
                                    (Result (answer d) (execution_time d) (quality_metrics d)
                                       (Some SrcCache) (context_length d) (error d)
                                       (source_documents d))
                                    (clk e (ticks r3)))), tick r3)
                             | Some other \<Rightarrow> (Inl TypeError, r3))
                    else (Inr None, r1)))
      else (Inr None, r))"

text \<open>
  \<open>_handle_request\<close>; a request is the dict's \<open>question\<close>, \<open>None\<close> when the key is
  missing. The context fetch has no suspension point and so runs before the embedding.
\<close>

definition handle_request :: "env \<Rightarrow> pystr option \<Rightarrow> rag \<Rightarrow> (pyexc + hresult) \<times> rag" where
  "handle_request e request r =
     (if \<not> rag_attached (request_handler r)
      then (Inl (ValueError (ascii ''RAG system not initialized'')), r)
      else
       (let question = (case request of None \<Rightarrow> [] | Some q \<Rightarrow> q)
        in if question = []
           then (Inl (ValueError (ascii ''Question cannot be empty'')), r)
           else (case check_cache e question r of
                   (Inl ex, r1) \<Rightarrow> (Inl ex, r1)
                 | (Inr (Some cached), r1) \<Rightarrow> (Inr cached, r1)
                 | (Inr None, r1) \<Rightarrow>
                     (let (context, r2) = get_context_async e question r1
                      in case compute_embedding_async e question r2 of
                           (Inl ex, r3) \<Rightarrow> (Inl ex, r3)
                         | (Inr embedding, r3) \<Rightarrow>
                             (case qa_invoke e (ticks r3) question context of
                                Inl ex \<Rightarrow> (Inl ex, tick r3)
                              | Inr response \<Rightarrow>
                                  (let r4 = tick r3
                                   in case resp_answer response of
                                        None \<Rightarrow> (Inl (KeyError (ascii ''answer'')), r4)
                                      | Some a \<Rightarrow>
                                          (Inr (HAnswer question a (truthy context)
                                                  (calculate_quality_metrics e (VStr a))
                                                  (clk e (ticks r4))),
                                           tick r4)))))))"

text \<open>
  The rate limiting at the head of \<open>process_request\<close>: the time the task sleeps before
  it calls the handler, computed from the clock reading and \<open>_last_request_time\<close>.
\<close>

definition rate_limit_sleep :: "real \<Rightarrow> handler \<Rightarrow> real" where
  "rate_limit_sleep current_time h =
     (let min_delay = 1 / rate_limit h;
          time_since_last = current_time - last_request_time h
      in if time_since_last < min_delay then min_delay - time_since_last else 0)"

text \<open>
  The head of \<open>process_request\<close>, up to the call of the handler: the clock is read,
  the task sleeps for \<open>rate_limit_sleep\<close>, and the handler is called; the value is the
  time of that call. \<open>1.0 / self.rate_limit\<close> is outside the \<open>try\<close>, so its
  \<open>ZeroDivisionError\<close> leaves the function. Nothing is written here:
  \<open>_last_request_time\<close> is written after the handler has returned.
\<close>

definition admit :: "env \<Rightarrow> rag \<Rightarrow> (pyexc + real) \<times> rag" where
  "admit e r =
     (let current_time = clk e (ticks r);
          r0 = tick r
      in if rate_limit (request_handler r0) = 0 then (Inl ZeroDivisionError, r0)
         else (Inr (current_time + rate_limit_sleep current_time (request_handler r0)), r0))"

text \<open>
  \<open>process_request\<close>, run without interruption by another task. The semaphore has
  \<open>max_concurrent\<close> permits; with none the task waits for ever, which is \<open>None\<close>.
  \<open>_last_request_time\<close> is written only when the handler has not raised; an
  exception of the handler becomes an error entry.
\<close>

definition process_request ::
  "env \<Rightarrow> pystr option \<Rightarrow> rag \<Rightarrow> ((pyexc + hresult) \<times> rag) option" where
  "process_request e request r =
     (if max_concurrent (request_handler r) \<le> 0 then None
      else (case admit e r of
              (Inl ex, r0) \<Rightarrow> Some (Inl ex, r0)
            | (Inr start, r0) \<Rightarrow>
                (case handle_request e request r0 of
                   (Inr res, r1) \<Rightarrow>
                     (let t = clk e (ticks r1)
                      in Some (Inr res,
                           tick (r1\<lparr>request_handler := (request_handler r1)
                                   \<lparr>last_request_time := t,
                                    request_times := request_times (request_handler r1) @ [t]\<rparr>\<rparr>)))
                 | (Inl ex, r1) \<Rightarrow> Some (Inr (HError (str_of_exc e ex) None), r1))))"

section \<open>Batches\<close>






section \<open>Properties of the cache\<close>


lemma length_delete_present:
  "distinct (map fst al) \<Longrightarrow> map_of al k = Some v \<Longrightarrow> Suc (length (AList.delete k al)) = length al"
proof (induction al)
  case Nil
  then show ?case by simp
next
  case (Cons p al)
  show ?case
  proof (cases "fst p = k")
    case True
    with Cons.prems have "k \<notin> fst ` set al" by auto
    with True show ?thesis by (cases p) (simp add: AList.delete_id)
  next
    case False
    with Cons show ?thesis by (cases p) auto
  qed
qed

lemma update_absent: "k \<notin> fst ` set al \<Longrightarrow> AList.update k v al = al @ [(k, v)]"
  by (induction al) auto

lemma length_update_le: "length (AList.update k v al) \<le> Suc (length al)"
  by (induction al) auto

lemma py_min_in: "py_min f b xs \<in> set (b # xs)"
  by (induction xs arbitrary: b) (auto split: if_splits)

lemma py_min_le_best: "f (py_min f b xs) \<le> f b"
proof (induction xs arbitrary: b)
  case Nil
  then show ?case by simp
next
  case (Cons x xs)
  have "f (py_min f (if f x < f b then x else b) xs) \<le> f (if f x < f b then x else b)"
    by (rule Cons.IH)
  then show ?case by (auto split: if_splits)
qed

lemma py_min_le: "y \<in> set (b # xs) \<Longrightarrow> f (py_min f b xs) \<le> f y"
proof (induction xs arbitrary: b)
  case Nil
  then show ?case by simp
next
  case (Cons x xs)
  let ?b' = "if f x < f b then x else b"
  from Cons.prems consider "y = b" | "y = x" | "y \<in> set xs" by auto
  then show ?case
  proof cases
    case 1
    have "f (py_min f ?b' xs) \<le> f ?b'" by (rule py_min_le_best)
    with 1 show ?thesis by (auto split: if_splits)
  next
    case 2
    have "f (py_min f ?b' xs) \<le> f ?b'" by (rule py_min_le_best)
    with 2 show ?thesis by (auto split: if_splits)
  next
    case 3
    then have "y \<in> set (?b' # xs)" by simp
    then have "f (py_min f ?b' xs) \<le> f y" by (rule Cons.IH)
    then show ?thesis by simp
  qed
qed

lemma py_min_first: "\<forall>x \<in> set xs. f b \<le> f x \<Longrightarrow> py_min f b xs = b"
  by (induction xs) auto


lemma cleanup_oldest_spec:
  assumes "wf_cache c" "cache c \<noteq> []"
  shows "\<exists>ko eo. map_of (cache c) ko = Some eo
           \<and> (\<forall>k e. map_of (cache c) k = Some e \<longrightarrow> timestamp eo \<le> timestamp e)
           \<and> cache (cleanup_oldest c) = AList.delete ko (cache c)
           \<and> Suc (length (cache (cleanup_oldest c))) = length (cache c)"
proof -
  from assms(2) obtain p ps where ps: "cache c = p # ps" by (cases "cache c") auto
  define m where "m = py_min (\<lambda>q. timestamp (snd q)) p ps"
  have m_in: "m \<in> set (cache c)" unfolding m_def ps by (rule py_min_in)
  from assms(1) have d: "distinct (map fst (cache c))" by (simp add: wf_cache_def)
  from m_in d have look: "map_of (cache c) (fst m) = Some (snd m)" by simp
  have least: "timestamp (snd m) \<le> timestamp e" if "map_of (cache c) k = Some e" for k e
  proof -
    from that have "(k, e) \<in> set (p # ps)" unfolding ps [symmetric] by (rule map_of_SomeD)
    then have "timestamp (snd m) \<le> timestamp (snd (k, e))"
      unfolding m_def by (rule py_min_le [where f = "\<lambda>q. timestamp (snd q)"])
    then show ?thesis by simp
  qed
  have eq: "cache (cleanup_oldest c) = AList.delete (fst m) (cache c)"
    by (simp add: cleanup_oldest_def ps m_def)
  have len: "Suc (length (cache (cleanup_oldest c))) = length (cache c)"
    unfolding eq using d look by (rule length_delete_present)
  from look least eq len show ?thesis by blast
qed


lemma length_fold_delete_le: "length (fold AList.delete ks al) \<le> length al"
proof (induction ks arbitrary: al)
  case Nil
  then show ?case by simp
next
  case (Cons k ks)
  have "length (fold AList.delete ks (AList.delete k al)) \<le> length (AList.delete k al)"
    by (rule Cons.IH)
  also have "\<dots> \<le> length al" by (rule AList.length_delete_le)
  finally show ?case by simp
qed

lemma cache_set_fields [simp]:
  "maxsize (cache_set now k v c) = maxsize c" "ttl (cache_set now k v c) = ttl c"
  by (auto simp: cache_set_def cleanup_oldest_def Let_def split: list.splits)

lemma length_delete_less: "k \<in> fst ` set al \<Longrightarrow> length (AList.delete k al) < length al"
proof (induction al)
  case Nil
  then show ?case by simp
next
  case (Cons p al)
  show ?case
  proof (cases "fst p = k")
    case True
    have "length (AList.delete k al) \<le> length al" by (rule AList.length_delete_le)
    with True show ?thesis by (cases p) simp
  next
    case False
    with Cons show ?thesis by (cases p) auto
  qed
qed

lemma cleanup_oldest_nonempty:
  assumes "cache c = p # ps"
  shows "cleanup_oldest c
         = c\<lparr>cache := AList.delete (fst (py_min (\<lambda>q. timestamp (snd q)) p ps)) (cache c)\<rparr>"
  unfolding cleanup_oldest_def Let_def using assms by (simp only: list.case)

lemma wf_cleanup_oldest:
  assumes "wf_cache c"
  shows "wf_cache (cleanup_oldest c)"
proof (cases "cache c")
  case Nil
  with assms show ?thesis by (simp add: cleanup_oldest_def)
next
  case (Cons p ps)
  from assms have "distinct (map fst (cache c))" by (simp add: wf_cache_def)
  then have "distinct (map fst (AList.delete (fst (py_min (\<lambda>q. timestamp (snd q)) p ps)) (cache c)))"
    by (rule AList.distinct_delete)
  then show ?thesis
    unfolding cleanup_oldest_nonempty [OF Cons] by (simp add: wf_cache_def)
qed

lemma length_cleanup_oldest:
  assumes "cache c \<noteq> []"
  shows "length (cache (cleanup_oldest c)) < length (cache c)"
proof -
  from assms obtain p ps where ps: "cache c = p # ps" by (cases "cache c") auto
  have "py_min (\<lambda>q. timestamp (snd q)) p ps \<in> set (cache c)"
    unfolding ps by (rule py_min_in)
  then have "fst (py_min (\<lambda>q. timestamp (snd q)) p ps) \<in> fst ` set (cache c)"
    by (rule imageI)
  then have "length (AList.delete (fst (py_min (\<lambda>q. timestamp (snd q)) p ps)) (cache c))
             < length (cache c)"
    by (rule length_delete_less)
  then show ?thesis unfolding cleanup_oldest_nonempty [OF ps] by simp
qed

lemma wf_cache_set: "wf_cache c \<Longrightarrow> wf_cache (cache_set now k v c)"
proof -
  assume "wf_cache c"
  then have "wf_cache (c\<lparr>cache := AList.update k \<lparr>val = v, timestamp = now\<rparr> (cache c)\<rparr>)"
    by (simp add: wf_cache_def AList.distinct_update)
  then show ?thesis
    by (simp add: cache_set_def Let_def wf_cleanup_oldest)
qed

lemma cache_set_bound:
  assumes "int (length (cache c)) \<le> maxsize c"
  shows "int (length (cache (cache_set now k v c))) \<le> maxsize c"
proof -
  let ?c1 = "c\<lparr>cache := AList.update k \<lparr>val = v, timestamp = now\<rparr> (cache c)\<rparr>"
  show ?thesis
  proof (cases "int (length (cache ?c1)) > maxsize ?c1")
    case False
    then show ?thesis by (simp add: cache_set_def Let_def)
  next
    case True
    have le: "length (cache ?c1) \<le> Suc (length (cache c))"
      by (simp add: length_update_le)
    have "cache ?c1 \<noteq> []" by simp
    then have "length (cache (cleanup_oldest ?c1)) < length (cache ?c1)"
      by (rule length_cleanup_oldest)
    with le assms have "int (length (cache (cleanup_oldest ?c1))) \<le> maxsize c" by simp
    with True show ?thesis by (simp add: cache_set_def Let_def)
  qed
qed


text \<open>
  C3: \<open>get\<close> returns the stored value, leaving the cache as it is, when the key is
  present and \<open>now - timestamp < ttl\<close>; when the key is present but expired it
  returns the default and deletes exactly that entry; when the key is absent it returns
  the default and changes nothing. Every entry that is in the cache after the call was
  there before with the same value and the same time stamp, so a read never extends a
  lifetime. \<open>__contains__\<close> leaves the same cache behind and answers whether the key
  is present and unexpired.
\<close>

theorem cache_get_ttl:
  assumes "wf_cache c"
  shows "(\<forall>it. map_of (cache c) k = Some it \<and> now - timestamp it < ttl c
            \<longrightarrow> cache_get now k d c = (val it, c))
       \<and> (\<forall>it. map_of (cache c) k = Some it \<and> \<not> now - timestamp it < ttl c
            \<longrightarrow> fst (cache_get now k d c) = d
              \<and> map_of (cache (snd (cache_get now k d c))) = (map_of (cache c))(k := None)
              \<and> Suc (length (cache (snd (cache_get now k d c)))) = length (cache c))
       \<and> (map_of (cache c) k = None \<longrightarrow> cache_get now k d c = (d, c))
       \<and> (\<forall>k' it'. map_of (cache (snd (cache_get now k d c))) k' = Some it'
            \<longrightarrow> map_of (cache c) k' = Some it')
       \<and> ttl (snd (cache_get now k d c)) = ttl c
       \<and> maxsize (snd (cache_get now k d c)) = maxsize c
       \<and> wf_cache (snd (cache_get now k d c))
       \<and> snd (cache_contains now k c) = snd (cache_get now k d c)
       \<and> (fst (cache_contains now k c)
            \<longleftrightarrow> (\<exists>it. map_of (cache c) k = Some it \<and> now - timestamp it < ttl c))"
proof -
  from assms have d: "distinct (map fst (cache c))" by (simp add: wf_cache_def)
  have fresh: "cache_get now k d c = (val it, c)"
    if "map_of (cache c) k = Some it" "now - timestamp it < ttl c" for it
    using that by (simp add: cache_get_def)
  have expired: "fst (cache_get now k d c) = d
       \<and> map_of (cache (snd (cache_get now k d c))) = (map_of (cache c))(k := None)
       \<and> Suc (length (cache (snd (cache_get now k d c)))) = length (cache c)"
    if "map_of (cache c) k = Some it" "\<not> now - timestamp it < ttl c" for it
    using that d by (simp add: cache_get_def AList.delete_conv' length_delete_present)
  have absent: "cache_get now k d c = (d, c)" if "map_of (cache c) k = None"
    using that by (simp add: cache_get_def)
  have survive: "map_of (cache c) k' = Some it'"
    if "map_of (cache (snd (cache_get now k d c))) k' = Some it'" for k' it'
    using that
    by (auto simp: cache_get_def AList.delete_conv' split: option.splits if_splits)
  have fields: "ttl (snd (cache_get now k d c)) = ttl c"
      "maxsize (snd (cache_get now k d c)) = maxsize c"
    by (auto simp: cache_get_def split: option.splits)
  have wf: "wf_cache (snd (cache_get now k d c))"
    using d by (auto simp: cache_get_def wf_cache_def AList.distinct_delete split: option.splits)
  have cont: "snd (cache_contains now k c) = snd (cache_get now k d c)"
    by (auto simp: cache_get_def cache_contains_def split: option.splits)
  have cont2: "fst (cache_contains now k c)
            \<longleftrightarrow> (\<exists>it. map_of (cache c) k = Some it \<and> now - timestamp it < ttl c)"
    by (auto simp: cache_contains_def split: option.splits)
  from fresh expired absent survive fields wf cont cont2 show ?thesis by blast
qed

theorem cache_get_ttl_witness:
  "wf_cache \<lparr>cache = [([1], \<lparr>val = 7::nat, timestamp = 0\<rparr>), ([2], \<lparr>val = 8, timestamp = 5\<rparr>)],
             maxsize = 5, ttl = 10\<rparr>
   \<and> cache_get 12 [2] 0
        \<lparr>cache = [([1], \<lparr>val = 7::nat, timestamp = 0\<rparr>), ([2], \<lparr>val = 8, timestamp = 5\<rparr>)],
         maxsize = 5, ttl = 10\<rparr>
      = (8, \<lparr>cache = [([1], \<lparr>val = 7, timestamp = 0\<rparr>), ([2], \<lparr>val = 8, timestamp = 5\<rparr>)],
             maxsize = 5, ttl = 10\<rparr>)
   \<and> fst (cache_get 12 [1] 0
        \<lparr>cache = [([1], \<lparr>val = 7::nat, timestamp = 0\<rparr>), ([2], \<lparr>val = 8, timestamp = 5\<rparr>)],
         maxsize = 5, ttl = 10\<rparr>) = 0
   \<and> length (cache (snd (cache_get 12 [1] 0
        \<lparr>cache = [([1], \<lparr>val = 7::nat, timestamp = 0\<rparr>), ([2], \<lparr>val = 8, timestamp = 5\<rparr>)],
         maxsize = 5, ttl = 10\<rparr>))) = 1
   \<and> cache_get 12 [3] 0
        \<lparr>cache = [([1], \<lparr>val = 7::nat, timestamp = 0\<rparr>), ([2], \<lparr>val = 8, timestamp = 5\<rparr>)],
         maxsize = 5, ttl = 10\<rparr>
      = (0, \<lparr>cache = [([1], \<lparr>val = 7, timestamp = 0\<rparr>), ([2], \<lparr>val = 8, timestamp = 5\<rparr>)],
             maxsize = 5, ttl = 10\<rparr>)"
proof -
  let ?c = "\<lparr>cache = [([1], \<lparr>val = 7::nat, timestamp = 0\<rparr>), ([2], \<lparr>val = 8, timestamp = 5\<rparr>)],
             maxsize = 5, ttl = 10\<rparr>"
  have wf: "wf_cache ?c" by (simp add: wf_cache_def)
  have a: "map_of (cache ?c) [2] = Some \<lparr>val = 8, timestamp = 5\<rparr>
           \<and> (12::real) - timestamp \<lparr>val = 8::nat, timestamp = 5\<rparr> < ttl ?c" by simp
  have b: "map_of (cache ?c) [1] = Some \<lparr>val = 7, timestamp = 0\<rparr>
           \<and> \<not> (12::real) - timestamp \<lparr>val = 7::nat, timestamp = 0\<rparr> < ttl ?c" by simp
  have n: "map_of (cache ?c) [3] = None" by simp
  from cache_get_ttl [OF wf, of "[2]" 12 0] a
  have 1: "cache_get 12 [2] 0 ?c = (8, ?c)" by (metis item.select_convs(1))
  from cache_get_ttl [OF wf, of "[1]" 12 0] b
  have 2: "fst (cache_get 12 [1] 0 ?c) = 0
           \<and> Suc (length (cache (snd (cache_get 12 [1] 0 ?c)))) = length (cache ?c)" by blast
  from cache_get_ttl [OF wf, of "[3]" 12 0] n
  have 3: "cache_get 12 [3] 0 ?c = (0, ?c)" by blast
  from wf 1 2 3 show ?thesis by simp
qed


lemma cache_set_no_evict:
  assumes "key \<notin> fst ` set (cache c)" "int (length (cache c)) < maxsize c"
  shows "cache_set now key v c = c\<lparr>cache := cache c @ [(key, \<lparr>val = v, timestamp = now\<rparr>)]\<rparr>"
  using assms by (simp add: cache_set_def Let_def update_absent)

lemma fold_set_fill:
  assumes "distinct (map (\<lambda>p. fst (snd p)) ops)" "int (length ops) \<le> m"
  shows "fold (\<lambda>p. cache_set (fst p) (fst (snd p)) (snd (snd p))) ops (cache_init m tt)
         = \<lparr>cache = map (\<lambda>p. (fst (snd p), \<lparr>val = snd (snd p), timestamp = fst p\<rparr>)) ops,
            maxsize = m, ttl = tt\<rparr>"
  using assms
proof (induction ops rule: rev_induct)
  case Nil
  then show ?case by (simp add: cache_init_def)
next
  case (snoc x xs)
  let ?E = "\<lambda>p. (fst (snd p), \<lparr>val = snd (snd p), timestamp = fst p\<rparr>)"
  let ?c = "\<lparr>cache = map ?E xs, maxsize = m, ttl = tt\<rparr>"
  from snoc.prems have dx: "distinct (map (\<lambda>p. fst (snd p)) xs)" and lx: "int (length xs) \<le> m"
    by auto
  from snoc.IH [OF dx lx]
  have IH: "fold (\<lambda>p. cache_set (fst p) (fst (snd p)) (snd (snd p))) xs (cache_init m tt) = ?c" .
  from snoc.prems have notin: "fst (snd x) \<notin> fst ` set (cache ?c)" by (auto simp: image_iff)
  from snoc.prems have lt: "int (length (cache ?c)) < maxsize ?c" by simp
  have "cache_set (fst x) (fst (snd x)) (snd (snd x)) ?c
        = ?c\<lparr>cache := cache ?c @ [(fst (snd x), \<lparr>val = snd (snd x), timestamp = fst x\<rparr>)]\<rparr>"
    using notin lt by (rule cache_set_no_evict)
  then show ?case by (simp add: IH)
qed

lemma delete_head_distinct:
  "distinct (map fst (p # ps)) \<Longrightarrow> AList.delete (fst p) (p # ps) = ps"
  by (cases p) (simp add: AList.delete_id)

lemma cache_set_overflow_sorted:
  assumes c: "cache c = p # ps" and d: "distinct (map fst (cache c))"
    and notin: "key \<notin> fst ` set (cache c)"
    and full: "int (length (cache c)) = maxsize c"
    and old: "\<forall>q \<in> set ps. timestamp (snd p) \<le> timestamp (snd q)"
    and now: "timestamp (snd p) \<le> now"
  shows "cache_set now key v c = c\<lparr>cache := ps @ [(key, \<lparr>val = v, timestamp = now\<rparr>)]\<rparr>"
proof -
  let ?e = "(key, \<lparr>val = v, timestamp = now\<rparr>)"
  let ?c1 = "c\<lparr>cache := AList.update key \<lparr>val = v, timestamp = now\<rparr> (cache c)\<rparr>"
  have c1: "cache ?c1 = p # (ps @ [?e])" using notin c by (auto simp: update_absent)
  have "\<forall>q \<in> set (ps @ [?e]). timestamp (snd p) \<le> timestamp (snd q)"
    using old now by auto
  then have m: "py_min (\<lambda>q. timestamp (snd q)) p (ps @ [?e]) = p"
    by (rule py_min_first [where f = "\<lambda>q. timestamp (snd q)"])
  have d1: "distinct (map fst (p # (ps @ [?e])))" using d notin c by auto
  have "cleanup_oldest ?c1 = ?c1\<lparr>cache := AList.delete (fst p) (cache ?c1)\<rparr>"
    using cleanup_oldest_nonempty [OF c1] by (simp only: m)
  also have "\<dots> = c\<lparr>cache := ps @ [?e]\<rparr>"
    unfolding c1 delete_head_distinct [OF d1] by simp
  finally have "cleanup_oldest ?c1 = c\<lparr>cache := ps @ [?e]\<rparr>" .
  moreover have "int (length (cache ?c1)) > maxsize ?c1" using full c1 c by simp
  ultimately show ?thesis by (simp add: cache_set_def Let_def)
qed


lemma cache_set_evicts:
  assumes "wf_cache c"
    and c1_def: "c1 = c\<lparr>cache := AList.update key \<lparr>val = v, timestamp = now\<rparr> (cache c)\<rparr>"
  shows "(int (length (cache c1)) \<le> maxsize c \<longrightarrow> cache_set now key v c = c1)
       \<and> (int (length (cache c1)) > maxsize c \<longrightarrow>
            (\<exists>ko eo. map_of (cache c1) ko = Some eo
               \<and> (\<forall>k e. map_of (cache c1) k = Some e \<longrightarrow> timestamp eo \<le> timestamp e)
               \<and> cache_set now key v c = c1\<lparr>cache := AList.delete ko (cache c1)\<rparr>
               \<and> Suc (length (cache (cache_set now key v c))) = length (cache c1)))"
proof (intro conjI impI)
  assume "int (length (cache c1)) \<le> maxsize c"
  then show "cache_set now key v c = c1" by (simp add: cache_set_def Let_def c1_def)
next
  assume over: "int (length (cache c1)) > maxsize c"
  have eq: "cache_set now key v c = cleanup_oldest c1"
    using over by (simp add: cache_set_def Let_def c1_def)
  from assms(1) have wf1: "wf_cache c1"
    by (simp add: wf_cache_def c1_def AList.distinct_update)
  have ne: "cache c1 \<noteq> []" by (simp add: c1_def)
  then obtain p ps where ps: "cache c1 = p # ps" by (cases "cache c1") auto
  from cleanup_oldest_spec [OF wf1 ne] obtain ko eo where
    k: "map_of (cache c1) ko = Some eo"
      "\<forall>k e. map_of (cache c1) k = Some e \<longrightarrow> timestamp eo \<le> timestamp e"
      "cache (cleanup_oldest c1) = AList.delete ko (cache c1)"
      "Suc (length (cache (cleanup_oldest c1))) = length (cache c1)"
    by blast
  have "cleanup_oldest c1 = c1\<lparr>cache := cache (cleanup_oldest c1)\<rparr>"
    unfolding cleanup_oldest_nonempty [OF ps] by simp
  with k(3) have "cleanup_oldest c1 = c1\<lparr>cache := AList.delete ko (cache c1)\<rparr>" by simp
  with k eq show "\<exists>ko eo. map_of (cache c1) ko = Some eo
               \<and> (\<forall>k e. map_of (cache c1) k = Some e \<longrightarrow> timestamp eo \<le> timestamp e)
               \<and> cache_set now key v c = c1\<lparr>cache := AList.delete ko (cache c1)\<rparr>
               \<and> Suc (length (cache (cache_set now key v c))) = length (cache c1)"
    by metis
qed

lemma fold_set_overflow:
  assumes len: "length ops = Suc n"
    and dist: "distinct (map (\<lambda>p. fst (snd p)) ops)"
    and srt: "sorted (map fst ops)"
  shows "fold (\<lambda>p. cache_set (fst p) (fst (snd p)) (snd (snd p))) ops (cache_init (int n) tt)
         = \<lparr>cache = map (\<lambda>p. (fst (snd p), \<lparr>val = snd (snd p), timestamp = fst p\<rparr>)) (tl ops),
            maxsize = int n, ttl = tt\<rparr>"
proof -
  let ?E = "\<lambda>p. (fst (snd p), \<lparr>val = snd (snd p), timestamp = fst p\<rparr>)"
  let ?F = "\<lambda>p. cache_set (fst p) (fst (snd p)) (snd (snd p))"
  from len obtain xs x where ops: "ops = xs @ [x]" and lxs: "length xs = n"
    by (cases ops rule: rev_cases) auto
  let ?c = "\<lparr>cache = map ?E xs, maxsize = int n, ttl = tt\<rparr>"
  from dist ops have dxs: "distinct (map (\<lambda>p. fst (snd p)) xs)" by simp
  have fill: "fold ?F xs (cache_init (int n) tt) = ?c"
    using dxs lxs by (intro fold_set_fill) simp_all
  show ?thesis
  proof (cases xs)
    case Nil
    with lxs ops show ?thesis
      by (simp add: cache_init_def cache_set_def cleanup_oldest_def Let_def)
  next
    case (Cons y ys)
    have c: "cache ?c = ?E y # map ?E ys" using Cons by simp
    have d: "distinct (map fst (cache ?c))" using dxs by (simp add: comp_def)
    have notin: "fst (snd x) \<notin> fst ` set (cache ?c)"
      using dist ops by (auto simp: image_iff)
    have full: "int (length (cache ?c)) = maxsize ?c" using lxs by simp
    from srt ops Cons have "\<forall>q \<in> set ys. fst y \<le> fst q" and "fst y \<le> fst x"
      by (auto simp: sorted_append)
    then have old: "\<forall>q \<in> set (map ?E ys). timestamp (snd (?E y)) \<le> timestamp (snd q)"
      and now: "timestamp (snd (?E y)) \<le> fst x" by auto
    have "cache_set (fst x) (fst (snd x)) (snd (snd x)) ?c
          = ?c\<lparr>cache := map ?E ys @ [(fst (snd x), \<lparr>val = snd (snd x), timestamp = fst x\<rparr>)]\<rparr>"
      using c d notin full old now by (rule cache_set_overflow_sorted)
    then show ?thesis using ops Cons fill by simp
  qed
qed


lemma cache_setitem_eq: "cache_setitem now k v c = cache_set now k v c"
  by (simp add: cache_setitem_def cache_set_def)

lemma update_items_bound:
  "int (length (cache c)) \<le> maxsize c
   \<Longrightarrow> int (length (cache (cache_update_items kvs c))) \<le> maxsize c
       \<and> maxsize (cache_update_items kvs c) = maxsize c"
proof (induction kvs arbitrary: c)
  case Nil
  then show ?case by (simp add: cache_update_items_def)
next
  case (Cons p kvs)
  let ?c = "cache_set (fst p) (fst (snd p)) (snd (snd p)) c"
  have "int (length (cache ?c)) \<le> maxsize ?c"
    using cache_set_bound [OF Cons.prems] by simp
  from Cons.IH [OF this] show ?case by (simp add: cache_update_items_def)
qed

lemma shrink_bounds:
  "length (cache (snd (cache_get now k d c))) \<le> length (cache c)"
  "length (cache (snd (cache_contains now k c))) \<le> length (cache c)"
  "length (cache (snd (cache_getitem now k c))) \<le> length (cache c)"
  "length (cache (cache_clear c)) \<le> length (cache c)"
  "length (cache (snd (cleanup_expired now c))) \<le> length (cache c)"
  "maxsize (snd (cache_get now k d c)) = maxsize c"
  "maxsize (snd (cache_contains now k c)) = maxsize c"
  "maxsize (snd (cache_getitem now k c)) = maxsize c"
  "maxsize (cache_clear c) = maxsize c"
  "maxsize (snd (cleanup_expired now c)) = maxsize c"
  by (auto simp: cache_get_def cache_contains_def cache_getitem_def cache_clear_def
      cleanup_expired_def Let_def AList.length_delete_le length_fold_delete_le
      split: option.splits)

text \<open>
  C4: \<open>set\<close> writes the entry and, when the dict then holds more than
  \<open>maxsize\<close> entries, removes exactly one entry, whose time stamp is the smallest of
  all stored entries; otherwise nothing is removed. A cache that holds at most
  \<open>maxsize\<close> entries still does after every operation of the class, and the
  constructor's empty cache does when \<open>maxsize\<close> is not negative. Writing
  \<open>n + 1\<close> distinct keys at non-decreasing clock readings into a fresh cache of
  capacity \<open>n\<close> leaves exactly \<open>n\<close> entries, the first-written key absent and all
  later ones present.
\<close>

theorem cache_set_capacity:
  assumes "wf_cache c"
  shows "(let c1 = c\<lparr>cache := AList.update key \<lparr>val = v, timestamp = now\<rparr> (cache c)\<rparr> in
          (int (length (cache c1)) \<le> maxsize c \<longrightarrow> cache_set now key v c = c1)
        \<and> (int (length (cache c1)) > maxsize c \<longrightarrow>
            (\<exists>ko eo. map_of (cache c1) ko = Some eo
               \<and> (\<forall>k e. map_of (cache c1) k = Some e \<longrightarrow> timestamp eo \<le> timestamp e)
               \<and> cache_set now key v c = c1\<lparr>cache := AList.delete ko (cache c1)\<rparr>
               \<and> Suc (length (cache (cache_set now key v c))) = length (cache c1))))
       \<and> (0 \<le> m \<longrightarrow> int (length (cache (cache_init m tt :: 'a OptimizedCache))) \<le> maxsize (cache_init m tt :: 'a OptimizedCache))
       \<and> (int (length (cache c)) \<le> maxsize c \<longrightarrow>
            int (length (cache (cache_set now key v c))) \<le> maxsize (cache_set now key v c)
          \<and> int (length (cache (cache_setitem now key v c))) \<le> maxsize (cache_setitem now key v c)
          \<and> int (length (cache (cache_update_items kvs c))) \<le> maxsize (cache_update_items kvs c)
          \<and> int (length (cache (snd (cache_get now key d c)))) \<le> maxsize (snd (cache_get now key d c))
          \<and> int (length (cache (snd (cache_contains now key c)))) \<le> maxsize (snd (cache_contains now key c))
          \<and> int (length (cache (snd (cache_getitem now key c)))) \<le> maxsize (snd (cache_getitem now key c))
          \<and> int (length (cache (cache_clear c))) \<le> maxsize (cache_clear c)
          \<and> int (length (cache (snd (cleanup_expired now c)))) \<le> maxsize (snd (cleanup_expired now c)))
       \<and> (length ops = Suc n \<and> distinct (map (\<lambda>p. fst (snd p)) ops) \<and> sorted (map fst ops) \<longrightarrow>
            (let c' = fold (\<lambda>p. cache_set (fst p) (fst (snd p)) (snd (snd p))) ops
                        (cache_init (int n) tt)
             in length (cache c') = n
              \<and> map_of (cache c') (fst (snd (hd ops))) = None
              \<and> (\<forall>p \<in> set (tl ops). map_of (cache c') (fst (snd p))
                    = Some \<lparr>val = snd (snd p), timestamp = fst p\<rparr>)))"
proof -
  have a: "(let c1 = c\<lparr>cache := AList.update key \<lparr>val = v, timestamp = now\<rparr> (cache c)\<rparr> in
          (int (length (cache c1)) \<le> maxsize c \<longrightarrow> cache_set now key v c = c1)
        \<and> (int (length (cache c1)) > maxsize c \<longrightarrow>
            (\<exists>ko eo. map_of (cache c1) ko = Some eo
               \<and> (\<forall>k e. map_of (cache c1) k = Some e \<longrightarrow> timestamp eo \<le> timestamp e)
               \<and> cache_set now key v c = c1\<lparr>cache := AList.delete ko (cache c1)\<rparr>
               \<and> Suc (length (cache (cache_set now key v c))) = length (cache c1))))"
    unfolding Let_def by (rule cache_set_evicts [OF assms refl])
  have i: "0 \<le> m \<longrightarrow> int (length (cache (cache_init m tt :: 'a OptimizedCache))) \<le> maxsize (cache_init m tt :: 'a OptimizedCache)"
    by (simp add: cache_init_def)
  have b: "int (length (cache (cache_set now key v c))) \<le> maxsize (cache_set now key v c)
          \<and> int (length (cache (cache_setitem now key v c))) \<le> maxsize (cache_setitem now key v c)
          \<and> int (length (cache (cache_update_items kvs c))) \<le> maxsize (cache_update_items kvs c)
          \<and> int (length (cache (snd (cache_get now key d c)))) \<le> maxsize (snd (cache_get now key d c))
          \<and> int (length (cache (snd (cache_contains now key c)))) \<le> maxsize (snd (cache_contains now key c))
          \<and> int (length (cache (snd (cache_getitem now key c)))) \<le> maxsize (snd (cache_getitem now key c))
          \<and> int (length (cache (cache_clear c))) \<le> maxsize (cache_clear c)
          \<and> int (length (cache (snd (cleanup_expired now c)))) \<le> maxsize (snd (cleanup_expired now c))"
    if bnd: "int (length (cache c)) \<le> maxsize c"
  proof -
    have 1: "int (length (cache (cache_set now key v c))) \<le> maxsize (cache_set now key v c)"
      using cache_set_bound [OF bnd] by simp
    have 2: "int (length (cache (cache_update_items kvs c))) \<le> maxsize (cache_update_items kvs c)"
      using update_items_bound [OF bnd] by simp
    have 3: "int (length (cache (snd (cache_get now key d c)))) \<le> maxsize (snd (cache_get now key d c))"
      using bnd shrink_bounds(1) [of now key d c] unfolding shrink_bounds(6) by linarith
    have 4: "int (length (cache (snd (cache_contains now key c)))) \<le> maxsize (snd (cache_contains now key c))"
      using bnd shrink_bounds(2) [of now key c] unfolding shrink_bounds(7) by linarith
    have 5: "int (length (cache (snd (cache_getitem now key c)))) \<le> maxsize (snd (cache_getitem now key c))"
      using bnd shrink_bounds(3) [of now key c] unfolding shrink_bounds(8) by linarith
    have 6: "int (length (cache (cache_clear c))) \<le> maxsize (cache_clear c)"
      using bnd shrink_bounds(4) [of c] unfolding shrink_bounds(9) by linarith
    have 7: "int (length (cache (snd (cleanup_expired now c)))) \<le> maxsize (snd (cleanup_expired now c))"
      using bnd shrink_bounds(5) [of now c] unfolding shrink_bounds(10) by linarith
    from 1 2 3 4 5 6 7 show ?thesis by (simp only: cache_setitem_eq) 
  qed
  have s: "(let c' = fold (\<lambda>p. cache_set (fst p) (fst (snd p)) (snd (snd p))) ops
                        (cache_init (int n) tt)
             in length (cache c') = n
              \<and> map_of (cache c') (fst (snd (hd ops))) = None
              \<and> (\<forall>p \<in> set (tl ops). map_of (cache c') (fst (snd p))
                    = Some \<lparr>val = snd (snd p), timestamp = fst p\<rparr>))"
    if h: "length ops = Suc n \<and> distinct (map (\<lambda>p. fst (snd p)) ops) \<and> sorted (map fst ops)"
  proof -
    let ?E = "\<lambda>p. (fst (snd p), \<lparr>val = snd (snd p), timestamp = fst p\<rparr>)"
    from h have len: "length ops = Suc n" and dist: "distinct (map (\<lambda>p. fst (snd p)) ops)"
      and srt: "sorted (map fst ops)" by auto
    from len obtain y ys where ops: "ops = y # ys" by (cases ops) auto
    have r: "fold (\<lambda>p. cache_set (fst p) (fst (snd p)) (snd (snd p))) ops (cache_init (int n) tt)
          = \<lparr>cache = map ?E ys, maxsize = int n, ttl = tt\<rparr>"
      using fold_set_overflow [OF len dist srt, of tt] ops by simp
    have dys: "distinct (map fst (map ?E ys))" using dist ops by (simp add: comp_def)
    have 1: "length (map ?E ys) = n" using len ops by simp
    have 2: "map_of (map ?E ys) (fst (snd y)) = None"
      using dist ops by (auto simp: map_of_eq_None_iff image_iff)
    have 3: "map_of (map ?E ys) (fst (snd p)) = Some \<lparr>val = snd (snd p), timestamp = fst p\<rparr>"
      if "p \<in> set ys" for p
    proof -
      from that have "?E p \<in> set (map ?E ys)" by (rule imageI [of p "set ys" ?E, simplified set_map [symmetric]])
      with dys have "map_of (map ?E ys) (fst (?E p)) = Some (snd (?E p))" by simp
      then show ?thesis by simp
    qed
    from 1 2 3 show ?thesis unfolding Let_def r using ops by simp
  qed
  from a i b s show ?thesis by blast
qed


theorem cache_set_capacity_witness:
  "wf_cache \<lparr>cache = [([1], \<lparr>val = 10::nat, timestamp = 1\<rparr>), ([2], \<lparr>val = 20, timestamp = 2\<rparr>)],
             maxsize = 2, ttl = 60\<rparr>
   \<and> Suc (length (cache (cache_set 3 [3] 30
        \<lparr>cache = [([1], \<lparr>val = 10::nat, timestamp = 1\<rparr>), ([2], \<lparr>val = 20, timestamp = 2\<rparr>)],
         maxsize = 2, ttl = 60\<rparr>))) = 3
   \<and> int (length (cache (cache_set 3 [3] 30
        \<lparr>cache = [([1], \<lparr>val = 10::nat, timestamp = 1\<rparr>), ([2], \<lparr>val = 20, timestamp = 2\<rparr>)],
         maxsize = 2, ttl = 60\<rparr>))) \<le> 2
   \<and> length (cache (fold (\<lambda>p. cache_set (fst p) (fst (snd p)) (snd (snd p)))
                [(1, [1], 10::nat), (2, [2], 20), (3, [3], 30)] (cache_init 2 60))) = 2
   \<and> map_of (cache (fold (\<lambda>p. cache_set (fst p) (fst (snd p)) (snd (snd p)))
                [(1, [1], 10::nat), (2, [2], 20), (3, [3], 30)] (cache_init 2 60))) [1] = None"
proof -
  let ?c = "\<lparr>cache = [([1], \<lparr>val = 10::nat, timestamp = 1\<rparr>), ([2], \<lparr>val = 20, timestamp = 2\<rparr>)],
             maxsize = 2, ttl = 60\<rparr>"
  let ?ops = "[(1::real, [1::nat], 10::nat), (2, [2], 20), (3, [3], 30)]"
  have wf: "wf_cache ?c" by (simp add: wf_cache_def)
  note T = cache_set_capacity [OF wf, of "[3]" 30 3 2 60 "[]" 0 ?ops 2]
  have over: "int (length (cache (?c\<lparr>cache := AList.update [3] \<lparr>val = 30, timestamp = 3\<rparr> (cache ?c)\<rparr>)))
              > maxsize ?c" by simp
  have len1: "length (cache (?c\<lparr>cache := AList.update [3] \<lparr>val = 30, timestamp = 3\<rparr> (cache ?c)\<rparr>)) = 3"
    by simp
  from T over have "\<exists>ko eo. Suc (length (cache (cache_set 3 [3] 30 ?c)))
        = length (cache (?c\<lparr>cache := AList.update [3] \<lparr>val = 30, timestamp = 3\<rparr> (cache ?c)\<rparr>))"
    unfolding Let_def by blast
  with len1 have 1: "Suc (length (cache (cache_set 3 [3] 30 ?c))) = 3" by simp
  have bnd: "int (length (cache ?c)) \<le> maxsize ?c" by simp
  from T bnd have "int (length (cache (cache_set 3 [3] 30 ?c))) \<le> maxsize (cache_set 3 [3] 30 ?c)"
    by blast
  then have 2: "int (length (cache (cache_set 3 [3] 30 ?c))) \<le> 2" by (simp add: cache_set_fields)
  have h: "length ?ops = Suc 2 \<and> distinct (map (\<lambda>p. fst (snd p)) ?ops) \<and> sorted (map fst ?ops)"
    by simp
  from T h have "let c' = fold (\<lambda>p. cache_set (fst p) (fst (snd p)) (snd (snd p))) ?ops
                        (cache_init (int 2) 60)
             in length (cache c') = 2 \<and> map_of (cache c') (fst (snd (hd ?ops))) = None"
    unfolding Let_def by blast
  then have 3: "length (cache (fold (\<lambda>p. cache_set (fst p) (fst (snd p)) (snd (snd p))) ?ops
                        (cache_init 2 60))) = 2
        \<and> map_of (cache (fold (\<lambda>p. cache_set (fst p) (fst (snd p)) (snd (snd p))) ?ops
                        (cache_init 2 60))) [1] = None"
    unfolding Let_def by simp
  from wf 1 2 3 show ?thesis by blast
qed

section \<open>Properties of the quality scorer\<close>


lemma py_round2_ge:
  assumes "of_int k / 100 \<le> x"
  shows "of_int k / 100 \<le> py_round2 x"
proof -
  from assms have "of_int k \<le> x * 100" by simp
  then have "k \<le> \<lfloor>x * 100\<rfloor>" by (simp add: le_floor_iff)
  then have "(of_int k :: real) \<le> of_int \<lfloor>x * 100\<rfloor>" by simp
  then show ?thesis
    by (auto simp: py_round2_def Let_def divide_le_cancel)
qed

lemma py_round2_0: "py_round2 0 = 0"
  by (simp add: py_round2_def)

lemma sum_list_ge:
  assumes "\<forall>w \<in> set ws. (c::real) \<le> w"
  shows "c * real (length ws) \<le> sum_list ws"
  using assms by (induction ws) (auto simp: algebra_simps)

lemma relevance_weights: "\<forall>p \<in> set relevance_keywords. 7 / 10 \<le> snd p"
  by (simp add: relevance_keywords_def)

lemma relevance_eq:
  "relevance (calculate_quality_metrics e response) =
     py_round2 (min ((if matched e response \<noteq> []
             then sum_list (map snd (matched e response)) / real (length (matched e response))
             else 0) * (12 / 10)) 1)"
  by (simp add: calculate_quality_metrics_def Let_def matched_def)

lemma avg_ge:
  assumes "matched e response \<noteq> []"
  shows "7 / 10 \<le> sum_list (map snd (matched e response)) / real (length (matched e response))"
proof -
  let ?m = "matched e response"
  have "\<forall>w \<in> set (map snd ?m). 7 / 10 \<le> w"
    using relevance_weights by (auto simp: matched_def)
  then have "7 / 10 * real (length (map snd ?m)) \<le> sum_list (map snd ?m)"
    by (rule sum_list_ge)
  moreover have "0 < real (length ?m)" using assms by simp
  ultimately show ?thesis by (simp add: pos_le_divide_eq)
qed

lemma relevance_dichotomy:
  "(matched e response = [] \<longrightarrow> relevance (calculate_quality_metrics e response) = 0)
   \<and> (matched e response \<noteq> [] \<longrightarrow> 84 / 100 \<le> relevance (calculate_quality_metrics e response))"
proof (intro conjI impI)
  assume "matched e response = []"
  then show "relevance (calculate_quality_metrics e response) = 0"
    by (simp add: relevance_eq py_round2_0)
next
  assume ne: "matched e response \<noteq> []"
  let ?avg = "sum_list (map snd (matched e response)) / real (length (matched e response))"
  from avg_ge [OF ne] have "84 / 100 \<le> ?avg * (12 / 10)" by simp
  then have "of_int 84 / 100 \<le> min (?avg * (12 / 10)) 1" by simp
  then have "of_int 84 / 100 \<le> py_round2 (min (?avg * (12 / 10)) 1)" by (rule py_round2_ge)
  with ne show "84 / 100 \<le> relevance (calculate_quality_metrics e response)"
    by (simp add: relevance_eq)
qed


lemma matched_nonempty_iff:
  "matched e response \<noteq> []
   \<longleftrightarrow> (\<exists>kw \<in> fst ` set relevance_keywords. py_in kw (scored_text e response))"
  by (force simp: matched_def filter_empty_conv)

lemma py_round2_le1:
  assumes "x \<le> 1"
  shows "py_round2 x \<le> 1"
proof -
  define y where "y = x * 100"
  define f where "f = \<lfloor>y\<rfloor>"
  have y: "y \<le> 100" using assms by (simp add: y_def)
  have f_le: "of_int f \<le> y" by (simp add: f_def)
  have eq: "py_round2 x =
      (if y - of_int f < 1 / 2 then of_int f
       else if y - of_int f > 1 / 2 then of_int (f + 1)
       else if even f then of_int f else of_int (f + 1)) / 100"
    by (simp add: py_round2_def Let_def y_def f_def)
  have "f \<le> 100" using y by (simp add: f_def floor_le_iff)
  then consider "f = 100" | "f \<le> 99" by linarith
  then show ?thesis
  proof cases
    case 1
    with f_le y have "y - of_int f < 1 / 2" by simp
    with 1 show ?thesis by (simp add: eq)
  next
    case 2
    then have "(of_int f :: real) \<le> 99" by simp
    then show ?thesis by (simp add: eq)
  qed
qed

text \<open>
  C9: the relevance score is 0 when no term of the relevance vocabulary occurs in the
  lower-cased text and at least 0.84 otherwise, because every weight of the vocabulary is
  at least 0.7; so the score is 0 exactly when no term occurs, and the gate's condition
  \<open>relevance \<ge> 0.5\<close> holds exactly when at least one term occurs. The score never
  exceeds 1.
\<close>

theorem relevance_zero_or_high:
  "(relevance (calculate_quality_metrics e response) = 0
      \<or> 84 / 100 \<le> relevance (calculate_quality_metrics e response))
   \<and> (relevance (calculate_quality_metrics e response) = 0
        \<longleftrightarrow> \<not> (\<exists>kw \<in> fst ` set relevance_keywords. py_in kw (scored_text e response)))
   \<and> (1 / 2 \<le> relevance (calculate_quality_metrics e response)
        \<longleftrightarrow> (\<exists>kw \<in> fst ` set relevance_keywords. py_in kw (scored_text e response)))
   \<and> (\<forall>p \<in> set relevance_keywords. 7 / 10 \<le> snd p)
   \<and> relevance (calculate_quality_metrics e response) \<le> 1"
proof -
  note d = relevance_dichotomy [of e response]
  have le1: "relevance (calculate_quality_metrics e response) \<le> 1"
    unfolding relevance_eq by (rule py_round2_le1) simp
  show ?thesis
  proof (cases "matched e response = []")
    case True
    with d have "relevance (calculate_quality_metrics e response) = 0" by blast
    with True relevance_weights le1 show ?thesis
      using matched_nonempty_iff [of e response] by simp
  next
    case False
    with d have "84 / 100 \<le> relevance (calculate_quality_metrics e response)" by blast
    with False relevance_weights le1 show ?thesis
      using matched_nonempty_iff [of e response] by simp
  qed
qed

theorem relevance_zero_or_high_witness:
  "(\<exists>kw \<in> fst ` set relevance_keywords. py_in kw (scored_text env0 (VStr [47579, 51080, 45796])))
   \<and> 84 / 100 \<le> relevance (calculate_quality_metrics env0 (VStr [47579, 51080, 45796]))
   \<and> \<not> (\<exists>kw \<in> fst ` set relevance_keywords. py_in kw (scored_text env0 (VStr (ascii ''hello''))))
   \<and> relevance (calculate_quality_metrics env0 (VStr (ascii ''hello''))) = 0"
proof -
  have a: "\<exists>kw \<in> fst ` set relevance_keywords. py_in kw (scored_text env0 (VStr [47579, 51080, 45796]))"
    by (simp add: relevance_keywords_def scored_text_def env0_def)
  have b: "\<not> (\<exists>kw \<in> fst ` set relevance_keywords. py_in kw (scored_text env0 (VStr (ascii ''hello''))))"
    by (simp add: relevance_keywords_def scored_text_def env0_def ascii_def)
  from relevance_zero_or_high [of env0 "VStr [47579, 51080, 45796]"] a
  have 1: "84 / 100 \<le> relevance (calculate_quality_metrics env0 (VStr [47579, 51080, 45796]))"
    by auto
  from relevance_zero_or_high [of env0 "VStr (ascii ''hello'')"] b
  have 2: "relevance (calculate_quality_metrics env0 (VStr (ascii ''hello''))) = 0"
    by blast
  from a b 1 2 show ?thesis by blast
qed

section \<open>Properties of the query entry points\<close>

subsection \<open>The synchronous path\<close>

lemma tick_fields [simp]:
  "ticks (tick r) = Suc (ticks r)"
  "response_cache (tick r) = response_cache r"
  "embedding_cache (tick r) = embedding_cache r"
  "metrics_execution_time (tick r) = metrics_execution_time r"
  "metrics_quality_scores (tick r) = metrics_quality_scores r"
  "error_count (tick r) = error_count r"
  "request_count (tick r) = request_count r"
  "cache_hits (tick r) = cache_hits r"
  "request_handler (tick r) = request_handler r"
  by (simp_all add: tick_def)

lemma get_context_state [simp]: "snd (get_context e q r) = tick r"
  by (simp add: get_context_def)

lemma get_context_value [simp]: "fst (get_context e q r) = search_context e (ticks r) q"
  by (simp add: get_context_def)

lemma record_metrics_fields [simp]:
  "ticks (record_metrics e st m r) = Suc (ticks r)"
  "response_cache (record_metrics e st m r) = response_cache r"
  "embedding_cache (record_metrics e st m r) = embedding_cache r"
  "error_count (record_metrics e st m r) = error_count r"
  "request_count (record_metrics e st m r) = request_count r"
  "cache_hits (record_metrics e st m r) = cache_hits r"
  "request_handler (record_metrics e st m r) = request_handler r"
  by (simp_all add: record_metrics_def Let_def)

lemma ask_error_fields [simp]:
  "source (fst (ask_error e st ex r)) = None"
  "error (fst (ask_error e st ex r)) = Some (str_of_exc e ex)"
  "quality_metrics (fst (ask_error e st ex r)) = zero_quality"
  "response_cache (snd (ask_error e st ex r)) = response_cache r"
  "embedding_cache (snd (ask_error e st ex r)) = embedding_cache r"
  "error_count (snd (ask_error e st ex r)) = error_count r + 1"
  "request_count (snd (ask_error e st ex r)) = request_count r"
  "cache_hits (snd (ask_error e st ex r)) = cache_hits r"
  "ticks (snd (ask_error e st ex r)) = Suc (ticks r)"
  by (simp_all add: ask_error_def)

lemma ask_generate_raise:
  assumes "qa_invoke e (Suc (ticks r1)) q (VStr (fst (get_context e q r1))) = Inl ex"
  shows "ask_generate e q key st r1 = ask_error e st ex (tick (tick r1))"
  using assms by (simp add: ask_generate_def split_beta)

lemma ask_generate_empty:
  assumes "qa_invoke e (Suc (ticks r1)) q (VStr (fst (get_context e q r1))) = Inr resp"
    and "resp_answer resp = None \<or> resp_answer resp = Some []"
  shows "ask_generate e q key st r1 =
           ask_error e st (ValueError (ascii ''Empty response from QA chain'')) (tick (tick r1))"
  using assms by (auto simp: ask_generate_def split_beta Let_def)

lemma ask_generate_direct:
  assumes "qa_invoke e (Suc (ticks r1)) q (VStr (fst (get_context e q r1))) = Inr resp"
    and "resp_answer resp = Some a" and "a \<noteq> []"
  shows "fst (ask_generate e q key st r1) =
           Result (VStr a) (clk e (Suc (Suc (ticks r1))) - st)
             (calculate_quality_metrics e (VStr a)) (Some SrcDirect)
             (Some (length (fst (get_context e q r1)))) None None"
    and "response_cache (snd (ask_generate e q key st r1)) =
           (if completeness (calculate_quality_metrics e (VStr a)) \<ge> 1 / 2
               \<and> relevance (calculate_quality_metrics e (VStr a)) \<ge> 1 / 2
            then cache_set (clk e (Suc (Suc (Suc (ticks r1))))) key (VStr a) (response_cache r1)
            else response_cache r1)"
    and "error_count (snd (ask_generate e q key st r1)) = error_count r1"
    and "request_count (snd (ask_generate e q key st r1)) = request_count r1"
    and "cache_hits (snd (ask_generate e q key st r1)) = cache_hits r1"
    and "embedding_cache (snd (ask_generate e q key st r1)) = embedding_cache r1"
    and "ticks r1 \<le> ticks (snd (ask_generate e q key st r1))"
  using assms by (simp_all add: ask_generate_def split_beta Let_def)

lemma ask_key_error:
  assumes "get_cache_key e q = Inl ex"
  shows "ask e q r = ask_error e (clk e (ticks r)) ex (tick (r\<lparr>request_count := request_count r + 1\<rparr>))"
  using assms by (simp add: ask_def Let_def)

lemma ask_hit:
  assumes "get_cache_key e q = Inr key"
    and "truthy (fst (cache_get (clk e (Suc (ticks r))) key VNone (response_cache r)))"
  shows "fst (ask e q r) =
           Result (fst (cache_get (clk e (Suc (ticks r))) key VNone (response_cache r)))
             (clk e (Suc (Suc (ticks r))) - clk e (ticks r))
             (calculate_quality_metrics e
                (fst (cache_get (clk e (Suc (ticks r))) key VNone (response_cache r))))
             (Some SrcCache) None None None"
    and "response_cache (snd (ask e q r))
           = snd (cache_get (clk e (Suc (ticks r))) key VNone (response_cache r))"
    and "error_count (snd (ask e q r)) = error_count r"
    and "request_count (snd (ask e q r)) = request_count r + 1"
    and "cache_hits (snd (ask e q r)) = cache_hits r + 1"
    and "embedding_cache (snd (ask e q r)) = embedding_cache r"
  using assms by (simp_all add: ask_def Let_def split_beta)

lemma ask_miss:
  assumes "get_cache_key e q = Inr key"
    and "\<not> truthy (fst (cache_get (clk e (Suc (ticks r))) key VNone (response_cache r)))"
  shows "ask e q r =
           ask_generate e q key (clk e (ticks r))
             (tick ((tick (r\<lparr>request_count := request_count r + 1\<rparr>))
                \<lparr>response_cache :=
                   snd (cache_get (clk e (Suc (ticks r))) key VNone (response_cache r))\<rparr>))"
  using assms by (simp add: ask_def Let_def split_beta)


lemma ask_generate_source:
  "source (fst (ask_generate e q key st r1)) = None
   \<or> (\<exists>resp a. qa_invoke e (Suc (ticks r1)) q (VStr (fst (get_context e q r1))) = Inr resp
          \<and> resp_answer resp = Some a \<and> a \<noteq> []
          \<and> source (fst (ask_generate e q key st r1)) = Some SrcDirect)"
proof (cases "qa_invoke e (Suc (ticks r1)) q (VStr (fst (get_context e q r1)))")
  case (Inl ex)
  then show ?thesis by (simp add: ask_generate_raise)
next
  case (Inr resp)
  show ?thesis
  proof (cases "resp_answer resp = None \<or> resp_answer resp = Some []")
    case True
    with Inr show ?thesis by (simp add: ask_generate_empty)
  next
    case False
    then obtain a where a: "resp_answer resp = Some a" "a \<noteq> []" by auto
    from ask_generate_direct(1) [OF Inr a]
    have "source (fst (ask_generate e q key st r1)) = Some SrcDirect" by simp
    with Inr a show ?thesis by blast
  qed
qed

lemma cache_get_falsy_again:
  assumes "\<not> truthy (fst (cache_get t1 key VNone c))"
  shows "\<not> truthy (fst (cache_get t2 key VNone (snd (cache_get t1 key VNone c))))"
proof (cases "map_of (cache c) key")
  case None
  then show ?thesis by (simp add: cache_get_def)
next
  case (Some it)
  show ?thesis
  proof (cases "t1 - timestamp it < ttl c")
    case True
    with Some assms(1) have "\<not> truthy (val it)" by (simp add: cache_get_def)
    with Some True show ?thesis by (simp add: cache_get_def)
  next
    case False
    with Some show ?thesis by (simp add: cache_get_def AList.delete_conv')
  qed
qed

lemma cache_set_lookup_room:
  assumes "int (length (cache c)) < maxsize c"
  shows "map_of (cache (cache_set t key v c)) key = Some \<lparr>val = v, timestamp = t\<rparr>"
    and "ttl (cache_set t key v c) = ttl c"
proof -
  have "length (AList.update key \<lparr>val = v, timestamp = t\<rparr> (cache c)) \<le> Suc (length (cache c))"
    by (rule length_update_le)
  with assms have "\<not> int (length (AList.update key \<lparr>val = v, timestamp = t\<rparr> (cache c))) > maxsize c"
    by linarith
  then have "cache_set t key v c = c\<lparr>cache := AList.update key \<lparr>val = v, timestamp = t\<rparr> (cache c)\<rparr>"
    by (simp add: cache_set_def Let_def)
  then show "map_of (cache (cache_set t key v c)) key = Some \<lparr>val = v, timestamp = t\<rparr>"
    by (simp add: AList.update_conv')
  show "ttl (cache_set t key v c) = ttl c" by simp
qed

lemma cache_set_lookup_present:
  assumes "map_of (cache (cache_set t key v c)) key \<noteq> None"
  shows "map_of (cache (cache_set t key v c)) key = Some \<lparr>val = v, timestamp = t\<rparr>"
proof -
  let ?al = "AList.update key \<lparr>val = v, timestamp = t\<rparr> (cache c)"
  have up: "map_of ?al key = Some \<lparr>val = v, timestamp = t\<rparr>"
    by (simp add: AList.update_conv')
  show ?thesis
  proof (cases "int (length ?al) > maxsize c")
    case False
    then have "cache_set t key v c = c\<lparr>cache := ?al\<rparr>"
      by (simp add: cache_set_def Let_def)
    with up show ?thesis by simp
  next
    case True
    then have eq: "cache_set t key v c = cleanup_oldest (c\<lparr>cache := ?al\<rparr>)"
      by (simp add: cache_set_def Let_def)
    show ?thesis
    proof (cases ?al)
      case Nil
      with up show ?thesis by simp
    next
      case (Cons p ps)
      then have c: "cache (cache_set t key v c)
          = AList.delete (fst (py_min (\<lambda>q. timestamp (snd q)) p ps)) ?al"
        unfolding eq by (simp add: cleanup_oldest_def Let_def)
      from assms up show ?thesis unfolding c
        by (simp add: AList.delete_conv' split: if_splits)
    qed
  qed
qed

lemma cache_get_fields [simp]:
  "ttl (snd (cache_get t k d c)) = ttl c" "maxsize (snd (cache_get t k d c)) = maxsize c"
  by (auto simp: cache_get_def split: option.splits)


lemma ask_cache_inv:
  assumes "source (fst (ask e q r)) = Some SrcCache"
  shows "\<exists>key. get_cache_key e q = Inr key
           \<and> truthy (fst (cache_get (clk e (Suc (ticks r))) key VNone (response_cache r)))"
proof (cases "get_cache_key e q")
  case (Inl ex)
  with assms show ?thesis by (simp add: ask_key_error)
next
  case (Inr key)
  show ?thesis
  proof (cases "truthy (fst (cache_get (clk e (Suc (ticks r))) key VNone (response_cache r)))")
    case True
    with Inr show ?thesis by blast
  next
    case False
    from ask_miss [OF Inr False] assms ask_generate_source show ?thesis
      by (metis option.distinct(1) option.inject source.distinct(1))
  qed
qed

lemma ask_direct_inv:
  assumes "source (fst (ask e q r)) = Some SrcDirect"
  shows "\<exists>key a. get_cache_key e q = Inr key
           \<and> \<not> truthy (fst (cache_get (clk e (Suc (ticks r))) key VNone (response_cache r)))
           \<and> a \<noteq> []
           \<and> fst (ask e q r) =
               Result (VStr a) (execution_time (fst (ask e q r)))
                 (calculate_quality_metrics e (VStr a)) (Some SrcDirect)
                 (context_length (fst (ask e q r))) None None
           \<and> response_cache (snd (ask e q r)) =
               (if completeness (calculate_quality_metrics e (VStr a)) \<ge> 1 / 2
                   \<and> relevance (calculate_quality_metrics e (VStr a)) \<ge> 1 / 2
                then cache_set (clk e (ticks r + 5)) key (VStr a)
                       (snd (cache_get (clk e (Suc (ticks r))) key VNone (response_cache r)))
                else snd (cache_get (clk e (Suc (ticks r))) key VNone (response_cache r)))
           \<and> error_count (snd (ask e q r)) = error_count r
           \<and> request_count (snd (ask e q r)) = request_count r + 1
           \<and> ticks r + 2 \<le> ticks (snd (ask e q r))"
proof (cases "get_cache_key e q")
  case (Inl ex)
  with assms show ?thesis by (simp add: ask_key_error)
next
  case (Inr key)
  let ?c0 = "snd (cache_get (clk e (Suc (ticks r))) key VNone (response_cache r))"
  let ?R1 = "tick ((tick (r\<lparr>request_count := request_count r + 1\<rparr>))\<lparr>response_cache := ?c0\<rparr>)"
  show ?thesis
  proof (cases "truthy (fst (cache_get (clk e (Suc (ticks r))) key VNone (response_cache r)))")
    case True
    from ask_hit(1) [OF Inr True] assms show ?thesis by simp
  next
    case False
    have eq: "ask e q r = ask_generate e q key (clk e (ticks r)) ?R1"
      by (rule ask_miss [OF Inr False])
    from ask_generate_source [of e q key "clk e (ticks r)" ?R1] assms eq
    obtain resp a where
      qa: "qa_invoke e (Suc (ticks ?R1)) q (VStr (fst (get_context e q ?R1))) = Inr resp"
      and a: "resp_answer resp = Some a" "a \<noteq> []"
      by auto
    note d = ask_generate_direct [OF qa a, of key "clk e (ticks r)"]
    have t5: "Suc (Suc (Suc (ticks ?R1))) = ticks r + 5" by simp
    have 1: "fst (ask e q r) =
               Result (VStr a) (execution_time (fst (ask e q r)))
                 (calculate_quality_metrics e (VStr a)) (Some SrcDirect)
                 (context_length (fst (ask e q r))) None None"
      unfolding eq d(1) by simp
    have 2: "response_cache (snd (ask e q r)) =
               (if completeness (calculate_quality_metrics e (VStr a)) \<ge> 1 / 2
                   \<and> relevance (calculate_quality_metrics e (VStr a)) \<ge> 1 / 2
                then cache_set (clk e (ticks r + 5)) key (VStr a) ?c0 else ?c0)"
      unfolding eq d(2) t5 by simp
    have 3: "error_count (snd (ask e q r)) = error_count r"
      "request_count (snd (ask e q r)) = request_count r + 1"
      unfolding eq d(3) d(4) by simp_all
    have 4: "ticks r + 2 \<le> ticks (snd (ask e q r))"
      using d(7) unfolding eq by simp
    from Inr False a(2) 1 2 3 4 show ?thesis by blast
  qed
qed


lemma cache_get_fresh:
  "map_of (cache c) k = Some it \<Longrightarrow> t - timestamp it < ttl c \<Longrightarrow> cache_get t k d c = (val it, c)"
  by (simp add: cache_get_def)

text \<open>
  C1, as the code has it: on the synchronous path \<open>ask\<close>, a query that reaches the
  cache write (its result has \<open>source = direct\<close>, so the answer is a non-empty
  string) writes the answer under the question's key exactly when
  \<open>completeness \<ge> 0.5\<close> and \<open>relevance \<ge> 0.5\<close>; otherwise the response cache
  is left as the lookup left it, the answer is returned all the same, and the next
  \<open>ask\<close> of the same question is not served from the cache, whatever the clock
  shows. When the gate holds and the entry is still in the cache (it has not been
  evicted by its own write) and has not expired, the next \<open>ask\<close> of the same
  question returns this answer with \<open>source = cache\<close>; the entry is still in the
  cache whenever the cache had room for it.
\<close>

theorem ask_quality_gate:
  assumes "source (fst (ask e q r)) = Some SrcDirect"
  shows "\<exists>key a.
      get_cache_key e q = Inr key \<and> a \<noteq> [] \<and> answer (fst (ask e q r)) = VStr a
    \<and> quality_metrics (fst (ask e q r)) = calculate_quality_metrics e (VStr a)
    \<and> (1 / 2 \<le> completeness (quality_metrics (fst (ask e q r)))
         \<and> 1 / 2 \<le> relevance (quality_metrics (fst (ask e q r)))
        \<longrightarrow> response_cache (snd (ask e q r)) =
              cache_set (clk e (ticks r + 5)) key (VStr a)
                (snd (cache_get (clk e (Suc (ticks r))) key VNone (response_cache r))))
    \<and> (\<not> (1 / 2 \<le> completeness (quality_metrics (fst (ask e q r)))
            \<and> 1 / 2 \<le> relevance (quality_metrics (fst (ask e q r))))
        \<longrightarrow> response_cache (snd (ask e q r)) =
              snd (cache_get (clk e (Suc (ticks r))) key VNone (response_cache r))
          \<and> source (fst (ask e q (snd (ask e q r)))) \<noteq> Some SrcCache)
    \<and> (1 / 2 \<le> completeness (quality_metrics (fst (ask e q r)))
         \<and> 1 / 2 \<le> relevance (quality_metrics (fst (ask e q r)))
         \<and> map_of (cache (response_cache (snd (ask e q r)))) key \<noteq> None
         \<and> clk e (Suc (ticks (snd (ask e q r)))) - clk e (ticks r + 5) < ttl (response_cache r)
        \<longrightarrow> source (fst (ask e q (snd (ask e q r)))) = Some SrcCache
          \<and> answer (fst (ask e q (snd (ask e q r)))) = VStr a)
    \<and> (1 / 2 \<le> completeness (quality_metrics (fst (ask e q r)))
         \<and> 1 / 2 \<le> relevance (quality_metrics (fst (ask e q r)))
         \<and> int (length (cache (snd (cache_get (clk e (Suc (ticks r))) key VNone
                                      (response_cache r)))))
             < maxsize (response_cache r)
        \<longrightarrow> map_of (cache (response_cache (snd (ask e q r)))) key \<noteq> None)"
proof -
  from ask_direct_inv [OF assms] obtain key a where
    key: "get_cache_key e q = Inr key"
    and miss: "\<not> truthy (fst (cache_get (clk e (Suc (ticks r))) key VNone (response_cache r)))"
    and a: "a \<noteq> []"
    and res: "fst (ask e q r) =
               Result (VStr a) (execution_time (fst (ask e q r)))
                 (calculate_quality_metrics e (VStr a)) (Some SrcDirect)
                 (context_length (fst (ask e q r))) None None"
    and rc: "response_cache (snd (ask e q r)) =
               (if completeness (calculate_quality_metrics e (VStr a)) \<ge> 1 / 2
                   \<and> relevance (calculate_quality_metrics e (VStr a)) \<ge> 1 / 2
                then cache_set (clk e (ticks r + 5)) key (VStr a)
                       (snd (cache_get (clk e (Suc (ticks r))) key VNone (response_cache r)))
                else snd (cache_get (clk e (Suc (ticks r))) key VNone (response_cache r)))"
    by blast
  let ?c0 = "snd (cache_get (clk e (Suc (ticks r))) key VNone (response_cache r))"
  let ?r' = "snd (ask e q r)"
  let ?gate = "1 / 2 \<le> completeness (quality_metrics (fst (ask e q r)))
         \<and> 1 / 2 \<le> relevance (quality_metrics (fst (ask e q r)))"
  have ans: "answer (fst (ask e q r)) = VStr a" by (subst res) simp
  have qm: "quality_metrics (fst (ask e q r)) = calculate_quality_metrics e (VStr a)"
    by (subst res) simp
  have written: "response_cache ?r' = cache_set (clk e (ticks r + 5)) key (VStr a) ?c0"
    if ?gate using that rc qm by simp
  have unwritten: "response_cache ?r' = ?c0" if "\<not> ?gate" using that rc qm by auto
  have no_hit: "source (fst (ask e q ?r')) \<noteq> Some SrcCache" if ng: "\<not> ?gate"
  proof
    assume "source (fst (ask e q ?r')) = Some SrcCache"
    from ask_cache_inv [OF this] key
    have t: "truthy (fst (cache_get (clk e (Suc (ticks ?r'))) key VNone (response_cache ?r')))"
      by auto
    from cache_get_falsy_again [OF miss] t unwritten [OF ng] show False by simp
  qed
  have hit: "source (fst (ask e q ?r')) = Some SrcCache \<and> answer (fst (ask e q ?r')) = VStr a"
    if g: ?gate and present: "map_of (cache (response_cache ?r')) key \<noteq> None"
      and fresh: "clk e (Suc (ticks ?r')) - clk e (ticks r + 5) < ttl (response_cache r)"
  proof -
    from present have "map_of (cache (cache_set (clk e (ticks r + 5)) key (VStr a) ?c0)) key \<noteq> None"
      unfolding written [OF g] .
    note l = cache_set_lookup_present [OF this]
    from fresh have fresh': "clk e (Suc (ticks ?r'))
        - timestamp \<lparr>val = VStr a, timestamp = clk e (ticks r + 5)\<rparr>
        < ttl (cache_set (clk e (ticks r + 5)) key (VStr a) ?c0)"
      by simp
    have "cache_get (clk e (Suc (ticks ?r'))) key VNone (response_cache ?r')
            = (VStr a, response_cache ?r')"
      unfolding written [OF g] using cache_get_fresh [OF l fresh'] by simp
    then have f: "fst (cache_get (clk e (Suc (ticks ?r'))) key VNone (response_cache ?r')) = VStr a"
      by simp
    with a have t: "truthy (fst (cache_get (clk e (Suc (ticks ?r'))) key VNone (response_cache ?r')))"
      by simp
    from ask_hit(1) [OF key t] f show ?thesis by simp
  qed
  have kept: "map_of (cache (response_cache ?r')) key \<noteq> None"
    if g: ?gate and room: "int (length (cache ?c0)) < maxsize (response_cache r)"
  proof -
    from room have room': "int (length (cache ?c0)) < maxsize ?c0" by simp
    from cache_set_lookup_room(1) [OF room', of "clk e (ticks r + 5)" key "VStr a"]
    show ?thesis unfolding written [OF g] by simp
  qed
  from key a ans qm written unwritten no_hit hit kept show ?thesis by blast
qed

subsection \<open>The non-blocking path\<close>

lemma ask_async_error_fields [simp]:
  "source (fst (ask_async_error e st ex r)) = Some SrcError"
  "error (fst (ask_async_error e st ex r)) = Some (str_of_exc e ex)"
  "quality_metrics (fst (ask_async_error e st ex r)) = zero_quality"
  "response_cache (snd (ask_async_error e st ex r)) = response_cache r"
  "embedding_cache (snd (ask_async_error e st ex r)) = embedding_cache r"
  "error_count (snd (ask_async_error e st ex r)) = error_count r + 1"
  "request_count (snd (ask_async_error e st ex r)) = request_count r"
  "cache_hits (snd (ask_async_error e st ex r)) = cache_hits r"
  "ticks (snd (ask_async_error e st ex r)) = Suc (ticks r)"
  by (simp_all add: ask_async_error_def)

lemma ask_async_generate_raise:
  assumes "qa_invoke e (ticks (snd (get_context_async e q r1))) q (fst (get_context_async e q r1)) = Inl ex"
  shows "ask_async_generate e q key st r1 = ask_async_error e st ex (tick (snd (get_context_async e q r1)))"
  using assms by (simp add: ask_async_generate_def split_beta)

lemma ask_async_generate_no_answer:
  assumes "qa_invoke e (ticks (snd (get_context_async e q r1))) q (fst (get_context_async e q r1)) = Inr resp"
    and "resp_answer resp = None"
  shows "ask_async_generate e q key st r1 =
           ask_async_error e st (KeyError (ascii ''answer'')) (tick (snd (get_context_async e q r1)))"
  using assms by (simp add: ask_async_generate_def split_beta Let_def)

lemma ask_async_generate_direct:
  assumes "qa_invoke e (ticks (snd (get_context_async e q r1))) q (fst (get_context_async e q r1)) = Inr resp"
    and "resp_answer resp = Some a"
  shows "fst (ask_async_generate e q key st r1) =
           Result (VStr a) (clk e (Suc (ticks (snd (get_context_async e q r1)))) - st)
             (calculate_quality_metrics e (VStr a)) (Some SrcDirect) None None
             (Some (case resp_source_documents resp of None \<Rightarrow> [] | Some ds \<Rightarrow> ds))"
    and "response_cache (snd (ask_async_generate e q key st r1)) =
           cache_setitem (clk e (Suc (Suc (ticks (snd (get_context_async e q r1)))))) key
             (VDict (fst (ask_async_generate e q key st r1)))
             (response_cache (snd (get_context_async e q r1)))"
    and "error_count (snd (ask_async_generate e q key st r1))
           = error_count (snd (get_context_async e q r1))"
    and "request_count (snd (ask_async_generate e q key st r1))
           = request_count (snd (get_context_async e q r1))"
    and "ticks (snd (ask_async_generate e q key st r1))
           = ticks (snd (get_context_async e q r1)) + 4"
  using assms by (simp_all add: ask_async_generate_def split_beta Let_def)

lemma ask_async_generate_source:
  "source (fst (ask_async_generate e q key st r1)) = Some SrcError
   \<or> (\<exists>resp a. qa_invoke e (ticks (snd (get_context_async e q r1))) q
                   (fst (get_context_async e q r1)) = Inr resp
          \<and> resp_answer resp = Some a
          \<and> source (fst (ask_async_generate e q key st r1)) = Some SrcDirect)"
proof (cases "qa_invoke e (ticks (snd (get_context_async e q r1))) q (fst (get_context_async e q r1))")
  case (Inl ex)
  then show ?thesis by (simp add: ask_async_generate_raise)
next
  case (Inr resp)
  show ?thesis
  proof (cases "resp_answer resp")
    case None
    with Inr show ?thesis by (simp add: ask_async_generate_no_answer)
  next
    case (Some a)
    from ask_async_generate_direct(1) [OF Inr Some]
    have "source (fst (ask_async_generate e q key st r1)) = Some SrcDirect" by simp
    with Inr Some show ?thesis by blast
  qed
qed

lemma ask_async_cached_source:
  "source (fst (ask_async_cached e key st r1)) = Some SrcError
   \<or> source (fst (ask_async_cached e key st r1)) = Some SrcCache"
  by (simp add: ask_async_cached_def split_beta Let_def split: option.splits rval.splits)

lemma ask_async_cached_dict:
  assumes "cache_getitem (clk e (ticks r1)) key (response_cache r1) = (Some (VDict d), rc2)"
  shows "fst (ask_async_cached e key st r1) =
           Result (answer d) (1 / 10) (quality_metrics d) (Some SrcCache)
             (context_length d) (error d) (source_documents d)"
    and "response_cache (snd (ask_async_cached e key st r1)) = rc2"
  using assms by (simp_all add: ask_async_cached_def Let_def)

lemma ask_async_empty:
  assumes "py_strip (isspace e) q = []"
  shows "ask_async e q r =
           (Result (VStr [51656, 47928, 51012, 32, 51077, 47141, 54644, 51452, 49464, 50836, 46])
              0 zero_quality (Some SrcEmpty) None None None, r)"
  using assms by (simp add: ask_async_def)

lemma ask_async_key_error:
  assumes "py_strip (isspace e) q \<noteq> []" and "get_cache_key e q = Inl ex"
  shows "ask_async e q r =
           ask_async_error e (clk e (ticks r)) ex (tick (r\<lparr>request_count := request_count r + 1\<rparr>))"
  using assms by (simp add: ask_async_def Let_def)

lemma ask_async_hit:
  assumes "py_strip (isspace e) q \<noteq> []" and "get_cache_key e q = Inr key"
    and "fst (cache_contains (clk e (Suc (ticks r))) key (response_cache r))"
  shows "ask_async e q r =
           ask_async_cached e key (clk e (ticks r))
             (tick ((tick (r\<lparr>request_count := request_count r + 1\<rparr>))
                \<lparr>response_cache :=
                   snd (cache_contains (clk e (Suc (ticks r))) key (response_cache r))\<rparr>))"
  using assms by (simp add: ask_async_def Let_def split_beta)

lemma ask_async_miss:
  assumes "py_strip (isspace e) q \<noteq> []" and "get_cache_key e q = Inr key"
    and "\<not> fst (cache_contains (clk e (Suc (ticks r))) key (response_cache r))"
  shows "ask_async e q r =
           ask_async_generate e q key (clk e (ticks r))
             (tick ((tick (r\<lparr>request_count := request_count r + 1\<rparr>))
                \<lparr>response_cache :=
                   snd (cache_contains (clk e (Suc (ticks r))) key (response_cache r))\<rparr>))"
  using assms by (simp add: ask_async_def Let_def split_beta)

subsection \<open>Evaluation in the example environment\<close>

lemma completeness_eq:
  "completeness (calculate_quality_metrics e v) =
     py_round2 (real (length (filter (\<lambda>b. b)
        (map (\<lambda>(section, keywords). list_ex (\<lambda>keyword. py_in keyword (scored_text e v)) keywords)
           required_sections))) / real (length required_sections))"
  by (simp add: calculate_quality_metrics_def Let_def)

lemma scored_text_env0 [simp]: "scored_text env0 (VStr s) = s"
  by (simp add: scored_text_def env0_def)

lemma py_round2_two_thirds: "py_round2 (2 / 3) = 67 / 100"
  by (simp add: py_round2_def Let_def)

lemma completeness_hi: "completeness (calculate_quality_metrics env0 (VStr [104, 105])) = 0"
  by (simp add: completeness_eq required_sections_def py_round2_0)

lemma completeness_q2:
  "completeness (calculate_quality_metrics env0 (VStr [51116, 47308, 32, 50836, 47532])) = 67 / 100"
  by (simp add: completeness_eq required_sections_def py_round2_two_thirds)

lemma matched_q2: "matched env0 (VStr [51116, 47308, 32, 50836, 47532]) \<noteq> []"
  by (simp add: matched_def relevance_keywords_def)

lemma relevance_q2:
  "1 / 2 \<le> relevance (calculate_quality_metrics env0 (VStr [51116, 47308, 32, 50836, 47532]))"
  using relevance_dichotomy [of env0 "VStr [51116, 47308, 32, 50836, 47532]"] matched_q2
  by simp

lemma env0_fields [simp]:
  "clk env0 n = real n"
  "isspace env0 ch = (ch = 32 \<or> ch = 10)"
  "md5_hexdigest env0 s = s"
  "similarity_search env0 n q = Inr []"
  "qa_invoke env0 n q c = Inr \<lparr>resp_answer = Some q, resp_source_documents = None\<rparr>"
  by (simp_all add: env0_def)

lemma key_hi: "get_cache_key env0 [104, 105] = Inr [104, 105]"
  by (simp add: get_cache_key_def encodable_def)

lemma key_q2: "get_cache_key env0 [51116, 47308, 32, 50836, 47532] = Inr [51116, 47308, 32, 50836, 47532]"
  by (simp add: get_cache_key_def encodable_def)

lemma rag_init_fields [simp]:
  "response_cache (rag_init m t) = cache_init 5000 7200"
  "embedding_cache (rag_init m t) = cache_init 5000 7200"
  "ticks (rag_init m t) = 0"
  "error_count (rag_init m t) = 0"
  "request_count (rag_init m t) = 0"
  "cache_hits (rag_init m t) = 0"
  by (simp_all add: rag_init_def)

lemma cache_get_init [simp]: "cache_get t k d (cache_init m tt) = (d, cache_init m tt)"
  by (simp add: cache_get_def cache_init_def)

lemma cache_contains_init [simp]: "cache_contains t k (cache_init m tt) = (False, cache_init m tt)"
  by (simp add: cache_contains_def cache_init_def)

lemma ask_generate_env0:
  assumes "q \<noteq> []"
  shows "source (fst (ask_generate env0 q key st r1)) = Some SrcDirect"
    and "answer (fst (ask_generate env0 q key st r1)) = VStr q"
    and "quality_metrics (fst (ask_generate env0 q key st r1))
           = calculate_quality_metrics env0 (VStr q)"
    and "response_cache (snd (ask_generate env0 q key st r1)) =
           (if completeness (calculate_quality_metrics env0 (VStr q)) \<ge> 1 / 2
               \<and> relevance (calculate_quality_metrics env0 (VStr q)) \<ge> 1 / 2
            then cache_set (real (ticks r1 + 3)) key (VStr q) (response_cache r1)
            else response_cache r1)"
    and "ticks (snd (ask_generate env0 q key st r1)) =
           (if completeness (calculate_quality_metrics env0 (VStr q)) \<ge> 1 / 2
               \<and> relevance (calculate_quality_metrics env0 (VStr q)) \<ge> 1 / 2
            then ticks r1 + 5 else ticks r1 + 4)"
proof -
  have qa: "qa_invoke env0 (Suc (ticks r1)) q (VStr (fst (get_context env0 q r1)))
             = Inr \<lparr>resp_answer = Some q, resp_source_documents = None\<rparr>" by simp
  have a: "resp_answer \<lparr>resp_answer = Some q, resp_source_documents = None\<rparr> = Some q" by simp
  note d = ask_generate_direct [OF qa a assms, of key st]
  show "source (fst (ask_generate env0 q key st r1)) = Some SrcDirect" unfolding d(1) by simp
  show "answer (fst (ask_generate env0 q key st r1)) = VStr q" unfolding d(1) by simp
  show "quality_metrics (fst (ask_generate env0 q key st r1))
           = calculate_quality_metrics env0 (VStr q)" unfolding d(1) by simp
  show "response_cache (snd (ask_generate env0 q key st r1)) =
           (if completeness (calculate_quality_metrics env0 (VStr q)) \<ge> 1 / 2
               \<and> relevance (calculate_quality_metrics env0 (VStr q)) \<ge> 1 / 2
            then cache_set (real (ticks r1 + 3)) key (VStr q) (response_cache r1)
            else response_cache r1)" unfolding d(2) by (simp add: add.commute)
  show "ticks (snd (ask_generate env0 q key st r1)) =
           (if completeness (calculate_quality_metrics env0 (VStr q)) \<ge> 1 / 2
               \<and> relevance (calculate_quality_metrics env0 (VStr q)) \<ge> 1 / 2
            then ticks r1 + 5 else ticks r1 + 4)"
    using qa assms by (simp add: ask_generate_def split_beta Let_def)
qed

lemma ask_hi_eq:
  "ask env0 [104, 105] (rag_init 5 0) =
     ask_generate env0 [104, 105] [104, 105] 0
       (tick ((tick ((rag_init 5 0)\<lparr>request_count := request_count (rag_init 5 0) + 1\<rparr>))
          \<lparr>response_cache := cache_init 5000 7200\<rparr>))"
proof -
  have miss: "\<not> truthy (fst (cache_get (clk env0 (Suc (ticks (rag_init 5 0)))) [104, 105] VNone
                (response_cache (rag_init 5 0))))" by simp
  from ask_miss [OF key_hi miss] show ?thesis by simp
qed

lemma ask_hi_direct:
  "source (fst (ask env0 [104, 105] (rag_init 5 0))) = Some SrcDirect"
  "response_cache (snd (ask env0 [104, 105] (rag_init 5 0))) = cache_init 5000 7200"
  unfolding ask_hi_eq by (simp_all add: ask_generate_env0 completeness_hi)

lemma cache_contains_absent:
  "map_of (cache c) k = None \<Longrightarrow> cache_contains t k c = (False, c)"
  by (simp add: cache_contains_def)

lemma get_context_async_env0_absent:
  assumes "encodable q" and "map_of (cache (response_cache r)) (ascii ''context_'' @ q) = None"
  shows "get_context_async env0 q r =
           (VStr [], tick ((tick (tick r))\<lparr>response_cache :=
              cache_setitem (real (Suc (Suc (ticks r)))) (ascii ''context_'' @ q) (VStr [])
                (response_cache r)\<rparr>))"
  using assms
  by (simp add: get_context_async_def get_cache_key_def cache_contains_absent Let_def
      truncate_context_def)

lemma strip_hi: "py_strip (isspace env0) [104, 105] \<noteq> []"
  by (simp add: py_strip_def)

lemma ascii_context: "ascii ''context_'' = [99, 111, 110, 116, 101, 120, 116, 95]"
  by (simp add: ascii_def)

lemma ask_async_hi_eq:
  "ask_async env0 [104, 105] (rag_init 5 0) =
     ask_async_generate env0 [104, 105] [104, 105] 0
       (tick ((tick ((rag_init 5 0)\<lparr>request_count := request_count (rag_init 5 0) + 1\<rparr>))
          \<lparr>response_cache := cache_init 5000 7200\<rparr>))"
proof -
  have miss: "\<not> fst (cache_contains (clk env0 (Suc (ticks (rag_init 5 0)))) [104, 105]
                (response_cache (rag_init 5 0)))" by simp
  from ask_async_miss [OF strip_hi key_hi miss] show ?thesis by simp
qed

lemma quality_hi_gate:
  "\<not> (1 / 2 \<le> completeness (calculate_quality_metrics env0 (VStr [104, 105]))
      \<and> 1 / 2 \<le> relevance (calculate_quality_metrics env0 (VStr [104, 105])))"
  by (simp add: completeness_hi)

lemma ask_async_hi_result:
  "fst (ask_async env0 [104, 105] (rag_init 5 0)) =
     Result (VStr [104, 105]) 6 (calculate_quality_metrics env0 (VStr [104, 105]))
       (Some SrcDirect) None None (Some [])"
  unfolding ask_async_hi_eq
  by (subst ask_async_generate_direct(1) [where a = "[104, 105]"
        and resp = "\<lparr>resp_answer = Some [104, 105], resp_source_documents = None\<rparr>"])
     (simp_all add: get_context_async_env0_absent encodable_def cache_init_def)

lemma ask_async_hi_cache:
  "response_cache (snd (ask_async env0 [104, 105] (rag_init 5 0))) =
     \<lparr>cache = [(ascii ''context_'' @ [104, 105], \<lparr>val = VStr [], timestamp = 4\<rparr>),
               ([104, 105], \<lparr>val = VDict (fst (ask_async env0 [104, 105] (rag_init 5 0))),
                            timestamp = 7\<rparr>)],
      maxsize = 5000, ttl = 7200\<rparr>"
proof -
  have qa: "qa_invoke env0
      (ticks (snd (get_context_async env0 [104, 105]
         (tick ((tick ((rag_init 5 0)\<lparr>request_count := request_count (rag_init 5 0) + 1\<rparr>))
          \<lparr>response_cache := cache_init 5000 7200\<rparr>))))) [104, 105]
      (fst (get_context_async env0 [104, 105]
         (tick ((tick ((rag_init 5 0)\<lparr>request_count := request_count (rag_init 5 0) + 1\<rparr>))
          \<lparr>response_cache := cache_init 5000 7200\<rparr>))))
      = Inr \<lparr>resp_answer = Some [104, 105], resp_source_documents = None\<rparr>" by simp
  have a: "resp_answer \<lparr>resp_answer = Some [104, 105], resp_source_documents = None\<rparr>
             = Some [104, 105]" by simp
  note d = ask_async_generate_direct(2) [OF qa a, of "[104, 105]" 0]
  show ?thesis
    unfolding ask_async_hi_eq d
    by (simp add: get_context_async_env0_absent encodable_def cache_setitem_def cache_init_def
        ascii_context Let_def)
qed


lemma ask_async_hi_ticks: "ticks (snd (ask_async env0 [104, 105] (rag_init 5 0))) = 9"
proof -
  have qa: "qa_invoke env0
      (ticks (snd (get_context_async env0 [104, 105]
         (tick ((tick ((rag_init 5 0)\<lparr>request_count := request_count (rag_init 5 0) + 1\<rparr>))
          \<lparr>response_cache := cache_init 5000 7200\<rparr>))))) [104, 105]
      (fst (get_context_async env0 [104, 105]
         (tick ((tick ((rag_init 5 0)\<lparr>request_count := request_count (rag_init 5 0) + 1\<rparr>))
          \<lparr>response_cache := cache_init 5000 7200\<rparr>))))
      = Inr \<lparr>resp_answer = Some [104, 105], resp_source_documents = None\<rparr>" by simp
  have a: "resp_answer \<lparr>resp_answer = Some [104, 105], resp_source_documents = None\<rparr>
             = Some [104, 105]" by simp
  note d = ask_async_generate_direct(5) [OF qa a, of "[104, 105]" 0]
  show ?thesis
    unfolding ask_async_hi_eq d
    by (simp add: get_context_async_env0_absent encodable_def cache_init_def)
qed

lemma ask_async_hi_again:
  "source (fst (ask_async env0 [104, 105] (snd (ask_async env0 [104, 105] (rag_init 5 0)))))
     = Some SrcCache"
  "answer (fst (ask_async env0 [104, 105] (snd (ask_async env0 [104, 105] (rag_init 5 0)))))
     = VStr [104, 105]"
proof -
  let ?r = "snd (ask_async env0 [104, 105] (rag_init 5 0))"
  let ?d = "fst (ask_async env0 [104, 105] (rag_init 5 0))"
  have hit: "fst (cache_contains (clk env0 (Suc (ticks ?r))) [104, 105] (response_cache ?r))"
    by (simp add: ask_async_hi_cache ask_async_hi_ticks cache_contains_def ascii_context)
  have unchanged: "snd (cache_contains (clk env0 (Suc (ticks ?r))) [104, 105] (response_cache ?r))
      = response_cache ?r"
    by (simp add: ask_async_hi_cache ask_async_hi_ticks cache_contains_def ascii_context)
  note eq = ask_async_hit [OF strip_hi key_hi hit]
  have gi: "cache_getitem
      (clk env0 (ticks (tick ((tick (?r\<lparr>request_count := request_count ?r + 1\<rparr>))
                \<lparr>response_cache :=
                   snd (cache_contains (clk env0 (Suc (ticks ?r))) [104, 105] (response_cache ?r))\<rparr>))))
      [104, 105]
      (response_cache (tick ((tick (?r\<lparr>request_count := request_count ?r + 1\<rparr>))
                \<lparr>response_cache :=
                   snd (cache_contains (clk env0 (Suc (ticks ?r))) [104, 105] (response_cache ?r))\<rparr>)))
      = (Some (VDict ?d), response_cache ?r)"
    unfolding unchanged
    by (simp add: ask_async_hi_ticks) (simp add: ask_async_hi_cache cache_getitem_def ascii_context)
  from ask_async_cached_dict(1) [OF gi, of "clk env0 (ticks ?r)"]
  show "source (fst (ask_async env0 [104, 105] ?r)) = Some SrcCache"
    unfolding eq by simp
  from ask_async_cached_dict(1) [OF gi, of "clk env0 (ticks ?r)"]
  show "answer (fst (ask_async env0 [104, 105] ?r)) = VStr [104, 105]"
    unfolding eq by (simp add: ask_async_hi_result)
qed

text \<open>
  C1 as stated fails on \<open>ask_async\<close>: the answer \<open>hi\<close> scores completeness 0,
  is written to the response cache, and the next call returns it with
  \<open>source = cache\<close>.
\<close>

theorem async_caches_below_gate:
  "source (fst (ask_async env0 [104, 105] (rag_init 5 0))) = Some SrcDirect
   \<and> \<not> (1 / 2 \<le> completeness (quality_metrics (fst (ask_async env0 [104, 105] (rag_init 5 0))))
        \<and> 1 / 2 \<le> relevance (quality_metrics (fst (ask_async env0 [104, 105] (rag_init 5 0)))))
   \<and> map_of (cache (response_cache (snd (ask_async env0 [104, 105] (rag_init 5 0))))) [104, 105]
       = Some \<lparr>val = VDict (fst (ask_async env0 [104, 105] (rag_init 5 0))), timestamp = 7\<rparr>
   \<and> source (fst (ask_async env0 [104, 105] (snd (ask_async env0 [104, 105] (rag_init 5 0)))))
       = Some SrcCache"
  by (simp add: ask_async_hi_again ask_async_hi_cache ascii_context)
     (simp add: ask_async_hi_result completeness_hi)

lemma ask_env0_fresh:
  assumes "encodable q"
  shows "ask env0 q (rag_init m t) =
     ask_generate env0 q q 0
       (tick ((tick ((rag_init m t)\<lparr>request_count := request_count (rag_init m t) + 1\<rparr>))
          \<lparr>response_cache := cache_init 5000 7200\<rparr>))"
proof -
  have key: "get_cache_key env0 q = Inr q" using assms by (simp add: get_cache_key_def)
  have miss: "\<not> truthy (fst (cache_get (clk env0 (Suc (ticks (rag_init m t)))) q VNone
                (response_cache (rag_init m t))))" by simp
  from ask_miss [OF key miss] show ?thesis by simp
qed

theorem ask_quality_gate_witness:
  "source (fst (ask env0 [104, 105] (rag_init 5 0))) = Some SrcDirect
   \<and> \<not> (1 / 2 \<le> completeness (quality_metrics (fst (ask env0 [104, 105] (rag_init 5 0))))
        \<and> 1 / 2 \<le> relevance (quality_metrics (fst (ask env0 [104, 105] (rag_init 5 0)))))
   \<and> source (fst (ask env0 [104, 105] (snd (ask env0 [104, 105] (rag_init 5 0)))))
        \<noteq> Some SrcCache
   \<and> source (fst (ask env0 [51116, 47308, 32, 50836, 47532] (rag_init 5 0))) = Some SrcDirect
   \<and> 1 / 2 \<le> completeness (quality_metrics
                   (fst (ask env0 [51116, 47308, 32, 50836, 47532] (rag_init 5 0))))
   \<and> 1 / 2 \<le> relevance (quality_metrics
                   (fst (ask env0 [51116, 47308, 32, 50836, 47532] (rag_init 5 0))))
   \<and> source (fst (ask env0 [51116, 47308, 32, 50836, 47532]
                (snd (ask env0 [51116, 47308, 32, 50836, 47532] (rag_init 5 0)))))
        = Some SrcCache"
proof -
  let ?hi = "[104, 105] :: pystr"
  let ?q2 = "[51116, 47308, 32, 50836, 47532] :: pystr"
  let ?r0 = "rag_init 5 0"
  have e1: "encodable ?hi" and e2: "encodable ?q2" by (simp_all add: encodable_def)
  have d1: "source (fst (ask env0 ?hi ?r0)) = Some SrcDirect"
    unfolding ask_env0_fresh [OF e1] by (simp add: ask_generate_env0)
  have q1: "quality_metrics (fst (ask env0 ?hi ?r0)) = calculate_quality_metrics env0 (VStr ?hi)"
    unfolding ask_env0_fresh [OF e1] by (simp add: ask_generate_env0)
  have g1: "\<not> (1 / 2 \<le> completeness (quality_metrics (fst (ask env0 ?hi ?r0)))
        \<and> 1 / 2 \<le> relevance (quality_metrics (fst (ask env0 ?hi ?r0))))"
    unfolding q1 by (simp add: completeness_hi)
  from ask_quality_gate [OF d1] g1
  have n1: "source (fst (ask env0 ?hi (snd (ask env0 ?hi ?r0)))) \<noteq> Some SrcCache"
    by blast
  have d2: "source (fst (ask env0 ?q2 ?r0)) = Some SrcDirect"
    unfolding ask_env0_fresh [OF e2] by (simp add: ask_generate_env0)
  have q2: "quality_metrics (fst (ask env0 ?q2 ?r0)) = calculate_quality_metrics env0 (VStr ?q2)"
    unfolding ask_env0_fresh [OF e2] by (simp add: ask_generate_env0)
  have g2: "1 / 2 \<le> completeness (quality_metrics (fst (ask env0 ?q2 ?r0)))"
      "1 / 2 \<le> relevance (quality_metrics (fst (ask env0 ?q2 ?r0)))"
    unfolding q2 using relevance_q2 by (simp_all add: completeness_q2)
  have tk: "ticks (snd (ask env0 ?q2 ?r0)) = 7"
    unfolding ask_env0_fresh [OF e2] using g2 [unfolded q2]
    by (simp add: ask_generate_env0)
  have room: "int (length (cache (snd (cache_get (clk env0 (Suc (ticks ?r0))) key VNone
                 (response_cache ?r0))))) < maxsize (response_cache ?r0)" for key
    by simp (simp add: cache_init_def)
  have fresh: "clk env0 (Suc (ticks (snd (ask env0 ?q2 ?r0)))) - clk env0 (ticks ?r0 + 5)
                 < ttl (response_cache ?r0)"
    by (simp add: tk cache_init_def)
  from ask_quality_gate [OF d2] g2 room fresh
  have h2: "source (fst (ask env0 ?q2 (snd (ask env0 ?q2 ?r0)))) = Some SrcCache"
    by blast
  from d1 g1 n1 d2 g2 h2 show ?thesis by blast
qed

subsection \<open>Cache writes of the two paths\<close>

lemma ask_async_direct_inv:
  assumes "source (fst (ask_async e q r)) = Some SrcDirect"
  shows "\<exists>key. get_cache_key e q = Inr key
      \<and> response_cache (snd (ask_async e q r)) =
          cache_setitem
            (clk e (ticks (snd (get_context_async e q
               (tick ((tick (r\<lparr>request_count := request_count r + 1\<rparr>))
                  \<lparr>response_cache :=
                     snd (cache_contains (clk e (Suc (ticks r))) key (response_cache r))\<rparr>)))) + 2))
            key (VDict (fst (ask_async e q r)))
            (response_cache (snd (get_context_async e q
               (tick ((tick (r\<lparr>request_count := request_count r + 1\<rparr>))
                  \<lparr>response_cache :=
                     snd (cache_contains (clk e (Suc (ticks r))) key (response_cache r))\<rparr>)))))"
proof (cases "py_strip (isspace e) q = []")
  case True
  with assms show ?thesis by (simp add: ask_async_empty)
next
  case ne: False
  show ?thesis
  proof (cases "get_cache_key e q")
    case (Inl ex)
    with assms ne show ?thesis by (simp add: ask_async_key_error)
  next
    case (Inr key)
    let ?R1 = "tick ((tick (r\<lparr>request_count := request_count r + 1\<rparr>))
                  \<lparr>response_cache :=
                     snd (cache_contains (clk e (Suc (ticks r))) key (response_cache r))\<rparr>)"
    show ?thesis
    proof (cases "fst (cache_contains (clk e (Suc (ticks r))) key (response_cache r))")
      case True
      from ask_async_hit [OF ne Inr True] assms
        ask_async_cached_source [of e key "clk e (ticks r)" ?R1]
      show ?thesis by auto
    next
      case False
      have eq: "ask_async e q r = ask_async_generate e q key (clk e (ticks r)) ?R1"
        by (rule ask_async_miss [OF ne Inr False])
      from ask_async_generate_source [of e q key "clk e (ticks r)" ?R1] assms eq
      obtain resp a where
        qa: "qa_invoke e (ticks (snd (get_context_async e q ?R1))) q
               (fst (get_context_async e q ?R1)) = Inr resp"
        and a: "resp_answer resp = Some a"
        by auto
      have "response_cache (snd (ask_async e q r)) =
          cache_setitem (clk e (ticks (snd (get_context_async e q ?R1)) + 2))
            key (VDict (fst (ask_async e q r)))
            (response_cache (snd (get_context_async e q ?R1)))"
        unfolding eq using ask_async_generate_direct(2) [OF qa a, of key "clk e (ticks r)"]
        by simp
      with Inr show ?thesis by blast
    qed
  qed
qed

text \<open>
  C2, as the code has it: the synchronous path \<open>ask\<close> writes a generated answer
  only behind the quality gate, and the non-blocking path \<open>ask_async\<close> writes every
  generated result (the whole result dict) under the question's key, whatever its scores.
\<close>

theorem cache_write_by_path:
  "(source (fst (ask e q r)) = Some SrcDirect \<longrightarrow>
      (\<exists>key a. get_cache_key e q = Inr key \<and> a \<noteq> [] \<and> answer (fst (ask e q r)) = VStr a
         \<and> response_cache (snd (ask e q r)) =
             (if 1 / 2 \<le> completeness (quality_metrics (fst (ask e q r)))
                 \<and> 1 / 2 \<le> relevance (quality_metrics (fst (ask e q r)))
              then cache_set (clk e (ticks r + 5)) key (VStr a)
                     (snd (cache_get (clk e (Suc (ticks r))) key VNone (response_cache r)))
              else snd (cache_get (clk e (Suc (ticks r))) key VNone (response_cache r)))))
   \<and> (source (fst (ask_async e q r)) = Some SrcDirect \<longrightarrow>
      (\<exists>key. get_cache_key e q = Inr key
         \<and> response_cache (snd (ask_async e q r)) =
             cache_setitem
               (clk e (ticks (snd (get_context_async e q
                  (tick ((tick (r\<lparr>request_count := request_count r + 1\<rparr>))
                     \<lparr>response_cache :=
                        snd (cache_contains (clk e (Suc (ticks r))) key (response_cache r))\<rparr>)))) + 2))
               key (VDict (fst (ask_async e q r)))
               (response_cache (snd (get_context_async e q
                  (tick ((tick (r\<lparr>request_count := request_count r + 1\<rparr>))
                     \<lparr>response_cache :=
                        snd (cache_contains (clk e (Suc (ticks r))) key (response_cache r))\<rparr>)))))))"
proof (intro conjI impI)
  assume d: "source (fst (ask e q r)) = Some SrcDirect"
  from ask_direct_inv [OF d] obtain key a where
    key: "get_cache_key e q = Inr key" and a: "a \<noteq> []"
    and res: "fst (ask e q r) =
               Result (VStr a) (execution_time (fst (ask e q r)))
                 (calculate_quality_metrics e (VStr a)) (Some SrcDirect)
                 (context_length (fst (ask e q r))) None None"
    and rc: "response_cache (snd (ask e q r)) =
               (if completeness (calculate_quality_metrics e (VStr a)) \<ge> 1 / 2
                   \<and> relevance (calculate_quality_metrics e (VStr a)) \<ge> 1 / 2
                then cache_set (clk e (ticks r + 5)) key (VStr a)
                       (snd (cache_get (clk e (Suc (ticks r))) key VNone (response_cache r)))
                else snd (cache_get (clk e (Suc (ticks r))) key VNone (response_cache r)))"
    by blast
  have ans: "answer (fst (ask e q r)) = VStr a" by (subst res) simp
  have qm: "quality_metrics (fst (ask e q r)) = calculate_quality_metrics e (VStr a)"
    by (subst res) simp
  from key a ans rc
  show "\<exists>key a. get_cache_key e q = Inr key \<and> a \<noteq> [] \<and> answer (fst (ask e q r)) = VStr a
         \<and> response_cache (snd (ask e q r)) =
             (if 1 / 2 \<le> completeness (quality_metrics (fst (ask e q r)))
                 \<and> 1 / 2 \<le> relevance (quality_metrics (fst (ask e q r)))
              then cache_set (clk e (ticks r + 5)) key (VStr a)
                     (snd (cache_get (clk e (Suc (ticks r))) key VNone (response_cache r)))
              else snd (cache_get (clk e (Suc (ticks r))) key VNone (response_cache r)))"
    unfolding qm by blast
next
  assume "source (fst (ask_async e q r)) = Some SrcDirect"
  then show "\<exists>key. get_cache_key e q = Inr key
         \<and> response_cache (snd (ask_async e q r)) =
             cache_setitem
               (clk e (ticks (snd (get_context_async e q
                  (tick ((tick (r\<lparr>request_count := request_count r + 1\<rparr>))
                     \<lparr>response_cache :=
                        snd (cache_contains (clk e (Suc (ticks r))) key (response_cache r))\<rparr>)))) + 2))
               key (VDict (fst (ask_async e q r)))
               (response_cache (snd (get_context_async e q
                  (tick ((tick (r\<lparr>request_count := request_count r + 1\<rparr>))
                     \<lparr>response_cache :=
                        snd (cache_contains (clk e (Suc (ticks r))) key (response_cache r))\<rparr>)))))"
    by (rule ask_async_direct_inv)
qed

text \<open>
  C2 as stated fails: \<open>ask\<close> generates the answer \<open>hi\<close>, returns it and leaves
  the response cache empty, while \<open>ask_async\<close> caches the same answer although its
  completeness is 0.
\<close>

theorem sync_write_is_gated:
  "source (fst (ask env0 [104, 105] (rag_init 5 0))) = Some SrcDirect
   \<and> answer (fst (ask env0 [104, 105] (rag_init 5 0))) = VStr [104, 105]
   \<and> cache (response_cache (snd (ask env0 [104, 105] (rag_init 5 0)))) = []
   \<and> completeness (quality_metrics (fst (ask_async env0 [104, 105] (rag_init 5 0)))) = 0
   \<and> map_of (cache (response_cache (snd (ask_async env0 [104, 105] (rag_init 5 0))))) [104, 105]
       \<noteq> None"
proof -
  have e1: "encodable [104, 105]" by (simp add: encodable_def)
  have 1: "source (fst (ask env0 [104, 105] (rag_init 5 0))) = Some SrcDirect"
    "answer (fst (ask env0 [104, 105] (rag_init 5 0))) = VStr [104, 105]"
    unfolding ask_env0_fresh [OF e1] by (simp_all add: ask_generate_env0)
  have 2: "cache (response_cache (snd (ask env0 [104, 105] (rag_init 5 0)))) = []"
    unfolding ask_env0_fresh [OF e1] by (simp add: ask_generate_env0 completeness_hi cache_init_def)
  have 3: "completeness (quality_metrics (fst (ask_async env0 [104, 105] (rag_init 5 0)))) = 0"
    by (simp add: ask_async_hi_result completeness_hi)
  have 4: "map_of (cache (response_cache (snd (ask_async env0 [104, 105] (rag_init 5 0)))))
            [104, 105] \<noteq> None"
    by (simp add: ask_async_hi_cache ascii_context)
  from 1 2 3 4 show ?thesis by blast
qed


theorem cache_write_by_path_witness:
  "source (fst (ask env0 [51116, 47308, 32, 50836, 47532] (rag_init 5 0))) = Some SrcDirect
   \<and> (\<exists>a. response_cache (snd (ask env0 [51116, 47308, 32, 50836, 47532] (rag_init 5 0)))
           = cache_set 5 [51116, 47308, 32, 50836, 47532] (VStr a) (cache_init 5000 7200))
   \<and> source (fst (ask_async env0 [104, 105] (rag_init 5 0))) = Some SrcDirect
   \<and> (\<exists>t c1. response_cache (snd (ask_async env0 [104, 105] (rag_init 5 0)))
           = cache_setitem t [104, 105] (VDict (fst (ask_async env0 [104, 105] (rag_init 5 0)))) c1)"
proof -
  let ?hi = "[104, 105] :: pystr"
  let ?q2 = "[51116, 47308, 32, 50836, 47532] :: pystr"
  let ?r0 = "rag_init 5 0"
  have e2: "encodable ?q2" by (simp add: encodable_def)
  have d2: "source (fst (ask env0 ?q2 ?r0)) = Some SrcDirect"
    unfolding ask_env0_fresh [OF e2] by (simp add: ask_generate_env0)
  have q2: "quality_metrics (fst (ask env0 ?q2 ?r0)) = calculate_quality_metrics env0 (VStr ?q2)"
    unfolding ask_env0_fresh [OF e2] by (simp add: ask_generate_env0)
  have g2: "1 / 2 \<le> completeness (quality_metrics (fst (ask env0 ?q2 ?r0)))
      \<and> 1 / 2 \<le> relevance (quality_metrics (fst (ask env0 ?q2 ?r0)))"
    unfolding q2 using relevance_q2 by (simp add: completeness_q2)
  have d1: "source (fst (ask_async env0 ?hi ?r0)) = Some SrcDirect"
    by (simp add: ask_async_hi_result)
  note T2 = cache_write_by_path [of env0 ?q2 ?r0]
  note T1 = cache_write_by_path [of env0 ?hi ?r0]
  from T2 d2 obtain key a where
    k: "get_cache_key env0 ?q2 = Inr key"
    and rc: "response_cache (snd (ask env0 ?q2 ?r0)) =
             (if 1 / 2 \<le> completeness (quality_metrics (fst (ask env0 ?q2 ?r0)))
                 \<and> 1 / 2 \<le> relevance (quality_metrics (fst (ask env0 ?q2 ?r0)))
              then cache_set (clk env0 (ticks ?r0 + 5)) key (VStr a)
                     (snd (cache_get (clk env0 (Suc (ticks ?r0))) key VNone (response_cache ?r0)))
              else snd (cache_get (clk env0 (Suc (ticks ?r0))) key VNone (response_cache ?r0)))"
    by blast
  from k key_q2 have key: "key = ?q2" by simp
  from rc g2 have "response_cache (snd (ask env0 ?q2 ?r0))
      = cache_set 5 ?q2 (VStr a) (cache_init 5000 7200)"
    unfolding key by simp
  then have w2: "\<exists>a. response_cache (snd (ask env0 ?q2 ?r0))
      = cache_set 5 ?q2 (VStr a) (cache_init 5000 7200)" by blast
  from T1 d1 obtain key1 where
    k1: "get_cache_key env0 ?hi = Inr key1"
    and rc1: "\<exists>t c1. response_cache (snd (ask_async env0 ?hi ?r0)) =
             cache_setitem t key1 (VDict (fst (ask_async env0 ?hi ?r0))) c1"
    by blast
  from k1 key_hi have "key1 = ?hi" by simp
  with rc1 have w1: "\<exists>t c1. response_cache (snd (ask_async env0 ?hi ?r0)) =
             cache_setitem t ?hi (VDict (fst (ask_async env0 ?hi ?r0))) c1" by simp
  from d2 w2 d1 w1 show ?thesis by blast
qed

subsection \<open>The empty question\<close>

lemma py_strip_empty_iff: "py_strip sp s = [] \<longleftrightarrow> (\<forall>c \<in> set s. sp c)"
proof
  assume "py_strip sp s = []"
  then have "dropWhile sp (rev (dropWhile sp s)) = []" by (simp add: py_strip_def)
  then have "\<forall>c \<in> set (rev (dropWhile sp s)). sp c" by (simp add: dropWhile_eq_Nil_conv)
  then have "\<forall>c \<in> set (dropWhile sp s). sp c" by simp
  moreover have "dropWhile sp s \<noteq> [] \<Longrightarrow> \<not> sp (hd (dropWhile sp s))"
    by (rule hd_dropWhile)
  ultimately have "dropWhile sp s = []" by (cases "dropWhile sp s") auto
  then show "\<forall>c \<in> set s. sp c" by (simp add: dropWhile_eq_Nil_conv)
next
  assume "\<forall>c \<in> set s. sp c"
  then have d: "dropWhile sp s = []" by (simp add: dropWhile_eq_Nil_conv)
  show "py_strip sp s = []" unfolding py_strip_def d by simp
qed

lemma ask_async_source_empty_iff:
  "source (fst (ask_async e q r)) = Some SrcEmpty \<longleftrightarrow> py_strip (isspace e) q = []"
proof (cases "py_strip (isspace e) q = []")
  case True
  then show ?thesis by (simp add: ask_async_empty)
next
  case ne: False
  show ?thesis
  proof (cases "get_cache_key e q")
    case (Inl ex)
    with ne show ?thesis by (simp add: ask_async_key_error)
  next
    case (Inr key)
    let ?R1 = "tick ((tick (r\<lparr>request_count := request_count r + 1\<rparr>))
                  \<lparr>response_cache :=
                     snd (cache_contains (clk e (Suc (ticks r))) key (response_cache r))\<rparr>)"
    show ?thesis
    proof (cases "fst (cache_contains (clk e (Suc (ticks r))) key (response_cache r))")
      case True
      from ask_async_hit [OF ne Inr True]
        ask_async_cached_source [of e key "clk e (ticks r)" ?R1] ne
      show ?thesis by auto
    next
      case False
      from ask_async_miss [OF ne Inr False]
        ask_async_generate_source [of e q key "clk e (ticks r)" ?R1] ne
      show ?thesis by auto
    qed
  qed
qed

text \<open>
  C8, as the code has it: \<open>ask_async\<close> returns \<open>source = empty\<close> exactly for a
  question that is empty or all whitespace, and then returns the engine as it was: no
  cache is read, no collaborator and not even the clock is called (\<open>ticks\<close> is the
  same), and neither \<open>request_count\<close> nor \<open>error_count\<close> changes.
\<close>

theorem ask_async_empty_question:
  "(source (fst (ask_async e q r)) = Some SrcEmpty \<longleftrightarrow> (\<forall>c \<in> set q. isspace e c))
   \<and> ((\<forall>c \<in> set q. isspace e c) \<longrightarrow>
        snd (ask_async e q r) = r
      \<and> quality_metrics (fst (ask_async e q r)) = zero_quality
      \<and> error (fst (ask_async e q r)) = None)"
  by (simp add: ask_async_source_empty_iff py_strip_empty_iff)
     (simp add: ask_async_empty py_strip_empty_iff)

subsection \<open>Errors\<close>

lemma ask_generate_cases:
  "(source (fst (ask_generate e q key st r1)) = None
      \<and> error (fst (ask_generate e q key st r1)) \<noteq> None
      \<and> quality_metrics (fst (ask_generate e q key st r1)) = zero_quality
      \<and> error_count (snd (ask_generate e q key st r1)) = error_count r1 + 1)
   \<or> (source (fst (ask_generate e q key st r1)) = Some SrcDirect
      \<and> error (fst (ask_generate e q key st r1)) = None
      \<and> error_count (snd (ask_generate e q key st r1)) = error_count r1)"
proof (cases "qa_invoke e (Suc (ticks r1)) q (VStr (fst (get_context e q r1)))")
  case (Inl ex)
  then show ?thesis by (simp add: ask_generate_raise)
next
  case (Inr resp)
  show ?thesis
  proof (cases "resp_answer resp = None \<or> resp_answer resp = Some []")
    case True
    with Inr show ?thesis by (simp add: ask_generate_empty)
  next
    case False
    then obtain a where a: "resp_answer resp = Some a" "a \<noteq> []" by auto
    note d = ask_generate_direct [OF Inr a, of key st]
    have "source (fst (ask_generate e q key st r1)) = Some SrcDirect"
      "error (fst (ask_generate e q key st r1)) = None"
      unfolding d(1) by simp_all
    with d(3) show ?thesis by simp
  qed
qed

lemma ask_cases:
  "(source (fst (ask e q r)) = None
      \<and> error (fst (ask e q r)) \<noteq> None
      \<and> quality_metrics (fst (ask e q r)) = zero_quality
      \<and> error_count (snd (ask e q r)) = error_count r + 1)
   \<or> ((source (fst (ask e q r)) = Some SrcDirect \<or> source (fst (ask e q r)) = Some SrcCache)
      \<and> error (fst (ask e q r)) = None
      \<and> error_count (snd (ask e q r)) = error_count r)"
proof (cases "get_cache_key e q")
  case (Inl ex)
  then show ?thesis by (simp add: ask_key_error)
next
  case (Inr key)
  show ?thesis
  proof (cases "truthy (fst (cache_get (clk e (Suc (ticks r))) key VNone (response_cache r)))")
    case True
    note h = ask_hit [OF Inr True]
    have "source (fst (ask e q r)) = Some SrcCache" "error (fst (ask e q r)) = None"
      unfolding h(1) by simp_all
    with h(3) show ?thesis by simp
  next
    case False
    let ?R1 = "tick ((tick (r\<lparr>request_count := request_count r + 1\<rparr>))
                \<lparr>response_cache :=
                   snd (cache_get (clk e (Suc (ticks r))) key VNone (response_cache r))\<rparr>)"
    have ec: "error_count ?R1 = error_count r" by simp
    from ask_generate_cases [of e q key "clk e (ticks r)" ?R1]
    show ?thesis unfolding ask_miss [OF Inr False] ec by blast
  qed
qed

lemma ask_generation_fails:
  assumes "get_cache_key e q = Inr key"
    and "\<not> truthy (fst (cache_get (clk e (Suc (ticks r))) key VNone (response_cache r)))"
    and "qa_invoke e (ticks r + 3) q (VStr (search_context e (ticks r + 2) q)) = Inl ex"
  shows "error (fst (ask e q r)) = Some (str_of_exc e ex)"
proof -
  let ?R1 = "tick ((tick (r\<lparr>request_count := request_count r + 1\<rparr>))
                \<lparr>response_cache :=
                   snd (cache_get (clk e (Suc (ticks r))) key VNone (response_cache r))\<rparr>)"
  have "qa_invoke e (Suc (ticks ?R1)) q (VStr (fst (get_context e q ?R1))) = Inl ex"
    using assms(3) by (simp add: numeral_3_eq_3)
  from ask_generate_raise [OF this]
  show ?thesis unfolding ask_miss [OF assms(1,2)] by simp
qed

lemma ask_async_generate_error:
  assumes "source (fst (ask_async_generate e q key st r1)) = Some SrcError"
  shows "quality_metrics (fst (ask_async_generate e q key st r1)) = zero_quality
       \<and> error (fst (ask_async_generate e q key st r1)) \<noteq> None
       \<and> error_count (snd (ask_async_generate e q key st r1))
           = error_count (snd (get_context_async e q r1)) + 1"
proof (cases "qa_invoke e (ticks (snd (get_context_async e q r1))) q (fst (get_context_async e q r1))")
  case (Inl ex)
  then show ?thesis by (simp add: ask_async_generate_raise)
next
  case (Inr resp)
  show ?thesis
  proof (cases "resp_answer resp")
    case None
    with Inr show ?thesis by (simp add: ask_async_generate_no_answer)
  next
    case (Some a)
    from ask_async_generate_direct(1) [OF Inr Some, of key st] assms show ?thesis by simp
  qed
qed

lemma ask_async_cached_error:
  assumes "source (fst (ask_async_cached e key st r1)) = Some SrcError"
  shows "quality_metrics (fst (ask_async_cached e key st r1)) = zero_quality
       \<and> error (fst (ask_async_cached e key st r1)) \<noteq> None
       \<and> error_count (snd (ask_async_cached e key st r1)) = error_count r1 + 1"
  using assms
  by (auto simp: ask_async_cached_def split_beta Let_def split: option.splits rval.splits)

lemma check_relevance_frame [simp]:
  "response_cache (snd (check_relevance e c q r)) = response_cache r"
  "error_count (snd (check_relevance e c q r)) = error_count r"
  "request_count (snd (check_relevance e c q r)) = request_count r"
  "cache_hits (snd (check_relevance e c q r)) = cache_hits r"
  "request_handler (snd (check_relevance e c q r)) = request_handler r"
  "metrics_execution_time (snd (check_relevance e c q r)) = metrics_execution_time r"
  "metrics_quality_scores (snd (check_relevance e c q r)) = metrics_quality_scores r"
  by (simp_all add: check_relevance_def Let_def split_beta tick_def split: sum.splits)

lemma check_relevance_ticks: "ticks r \<le> ticks (snd (check_relevance e c q r))"
  by (simp add: check_relevance_def Let_def split_beta split: sum.splits)

lemma context_parts_async_frame:
  "response_cache (snd (context_parts_async e q ds ps r)) = response_cache r
   \<and> error_count (snd (context_parts_async e q ds ps r)) = error_count r
   \<and> request_count (snd (context_parts_async e q ds ps r)) = request_count r
   \<and> cache_hits (snd (context_parts_async e q ds ps r)) = cache_hits r
   \<and> request_handler (snd (context_parts_async e q ds ps r)) = request_handler r
   \<and> metrics_execution_time (snd (context_parts_async e q ds ps r)) = metrics_execution_time r
   \<and> metrics_quality_scores (snd (context_parts_async e q ds ps r)) = metrics_quality_scores r
   \<and> ticks r \<le> ticks (snd (context_parts_async e q ds ps r))"
proof (induction ds arbitrary: ps r)
  case Nil
  then show ?case by simp
next
  case (Cons d ds)
  let ?content = "py_strip (isspace e) (page_content d)"
  show ?case
  proof (cases "?content \<noteq> [] \<and> ?content \<notin> set ps")
    case False
    then have "context_parts_async e q (d # ds) ps r = context_parts_async e q ds ps r"
      by (auto simp: Let_def)
    then show ?thesis using Cons.IH [of ps r] by simp
  next
    case True
    obtain v r1 where cr: "check_relevance e ?content q r = (v, r1)"
      by (cases "check_relevance e ?content q r")
    have fr: "response_cache r1 = response_cache r" "error_count r1 = error_count r"
      "request_count r1 = request_count r" "cache_hits r1 = cache_hits r"
      "request_handler r1 = request_handler r"
      "metrics_execution_time r1 = metrics_execution_time r"
      "metrics_quality_scores r1 = metrics_quality_scores r"
      "ticks r \<le> ticks r1"
      using check_relevance_frame [of e ?content q r] check_relevance_ticks [of r e ?content q]
      by (simp_all add: cr)
    show ?thesis
    proof (cases v)
      case (EScore x)
      show ?thesis
      proof (cases "x \<ge> 3 / 10")
        case True
        with \<open>?content \<noteq> [] \<and> ?content \<notin> set ps\<close> cr EScore
        have "context_parts_async e q (d # ds) ps r
                = context_parts_async e q ds (ps @ [?content]) r1"
          by (simp add: Let_def)
        then show ?thesis using Cons.IH [of "ps @ [?content]" r1] fr by simp
      next
        case False
        with \<open>?content \<noteq> [] \<and> ?content \<notin> set ps\<close> cr EScore
        have "context_parts_async e q (d # ds) ps r = context_parts_async e q ds ps r1"
          by (simp add: Let_def)
        then show ?thesis using Cons.IH [of ps r1] fr by simp
      qed
    next
      case ENone
      with True cr have "context_parts_async e q (d # ds) ps r = (None, r1)"
        by (simp add: Let_def)
      then show ?thesis using fr by simp
    next
      case (EVec x)
      with True cr have "context_parts_async e q (d # ds) ps r = (None, r1)"
        by (simp add: Let_def)
      then show ?thesis using fr by simp
    qed
  qed
qed

lemma get_context_async_frame:
  "error_count (snd (get_context_async e q r)) = error_count r"
  "request_count (snd (get_context_async e q r)) = request_count r"
  "request_handler (snd (get_context_async e q r)) = request_handler r"
  "ticks r \<le> ticks (snd (get_context_async e q r))"
proof -
  have "error_count (snd (get_context_async e q r)) = error_count r
      \<and> request_count (snd (get_context_async e q r)) = request_count r
      \<and> request_handler (snd (get_context_async e q r)) = request_handler r
      \<and> ticks r \<le> ticks (snd (get_context_async e q r))"
  proof (cases "get_cache_key e q")
    case (Inl ex)
    then show ?thesis by (simp add: get_context_async_def)
  next
    case (Inr h)
    let ?ck = "ascii ''context_'' @ h"
    let ?r1 = "tick (r\<lparr>response_cache := snd (cache_contains (clk e (ticks r)) ?ck (response_cache r))\<rparr>)"
    show ?thesis
    proof (cases "fst (cache_contains (clk e (ticks r)) ?ck (response_cache r))")
      case True
      with Inr show ?thesis
        by (simp add: get_context_async_def Let_def split_beta split: option.splits)
    next
      case False
      show ?thesis
      proof (cases "similarity_search e (ticks ?r1) q")
        case (Inl ex)
        with Inr False show ?thesis
          by (simp add: get_context_async_def Let_def split_beta)
      next
        case (Inr docs)
        note f = context_parts_async_frame [of e q docs "[]" "tick ?r1"]
        obtain po r3 where cp: "context_parts_async e q docs [] (tick ?r1) = (po, r3)"
          by (cases "context_parts_async e q docs [] (tick ?r1)")
        from f cp have fr: "error_count r3 = error_count r" "request_count r3 = request_count r"
          "request_handler r3 = request_handler r" "ticks r \<le> ticks r3"
          by simp_all
        from \<open>get_cache_key e q = Inr h\<close> False Inr cp fr show ?thesis
          by (cases po) (simp_all add: get_context_async_def Let_def split_beta)
      qed
    qed
  qed
  then show "error_count (snd (get_context_async e q r)) = error_count r"
    "request_count (snd (get_context_async e q r)) = request_count r"
    "request_handler (snd (get_context_async e q r)) = request_handler r"
    "ticks r \<le> ticks (snd (get_context_async e q r))"
    by simp_all
qed

lemma ask_async_error_inv:
  assumes "source (fst (ask_async e q r)) = Some SrcError"
  shows "quality_metrics (fst (ask_async e q r)) = zero_quality
       \<and> error (fst (ask_async e q r)) \<noteq> None
       \<and> error_count (snd (ask_async e q r)) = error_count r + 1"
proof (cases "py_strip (isspace e) q = []")
  case True
  with assms show ?thesis by (simp add: ask_async_empty)
next
  case ne: False
  show ?thesis
  proof (cases "get_cache_key e q")
    case (Inl ex)
    with ne show ?thesis by (simp add: ask_async_key_error)
  next
    case (Inr key)
    let ?R1 = "tick ((tick (r\<lparr>request_count := request_count r + 1\<rparr>))
                  \<lparr>response_cache :=
                     snd (cache_contains (clk e (Suc (ticks r))) key (response_cache r))\<rparr>)"
    have ec: "error_count ?R1 = error_count r" by simp
    show ?thesis
    proof (cases "fst (cache_contains (clk e (Suc (ticks r))) key (response_cache r))")
      case True
      note eq = ask_async_hit [OF ne Inr True]
      from assms ask_async_cached_error [of e key "clk e (ticks r)" ?R1]
      show ?thesis unfolding eq ec by blast
    next
      case False
      note eq = ask_async_miss [OF ne Inr False]
      have ec2: "error_count (snd (get_context_async e q ?R1)) = error_count r"
        by (simp add: get_context_async_frame)
      from assms ask_async_generate_error [of e q key "clk e (ticks r)" ?R1]
      show ?thesis unfolding eq ec2 by blast
    qed
  qed
qed

lemma ask_async_generation_fails:
  assumes "py_strip (isspace e) q \<noteq> []" and "get_cache_key e q = Inr key"
    and "\<not> fst (cache_contains (clk e (Suc (ticks r))) key (response_cache r))"
    and "qa_invoke e
           (ticks (snd (get_context_async e q
              (tick ((tick (r\<lparr>request_count := request_count r + 1\<rparr>))
                 \<lparr>response_cache :=
                    snd (cache_contains (clk e (Suc (ticks r))) key (response_cache r))\<rparr>)))))
           q
           (fst (get_context_async e q
              (tick ((tick (r\<lparr>request_count := request_count r + 1\<rparr>))
                 \<lparr>response_cache :=
                    snd (cache_contains (clk e (Suc (ticks r))) key (response_cache r))\<rparr>))))
         = Inl ex"
  shows "source (fst (ask_async e q r)) = Some SrcError"
    and "error (fst (ask_async e q r)) = Some (str_of_exc e ex)"
  unfolding ask_async_miss [OF assms(1,2,3)] ask_async_generate_raise [OF assms(4)]
  by simp_all

lemma search_context_fails:
  "similarity_search e n q = Inl ex \<Longrightarrow> search_context e n q = []"
  by (simp add: search_context_def)

text \<open>
  C6, as the code has it. \<open>ask\<close>: a result has an \<open>error\<close> field exactly when it
  has no \<open>source\<close>, and then its metrics are all zero and \<open>error_count\<close> has
  grown by one; an exception of the generation chain ends in such a result, with the
  exception's message. \<open>ask_async\<close>: a result with \<open>source = error\<close> has zero
  metrics, an \<open>error\<close> field and \<open>error_count\<close> grown by one; an exception of
  the generation chain ends in such a result, with the exception's message. An exception
  of the vector store does not reach the entry point: \<open>_get_context\<close> answers it with
  the empty context. Both entry points are total functions: no exception leaves them.
\<close>

theorem errors_become_results:
  "(error (fst (ask e q r)) \<noteq> None \<longleftrightarrow> source (fst (ask e q r)) = None)
   \<and> (error (fst (ask e q r)) \<noteq> None \<longrightarrow>
        quality_metrics (fst (ask e q r)) = zero_quality
      \<and> error_count (snd (ask e q r)) = error_count r + 1)
   \<and> (get_cache_key e q = Inr key
       \<and> \<not> truthy (fst (cache_get (clk e (Suc (ticks r))) key VNone (response_cache r)))
       \<and> qa_invoke e (ticks r + 3) q (VStr (search_context e (ticks r + 2) q)) = Inl ex
       \<longrightarrow> error (fst (ask e q r)) = Some (str_of_exc e ex))
   \<and> (source (fst (ask_async e q r)) = Some SrcError \<longrightarrow>
        quality_metrics (fst (ask_async e q r)) = zero_quality
      \<and> error (fst (ask_async e q r)) \<noteq> None
      \<and> error_count (snd (ask_async e q r)) = error_count r + 1)
   \<and> (py_strip (isspace e) q \<noteq> [] \<and> get_cache_key e q = Inr key
       \<and> \<not> fst (cache_contains (clk e (Suc (ticks r))) key (response_cache r))
       \<and> qa_invoke e
           (ticks (snd (get_context_async e q
              (tick ((tick (r\<lparr>request_count := request_count r + 1\<rparr>))
                 \<lparr>response_cache :=
                    snd (cache_contains (clk e (Suc (ticks r))) key (response_cache r))\<rparr>)))))
           q
           (fst (get_context_async e q
              (tick ((tick (r\<lparr>request_count := request_count r + 1\<rparr>))
                 \<lparr>response_cache :=
                    snd (cache_contains (clk e (Suc (ticks r))) key (response_cache r))\<rparr>))))
         = Inl ex
       \<longrightarrow> source (fst (ask_async e q r)) = Some SrcError
         \<and> error (fst (ask_async e q r)) = Some (str_of_exc e ex))
   \<and> (similarity_search e (ticks r) q = Inl ex \<longrightarrow> get_context e q r = ([], tick r))"
proof -
  note c = ask_cases [of e q r]
  have 1: "error (fst (ask e q r)) \<noteq> None \<longleftrightarrow> source (fst (ask e q r)) = None"
    using c by auto
  have 2: "error (fst (ask e q r)) \<noteq> None \<longrightarrow>
        quality_metrics (fst (ask e q r)) = zero_quality
      \<and> error_count (snd (ask e q r)) = error_count r + 1"
    using c by auto
  have 3: "get_cache_key e q = Inr key
       \<and> \<not> truthy (fst (cache_get (clk e (Suc (ticks r))) key VNone (response_cache r)))
       \<and> qa_invoke e (ticks r + 3) q (VStr (search_context e (ticks r + 2) q)) = Inl ex
       \<longrightarrow> error (fst (ask e q r)) = Some (str_of_exc e ex)"
    using ask_generation_fails [of e q key r ex] by blast
  have 4: "source (fst (ask_async e q r)) = Some SrcError \<longrightarrow>
        quality_metrics (fst (ask_async e q r)) = zero_quality
      \<and> error (fst (ask_async e q r)) \<noteq> None
      \<and> error_count (snd (ask_async e q r)) = error_count r + 1"
    using ask_async_error_inv [of e q r] by blast
  have 6: "similarity_search e (ticks r) q = Inl ex \<longrightarrow> get_context e q r = ([], tick r)"
    by (simp add: get_context_def search_context_fails)
  from 1 2 3 4 6 ask_async_generation_fails [of e q key r ex] show ?thesis by blast
qed

lemma ask_fresh_direct:
  assumes "get_cache_key e q = Inr key" and "cache (response_cache r) = []"
    and "qa_invoke e (ticks r + 3) q (VStr (search_context e (ticks r + 2) q)) = Inr resp"
    and "resp_answer resp = Some a" and "a \<noteq> []"
  shows "source (fst (ask e q r)) = Some SrcDirect"
    and "error (fst (ask e q r)) = None"
    and "answer (fst (ask e q r)) = VStr a"
    and "error_count (snd (ask e q r)) = error_count r"
    and "request_count (snd (ask e q r)) = request_count r + 1"
    and "ticks r + 2 \<le> ticks (snd (ask e q r))"
proof -
  let ?R1 = "tick ((tick (r\<lparr>request_count := request_count r + 1\<rparr>))
                \<lparr>response_cache :=
                   snd (cache_get (clk e (Suc (ticks r))) key VNone (response_cache r))\<rparr>)"
  have miss: "\<not> truthy (fst (cache_get (clk e (Suc (ticks r))) key VNone (response_cache r)))"
    using assms(2) by (simp add: cache_get_def)
  have qa: "qa_invoke e (Suc (ticks ?R1)) q (VStr (fst (get_context e q ?R1))) = Inr resp"
    using assms(3) by (simp add: numeral_3_eq_3)
  note d = ask_generate_direct [OF qa assms(4,5), of key "clk e (ticks r)"]
  show "source (fst (ask e q r)) = Some SrcDirect" "error (fst (ask e q r)) = None"
    "answer (fst (ask e q r)) = VStr a"
    unfolding ask_miss [OF assms(1) miss] d(1) by simp_all
  show "error_count (snd (ask e q r)) = error_count r"
    "request_count (snd (ask e q r)) = request_count r + 1"
    unfolding ask_miss [OF assms(1) miss] d(3) d(4) by simp_all
  show "ticks r + 2 \<le> ticks (snd (ask e q r))"
    unfolding ask_miss [OF assms(1) miss] using d(7) by simp
qed

lemma get_context_async_search_fails:
  assumes "get_cache_key e q = Inr h"
    and "\<not> fst (cache_contains (clk e (ticks r)) (ascii ''context_'' @ h) (response_cache r))"
    and "similarity_search e (Suc (ticks r)) q = Inl ex"
  shows "get_context_async e q r =
           (VStr [], tick (tick (r\<lparr>response_cache :=
              snd (cache_contains (clk e (ticks r)) (ascii ''context_'' @ h) (response_cache r))\<rparr>)))"
  using assms by (simp add: get_context_async_def Let_def split_beta)

theorem errors_become_results_witness:
  "error (fst (ask (env0\<lparr>qa_invoke := \<lambda>n q c. Inl (Raised [98, 111, 111, 109])\<rparr>)
                 [104, 105] (rag_init 5 0))) = Some [98, 111, 111, 109]
   \<and> source (fst (ask (env0\<lparr>qa_invoke := \<lambda>n q c. Inl (Raised [98, 111, 111, 109])\<rparr>)
                 [104, 105] (rag_init 5 0))) = None
   \<and> error_count (snd (ask (env0\<lparr>qa_invoke := \<lambda>n q c. Inl (Raised [98, 111, 111, 109])\<rparr>)
                 [104, 105] (rag_init 5 0))) = 1
   \<and> source (fst (ask_async (env0\<lparr>qa_invoke := \<lambda>n q c. Inl (Raised [98, 111, 111, 109])\<rparr>)
                 [104, 105] (rag_init 5 0))) = Some SrcError
   \<and> error (fst (ask_async (env0\<lparr>qa_invoke := \<lambda>n q c. Inl (Raised [98, 111, 111, 109])\<rparr>)
                 [104, 105] (rag_init 5 0))) = Some [98, 111, 111, 109]
   \<and> error_count (snd (ask_async (env0\<lparr>qa_invoke := \<lambda>n q c. Inl (Raised [98, 111, 111, 109])\<rparr>)
                 [104, 105] (rag_init 5 0))) = 1
   \<and> get_context (env0\<lparr>similarity_search := \<lambda>n q. Inl (Raised [98, 111, 111, 109])\<rparr>)
        [104, 105] (rag_init 5 0) = ([], tick (rag_init 5 0))"
proof -
  let ?eF = "env0\<lparr>qa_invoke := \<lambda>n q c. Inl (Raised [98, 111, 111, 109])\<rparr>"
  let ?eS = "env0\<lparr>similarity_search := \<lambda>n q. Inl (Raised [98, 111, 111, 109])\<rparr>"
  let ?hi = "[104, 105] :: pystr"
  let ?r0 = "rag_init 5 0"
  let ?boom = "Raised [98, 111, 111, 109]"
  have k: "get_cache_key ?eF ?hi = Inr ?hi" by (simp add: get_cache_key_def encodable_def env0_def)
  have m: "\<not> truthy (fst (cache_get (clk ?eF (Suc (ticks ?r0))) ?hi VNone (response_cache ?r0)))"
    by simp
  have q: "qa_invoke ?eF (ticks ?r0 + 3) ?hi (VStr (search_context ?eF (ticks ?r0 + 2) ?hi))
            = Inl ?boom" by simp
  have st: "py_strip (isspace ?eF) ?hi \<noteq> []" by (simp add: py_strip_def env0_def)
  have nc: "\<not> fst (cache_contains (clk ?eF (Suc (ticks ?r0))) ?hi (response_cache ?r0))" by simp
  have qa: "qa_invoke ?eF
           (ticks (snd (get_context_async ?eF ?hi
              (tick ((tick (?r0\<lparr>request_count := request_count ?r0 + 1\<rparr>))
                 \<lparr>response_cache :=
                    snd (cache_contains (clk ?eF (Suc (ticks ?r0))) ?hi (response_cache ?r0))\<rparr>)))))
           ?hi
           (fst (get_context_async ?eF ?hi
              (tick ((tick (?r0\<lparr>request_count := request_count ?r0 + 1\<rparr>))
                 \<lparr>response_cache :=
                    snd (cache_contains (clk ?eF (Suc (ticks ?r0))) ?hi (response_cache ?r0))\<rparr>))))
         = Inl ?boom" by simp
  have ss: "similarity_search ?eS (ticks ?r0) ?hi = Inl ?boom" by simp
  have msg: "str_of_exc ?eF ?boom = [98, 111, 111, 109]" by (simp add: env0_def)
  note T = errors_become_results [of ?eF ?hi ?r0 ?hi ?boom]
  note TS = errors_become_results [of ?eS ?hi ?r0 ?hi ?boom]
  from T k m q have 1: "error (fst (ask ?eF ?hi ?r0)) = Some (str_of_exc ?eF ?boom)" by blast
  with T have 2: "source (fst (ask ?eF ?hi ?r0)) = None"
    and 3: "error_count (snd (ask ?eF ?hi ?r0)) = error_count ?r0 + 1" by auto
  from T st k nc qa have 4: "source (fst (ask_async ?eF ?hi ?r0)) = Some SrcError"
    and 5: "error (fst (ask_async ?eF ?hi ?r0)) = Some (str_of_exc ?eF ?boom)" by blast+
  from T 4 have 6: "error_count (snd (ask_async ?eF ?hi ?r0)) = error_count ?r0 + 1" by blast
  from TS ss have 7: "get_context ?eS ?hi ?r0 = ([], tick ?r0)" by blast
  from 1 2 3 4 5 6 7 show ?thesis unfolding msg by simp
qed

text \<open>
  C6 as stated fails: when the generation chain raises, the result of \<open>ask\<close> has no
  \<open>source\<close> at all; and when the vector store raises, \<open>ask\<close> still returns a
  generated answer with \<open>source = direct\<close>, no \<open>error\<close> field and
  \<open>error_count\<close> unchanged.
\<close>

theorem error_result_without_source:
  "source (fst (ask (env0\<lparr>qa_invoke := \<lambda>n q c. Inl (Raised [98, 111, 111, 109])\<rparr>)
                 [104, 105] (rag_init 5 0))) = None
   \<and> source (fst (ask (env0\<lparr>similarity_search := \<lambda>n q. Inl (Raised [98, 111, 111, 109])\<rparr>)
                 [104, 105] (rag_init 5 0))) = Some SrcDirect
   \<and> error (fst (ask (env0\<lparr>similarity_search := \<lambda>n q. Inl (Raised [98, 111, 111, 109])\<rparr>)
                 [104, 105] (rag_init 5 0))) = None
   \<and> error_count (snd (ask (env0\<lparr>similarity_search := \<lambda>n q. Inl (Raised [98, 111, 111, 109])\<rparr>)
                 [104, 105] (rag_init 5 0))) = 0"
proof -
  let ?eF = "env0\<lparr>qa_invoke := \<lambda>n q c. Inl (Raised [98, 111, 111, 109])\<rparr>"
  let ?eS = "env0\<lparr>similarity_search := \<lambda>n q. Inl (Raised [98, 111, 111, 109])\<rparr>"
  let ?hi = "[104, 105] :: pystr"
  let ?r0 = "rag_init 5 0"
  have k: "get_cache_key ?eF ?hi = Inr ?hi" by (simp add: get_cache_key_def encodable_def env0_def)
  have m: "\<not> truthy (fst (cache_get (clk ?eF (Suc (ticks ?r0))) ?hi VNone (response_cache ?r0)))"
    by simp
  have q: "qa_invoke ?eF (ticks ?r0 + 3) ?hi (VStr (search_context ?eF (ticks ?r0 + 2) ?hi))
            = Inl (Raised [98, 111, 111, 109])" by simp
  from ask_generation_fails [OF k m q] ask_cases [of ?eF ?hi ?r0]
  have 1: "source (fst (ask ?eF ?hi ?r0)) = None" by auto
  have kS: "get_cache_key ?eS ?hi = Inr ?hi" by (simp add: get_cache_key_def encodable_def env0_def)
  have c: "cache (response_cache ?r0) = []" by (simp add: cache_init_def)
  have qS: "qa_invoke ?eS (ticks ?r0 + 3) ?hi (VStr (search_context ?eS (ticks ?r0 + 2) ?hi))
            = Inr \<lparr>resp_answer = Some ?hi, resp_source_documents = None\<rparr>" by simp
  have a: "resp_answer \<lparr>resp_answer = Some ?hi, resp_source_documents = None\<rparr> = Some ?hi"
    by simp
  have ne: "?hi \<noteq> []" by simp
  note d = ask_fresh_direct [OF kS c qS a ne]
  from 1 d(1) d(2) d(4) show ?thesis by simp
qed

theorem ask_async_empty_question_witness:
  "isspace env0 32
   \<and> source (fst (ask_async env0 [32, 32, 32] (rag_init 5 0))) = Some SrcEmpty
   \<and> snd (ask_async env0 [32, 32, 32] (rag_init 5 0)) = rag_init 5 0
   \<and> source (fst (ask_async env0 [] (rag_init 5 0))) = Some SrcEmpty
   \<and> source (fst (ask_async env0 [104, 105] (rag_init 5 0))) \<noteq> Some SrcEmpty"
proof -
  have w: "\<forall>c \<in> set [32, 32, 32]. isspace env0 c" by simp
  have n: "\<forall>c \<in> set []. isspace env0 c" by simp
  have h: "\<not> (\<forall>c \<in> set [104, 105]. isspace env0 c)" by simp
  from ask_async_empty_question [of env0 "[32, 32, 32]" "rag_init 5 0"] w
  have 1: "source (fst (ask_async env0 [32, 32, 32] (rag_init 5 0))) = Some SrcEmpty"
    and 2: "snd (ask_async env0 [32, 32, 32] (rag_init 5 0)) = rag_init 5 0" by blast+
  from ask_async_empty_question [of env0 "[]" "rag_init 5 0"] n
  have 3: "source (fst (ask_async env0 [] (rag_init 5 0))) = Some SrcEmpty" by blast
  from ask_async_empty_question [of env0 "[104, 105]" "rag_init 5 0"] h
  have 4: "source (fst (ask_async env0 [104, 105] (rag_init 5 0))) \<noteq> Some SrcEmpty" by blast
  from 1 2 3 4 show ?thesis by simp
qed

text \<open>
  C8 as stated fails: \<open>ask\<close> has no check for an empty question, so a single blank
  goes through the cache lookup and the collaborators and comes back with
  \<open>source = direct\<close>; and \<open>ask_async\<close> leaves \<open>request_count\<close> at 0.
\<close>

theorem ask_has_no_empty_check:
  "source (fst (ask env0 [32] (rag_init 5 0))) = Some SrcDirect
   \<and> answer (fst (ask env0 [32] (rag_init 5 0))) = VStr [32]
   \<and> 2 \<le> ticks (snd (ask env0 [32] (rag_init 5 0)))
   \<and> source (fst (ask_async env0 [32] (rag_init 5 0))) = Some SrcEmpty
   \<and> request_count (snd (ask_async env0 [32] (rag_init 5 0))) = 0"
proof -
  have k: "get_cache_key env0 [32] = Inr [32]" by (simp add: get_cache_key_def encodable_def)
  have c: "cache (response_cache (rag_init 5 0)) = []" by (simp add: cache_init_def)
  have q: "qa_invoke env0 (ticks (rag_init 5 0) + 3) [32]
             (VStr (search_context env0 (ticks (rag_init 5 0) + 2) [32]))
            = Inr \<lparr>resp_answer = Some [32], resp_source_documents = None\<rparr>" by simp
  have a: "resp_answer \<lparr>resp_answer = Some [32], resp_source_documents = None\<rparr> = Some [32]"
    by simp
  have ne: "[32::nat] \<noteq> []" by simp
  note d = ask_fresh_direct [OF k c q a ne]
  have s: "py_strip (isspace env0) [32] = []" by (simp add: py_strip_def)
  from d(1) d(3) d(6) ask_async_empty [OF s, of "rag_init 5 0"] show ?thesis by simp
qed

section \<open>Properties of the context fetch\<close>

lemma startswith_append: "startswith (p @ s) p"
  by (induction p) auto

lemma keys_delete_subset: "fst ` set (AList.delete k al) \<subseteq> fst ` set al"
  by (rule AList.dom_delete_subset)

lemma keys_cache_get: "fst ` set (cache (snd (cache_get t k d c))) \<subseteq> fst ` set (cache c)"
  using keys_delete_subset [of k "cache c"]
  by (auto simp: cache_get_def split: option.splits)

lemma keys_cleanup_oldest: "fst ` set (cache (cleanup_oldest c)) \<subseteq> fst ` set (cache c)"
proof (cases "cache c")
  case Nil
  then show ?thesis by (simp add: cleanup_oldest_def)
next
  case (Cons p ps)
  show ?thesis unfolding cleanup_oldest_nonempty [OF Cons]
    using keys_delete_subset [of _ "cache c"] by simp
qed

lemma keys_cache_set:
  "fst ` set (cache (cache_set t k v c)) \<subseteq> insert k (fst ` set (cache c))"
proof -
  let ?c1 = "c\<lparr>cache := AList.update k \<lparr>val = v, timestamp = t\<rparr> (cache c)\<rparr>"
  have k1: "fst ` set (cache ?c1) = insert k (fst ` set (cache c))"
    by (simp add: AList.dom_update)
  show ?thesis
  proof (cases "int (length (cache ?c1)) > maxsize ?c1")
    case True
    then have "cache_set t k v c = cleanup_oldest ?c1" by (simp add: cache_set_def Let_def)
    with keys_cleanup_oldest [of ?c1] k1 show ?thesis by simp
  next
    case False
    then have "cache_set t k v c = ?c1" by (simp add: cache_set_def Let_def)
    with k1 show ?thesis by simp
  qed
qed

lemma check_relevance_keys:
  assumes "k \<in> fst ` set (cache (embedding_cache (snd (check_relevance e c q r))))"
  shows "k \<in> fst ` set (cache (embedding_cache r)) \<or> startswith k (ascii ''relevance_'')"
proof (cases "get_cache_key e (c @ q)")
  case (Inl ex)
  with assms show ?thesis by (simp add: check_relevance_def)
next
  case (Inr h)
  let ?ck = "ascii ''relevance_'' @ h"
  let ?g = "cache_get (clk e (ticks r)) ?ck ENone (embedding_cache r)"
  show ?thesis
  proof (cases "fst ?g \<noteq> ENone")
    case True
    with Inr have "embedding_cache (snd (check_relevance e c q r)) = snd ?g"
      by (simp add: check_relevance_def Let_def split_beta)
    with assms keys_cache_get [of "clk e (ticks r)" ?ck ENone "embedding_cache r"]
    show ?thesis by auto
  next
    case False
    with Inr have "embedding_cache (snd (check_relevance e c q r)) =
        cache_set (clk e (Suc (ticks r))) ?ck (EScore (relevance_score e c q)) (snd ?g)"
      by (simp add: check_relevance_def Let_def split_beta)
    with assms keys_cache_set [of "clk e (Suc (ticks r))" ?ck "EScore (relevance_score e c q)" "snd ?g"]
    have "k = ?ck \<or> k \<in> fst ` set (cache (snd ?g))" by auto
    with keys_cache_get [of "clk e (ticks r)" ?ck ENone "embedding_cache r"]
    show ?thesis using startswith_append [of "ascii ''relevance_''" h] by auto
  qed
qed

lemma context_parts_async_keys:
  assumes "k \<in> fst ` set (cache (embedding_cache (snd (context_parts_async e q ds ps r))))"
  shows "k \<in> fst ` set (cache (embedding_cache r)) \<or> startswith k (ascii ''relevance_'')"
  using assms
proof (induction ds arbitrary: ps r)
  case Nil
  then show ?case by simp
next
  case (Cons d ds)
  let ?content = "py_strip (isspace e) (page_content d)"
  show ?case
  proof (cases "?content \<noteq> [] \<and> ?content \<notin> set ps")
    case False
    then have "context_parts_async e q (d # ds) ps r = context_parts_async e q ds ps r"
      by (auto simp: Let_def)
    with Cons show ?thesis by simp
  next
    case True
    obtain v r1 where cr: "check_relevance e ?content q r = (v, r1)"
      by (cases "check_relevance e ?content q r")
    have step: "k' \<in> fst ` set (cache (embedding_cache r1))
        \<Longrightarrow> k' \<in> fst ` set (cache (embedding_cache r)) \<or> startswith k' (ascii ''relevance_'')"
      for k'
      using check_relevance_keys [of k' e ?content q r] cr by simp
    show ?thesis
    proof (cases v)
      case (EScore x)
      show ?thesis
      proof (cases "x \<ge> 3 / 10")
        case t: True
        with True cr EScore
        have "context_parts_async e q (d # ds) ps r
                = context_parts_async e q ds (ps @ [?content]) r1"
          by (simp add: Let_def)
        with Cons.prems Cons.IH [of "ps @ [?content]" r1] step show ?thesis by auto
      next
        case f: False
        with True cr EScore
        have "context_parts_async e q (d # ds) ps r = context_parts_async e q ds ps r1"
          by (simp add: Let_def)
        with Cons.prems Cons.IH [of ps r1] step show ?thesis by auto
      qed
    next
      case ENone
      with True cr have "context_parts_async e q (d # ds) ps r = (None, r1)"
        by (simp add: Let_def)
      with Cons.prems step show ?thesis by simp
    next
      case (EVec x)
      with True cr have "context_parts_async e q (d # ds) ps r = (None, r1)"
        by (simp add: Let_def)
      with Cons.prems step show ?thesis by simp
    qed
  qed
qed

lemma get_context_async_hit:
  assumes "get_cache_key e q = Inr h"
    and "fst (cache_contains (clk e (ticks r)) (ascii ''context_'' @ h) (response_cache r))"
    and "cache_getitem (clk e (Suc (ticks r))) (ascii ''context_'' @ h)
           (snd (cache_contains (clk e (ticks r)) (ascii ''context_'' @ h) (response_cache r)))
         = (Some x, rc2)"
  shows "fst (get_context_async e q r) = x"
    and "response_cache (snd (get_context_async e q r)) = rc2"
    and "embedding_cache (snd (get_context_async e q r)) = embedding_cache r"
    and "cache_hits (snd (get_context_async e q r)) = cache_hits r + 1"
  using assms by (simp_all add: get_context_async_def Let_def split_beta)

lemma get_context_async_store:
  assumes "get_cache_key e q = Inr h"
    and "\<not> fst (cache_contains (clk e (ticks r)) (ascii ''context_'' @ h) (response_cache r))"
    and "similarity_search e (Suc (ticks r)) q = Inr docs"
    and "context_parts_async e q docs []
           (tick (tick (r\<lparr>response_cache :=
              snd (cache_contains (clk e (ticks r)) (ascii ''context_'' @ h) (response_cache r))\<rparr>)))
         = (Some parts, r3)"
  shows "fst (get_context_async e q r) =
           VStr (case docs of
                   [] \<Rightarrow> truncate_context (py_join [10, 10] parts)
                 | d # ds \<Rightarrow> if truncate_context (py_join [10, 10] parts) = []
                            then page_content d
                            else truncate_context (py_join [10, 10] parts))"
    and "response_cache (snd (get_context_async e q r)) =
           cache_setitem (clk e (ticks r3)) (ascii ''context_'' @ h)
             (fst (get_context_async e q r))
             (snd (cache_contains (clk e (ticks r)) (ascii ''context_'' @ h) (response_cache r)))"
    and "embedding_cache (snd (get_context_async e q r)) = embedding_cache r3"
proof -
  let ?rc1 = "snd (cache_contains (clk e (ticks r)) (ascii ''context_'' @ h) (response_cache r))"
  let ?R2 = "tick (tick (r\<lparr>response_cache := ?rc1\<rparr>))"
  from context_parts_async_frame [of e q docs "[]" ?R2] assms(4)
  have rc3: "response_cache r3 = ?rc1" by simp
  show "fst (get_context_async e q r) =
           VStr (case docs of
                   [] \<Rightarrow> truncate_context (py_join [10, 10] parts)
                 | d # ds \<Rightarrow> if truncate_context (py_join [10, 10] parts) = []
                            then page_content d
                            else truncate_context (py_join [10, 10] parts))"
    using assms by (simp add: get_context_async_def Let_def split_beta)
  show "response_cache (snd (get_context_async e q r)) =
           cache_setitem (clk e (ticks r3)) (ascii ''context_'' @ h)
             (fst (get_context_async e q r)) ?rc1"
    using assms rc3 by (simp add: get_context_async_def Let_def split_beta)
  show "embedding_cache (snd (get_context_async e q r)) = embedding_cache r3"
    using assms by (simp add: get_context_async_def Let_def split_beta)
qed

lemma get_context_async_keys:
  assumes "k \<in> fst ` set (cache (embedding_cache (snd (get_context_async e q r))))"
  shows "k \<in> fst ` set (cache (embedding_cache r)) \<or> startswith k (ascii ''relevance_'')"
proof (cases "get_cache_key e q")
  case (Inl ex)
  with assms show ?thesis by (simp add: get_context_async_def)
next
  case (Inr h)
  let ?ck = "ascii ''context_'' @ h"
  let ?rc1 = "snd (cache_contains (clk e (ticks r)) ?ck (response_cache r))"
  let ?r1 = "tick (r\<lparr>response_cache := ?rc1\<rparr>)"
  show ?thesis
  proof (cases "fst (cache_contains (clk e (ticks r)) ?ck (response_cache r))")
    case True
    with Inr have "embedding_cache (snd (get_context_async e q r)) = embedding_cache r"
      by (simp add: get_context_async_def Let_def split_beta split: option.splits)
    with assms show ?thesis by simp
  next
    case False
    show ?thesis
    proof (cases "similarity_search e (ticks ?r1) q")
      case (Inl ex)
      with \<open>get_cache_key e q = Inr h\<close> False
      have "embedding_cache (snd (get_context_async e q r)) = embedding_cache r"
        by (simp add: get_context_async_def Let_def split_beta)
      with assms show ?thesis by simp
    next
      case docs: (Inr docs)
      obtain po r3 where cp: "context_parts_async e q docs [] (tick ?r1) = (po, r3)"
        by (cases "context_parts_async e q docs [] (tick ?r1)")
      have "embedding_cache (snd (get_context_async e q r)) = embedding_cache r3"
        using \<open>get_cache_key e q = Inr h\<close> False docs cp
        by (cases po) (simp_all add: get_context_async_def Let_def split_beta)
      with assms have "k \<in> fst ` set (cache (embedding_cache r3))" by simp
      with context_parts_async_keys [of k e q docs "[]" "tick ?r1"] cp
      show ?thesis by simp
    qed
  qed
qed

lemma py_min_snoc:
  "py_min f b (xs @ [y]) = (if f y < f (py_min f b xs) then y else py_min f b xs)"
  by (induction xs arbitrary: b) auto

lemma cache_setitem_evicts_old:
  assumes wf: "wf_cache c" and full: "int (length (cache c)) = maxsize c"
    and new: "map_of (cache c) k = None"
    and old: "\<exists>p \<in> set (cache c). timestamp (snd p) \<le> t"
  shows "\<exists>ko \<in> fst ` set (cache c).
           map_of (cache (cache_setitem t k v c)) ko = None
         \<and> map_of (cache (cache_setitem t k v c)) k = Some \<lparr>val = v, timestamp = t\<rparr>
         \<and> length (cache (cache_setitem t k v c)) = length (cache c)"
proof -
  from old obtain p ps where c: "cache c = p # ps" by (cases "cache c") auto
  let ?e = "(k, \<lparr>val = v, timestamp = t\<rparr>)"
  let ?f = "\<lambda>q. timestamp (snd q)"
  let ?c1 = "c\<lparr>cache := AList.update k \<lparr>val = v, timestamp = t\<rparr> (cache c)\<rparr>"
  from new have notin: "k \<notin> fst ` set (cache c)" by (simp add: map_of_eq_None_iff)
  then have c1: "cache ?c1 = p # (ps @ [?e])" using c by (auto simp: update_absent)
  let ?m = "py_min ?f p ps"
  have m_in: "?m \<in> set (cache c)" unfolding c by (rule py_min_in)
  from old obtain x where x: "x \<in> set (p # ps)" "?f x \<le> t" unfolding c by blast
  from py_min_le [OF x(1), of ?f] x(2) have "?f ?m \<le> t" by simp
  then have pm: "py_min ?f p (ps @ [?e]) = ?m" by (simp add: py_min_snoc)
  from wf notin c have d1: "distinct (map fst (p # (ps @ [?e])))"
    by (auto simp: wf_cache_def)
  have over: "int (length (cache ?c1)) > maxsize ?c1" using full c c1 by simp
  have eq: "cache_setitem t k v c = ?c1\<lparr>cache := AList.delete (fst ?m) (cache ?c1)\<rparr>"
    using over cleanup_oldest_nonempty [OF c1] pm
    by (simp add: cache_setitem_def Let_def)
  have mk: "fst ?m \<noteq> k" using m_in notin by auto
  have look: "map_of (cache ?c1) (fst ?m) = Some (snd ?m)"
    using d1 m_in c unfolding c1 by (intro map_of_is_SomeI) auto
  have 1: "map_of (cache (cache_setitem t k v c)) (fst ?m) = None"
    unfolding eq by (simp add: AList.delete_conv')
  have 2: "map_of (cache (cache_setitem t k v c)) k = Some \<lparr>val = v, timestamp = t\<rparr>"
    unfolding eq using mk by (simp add: AList.delete_conv' AList.update_conv')
  have d1': "distinct (map fst (cache ?c1))" unfolding c1 by (rule d1)
  have "Suc (length (AList.delete (fst ?m) (cache ?c1))) = length (cache ?c1)"
    by (rule length_delete_present [OF d1' look])
  then have 3: "length (cache (cache_setitem t k v c)) = length (cache c)"
    unfolding eq using c c1 by simp
  from m_in 1 2 3 show ?thesis by blast
qed

lemma cache_contains_miss_absent:
  "\<not> fst (cache_contains t k c) \<Longrightarrow> map_of (cache (snd (cache_contains t k c))) k = None"
  by (auto simp: cache_contains_def AList.delete_conv' split: option.splits if_splits)

lemma wf_cache_contains: "wf_cache c \<Longrightarrow> wf_cache (snd (cache_contains t k c))"
  by (auto simp: cache_contains_def wf_cache_def AList.distinct_delete split: option.splits)

lemma context_key_not_relevance: "\<not> startswith (ascii ''context_'' @ h) (ascii ''relevance_'')"
  by (simp add: ascii_def)

text \<open>
  C10: \<open>_get_context_async\<close> reads a cached context from \<open>response_cache\<close> under
  the key \<open>'context_' + md5\<close> and, after a search, writes the context there with
  \<open>__setitem__\<close>; when that cache is full and holds an entry at least as old as the
  write, the write evicts an entry that was there before (an answer, if the answer is the
  oldest) and the context is stored. The embedding cache only ever gains keys that
  begin with \<open>'relevance_'\<close>, which a context key does not. \<open>ask_async\<close> writes
  its answer with \<open>__setitem__\<close> into the same cache, as the context fetch left it,
  so an answer write can in turn evict a context.
\<close>

theorem contexts_share_response_cache:
  "(get_cache_key e q = Inr h
     \<and> fst (cache_contains (clk e (ticks r)) (ascii ''context_'' @ h) (response_cache r))
     \<and> cache_getitem (clk e (Suc (ticks r))) (ascii ''context_'' @ h)
          (snd (cache_contains (clk e (ticks r)) (ascii ''context_'' @ h) (response_cache r)))
        = (Some x, rc2)
    \<longrightarrow> fst (get_context_async e q r) = x
      \<and> response_cache (snd (get_context_async e q r)) = rc2
      \<and> embedding_cache (snd (get_context_async e q r)) = embedding_cache r)
   \<and> (get_cache_key e q = Inr h
     \<and> \<not> fst (cache_contains (clk e (ticks r)) (ascii ''context_'' @ h) (response_cache r))
     \<and> similarity_search e (Suc (ticks r)) q = Inr docs
     \<and> context_parts_async e q docs []
          (tick (tick (r\<lparr>response_cache :=
             snd (cache_contains (clk e (ticks r)) (ascii ''context_'' @ h) (response_cache r))\<rparr>)))
        = (Some parts, r3)
    \<longrightarrow> response_cache (snd (get_context_async e q r)) =
          cache_setitem (clk e (ticks r3)) (ascii ''context_'' @ h) (fst (get_context_async e q r))
            (snd (cache_contains (clk e (ticks r)) (ascii ''context_'' @ h) (response_cache r)))
      \<and> (wf_cache (response_cache r)
          \<and> int (length (cache (snd (cache_contains (clk e (ticks r)) (ascii ''context_'' @ h)
                                     (response_cache r)))))
              = maxsize (response_cache r)
          \<and> (\<exists>p \<in> set (cache (snd (cache_contains (clk e (ticks r)) (ascii ''context_'' @ h)
                                     (response_cache r)))).
                timestamp (snd p) \<le> clk e (ticks r3))
         \<longrightarrow> (\<exists>ko \<in> fst ` set (cache (response_cache r)).
                 ko \<noteq> ascii ''context_'' @ h
               \<and> map_of (cache (response_cache (snd (get_context_async e q r)))) ko = None)
           \<and> map_of (cache (response_cache (snd (get_context_async e q r))))
                (ascii ''context_'' @ h)
               = Some \<lparr>val = fst (get_context_async e q r), timestamp = clk e (ticks r3)\<rparr>))
   \<and> (\<forall>k \<in> fst ` set (cache (embedding_cache (snd (get_context_async e q r)))).
         k \<in> fst ` set (cache (embedding_cache r)) \<or> startswith k (ascii ''relevance_''))
   \<and> \<not> startswith (ascii ''context_'' @ h) (ascii ''relevance_'')
   \<and> (source (fst (ask_async e q r)) = Some SrcDirect \<longrightarrow>
        (\<exists>key. get_cache_key e q = Inr key
           \<and> response_cache (snd (ask_async e q r)) =
               cache_setitem
                 (clk e (ticks (snd (get_context_async e q
                    (tick ((tick (r\<lparr>request_count := request_count r + 1\<rparr>))
                       \<lparr>response_cache :=
                          snd (cache_contains (clk e (Suc (ticks r))) key (response_cache r))\<rparr>)))) + 2))
                 key (VDict (fst (ask_async e q r)))
                 (response_cache (snd (get_context_async e q
                    (tick ((tick (r\<lparr>request_count := request_count r + 1\<rparr>))
                       \<lparr>response_cache :=
                          snd (cache_contains (clk e (Suc (ticks r))) key (response_cache r))\<rparr>)))))))"
proof -
  let ?ck = "ascii ''context_'' @ h"
  let ?rc1 = "snd (cache_contains (clk e (ticks r)) ?ck (response_cache r))"
  let ?res = "get_context_async e q r"
  have hit: "fst ?res = x \<and> response_cache (snd ?res) = rc2
      \<and> embedding_cache (snd ?res) = embedding_cache r"
    if "get_cache_key e q = Inr h"
      "fst (cache_contains (clk e (ticks r)) ?ck (response_cache r))"
      "cache_getitem (clk e (Suc (ticks r))) ?ck ?rc1 = (Some x, rc2)"
    using get_context_async_hit [OF that] by simp
  have store: "response_cache (snd ?res) = cache_setitem (clk e (ticks r3)) ?ck (fst ?res) ?rc1"
    if "get_cache_key e q = Inr h"
      "\<not> fst (cache_contains (clk e (ticks r)) ?ck (response_cache r))"
      "similarity_search e (Suc (ticks r)) q = Inr docs"
      "context_parts_async e q docs [] (tick (tick (r\<lparr>response_cache := ?rc1\<rparr>)))
         = (Some parts, r3)"
    using get_context_async_store(2) [OF that] .
  have evict: "(\<exists>ko \<in> fst ` set (cache (response_cache r)).
                 ko \<noteq> ?ck \<and> map_of (cache (response_cache (snd ?res))) ko = None)
           \<and> map_of (cache (response_cache (snd ?res))) ?ck
               = Some \<lparr>val = fst ?res, timestamp = clk e (ticks r3)\<rparr>"
    if st: "response_cache (snd ?res) = cache_setitem (clk e (ticks r3)) ?ck (fst ?res) ?rc1"
      and miss: "\<not> fst (cache_contains (clk e (ticks r)) ?ck (response_cache r))"
      and wf: "wf_cache (response_cache r)"
      and full: "int (length (cache ?rc1)) = maxsize (response_cache r)"
      and old: "\<exists>p \<in> set (cache ?rc1). timestamp (snd p) \<le> clk e (ticks r3)"
  proof -
    have wf1: "wf_cache ?rc1" using wf by (rule wf_cache_contains)
    have full1: "int (length (cache ?rc1)) = maxsize ?rc1"
      using full by (auto simp: cache_contains_def split: option.splits)
    have new: "map_of (cache ?rc1) ?ck = None" using miss by (rule cache_contains_miss_absent)
    from cache_setitem_evicts_old [OF wf1 full1 new old, of "fst ?res"]
    obtain ko where ko: "ko \<in> fst ` set (cache ?rc1)"
      "map_of (cache (cache_setitem (clk e (ticks r3)) ?ck (fst ?res) ?rc1)) ko = None"
      "map_of (cache (cache_setitem (clk e (ticks r3)) ?ck (fst ?res) ?rc1)) ?ck
         = Some \<lparr>val = fst ?res, timestamp = clk e (ticks r3)\<rparr>"
      by blast
    have sub: "fst ` set (cache ?rc1) \<subseteq> fst ` set (cache (response_cache r))"
      using AList.dom_delete_subset [of ?ck "cache (response_cache r)"]
      by (auto simp: cache_contains_def split: option.splits)
    from ko(2,3) have "ko \<noteq> ?ck" by auto
    with ko sub show ?thesis unfolding st by blast
  qed
  have keys: "\<forall>k \<in> fst ` set (cache (embedding_cache (snd ?res))).
         k \<in> fst ` set (cache (embedding_cache r)) \<or> startswith k (ascii ''relevance_'')"
    using get_context_async_keys [of _ e q r] by blast
  from hit store evict keys context_key_not_relevance [of h] ask_async_direct_inv [of e q r]
  show ?thesis by blast
qed

theorem contexts_share_response_cache_witness:
  "map_of (cache (response_cache (snd (get_context_async env0 [121, 111]
      ((rag_init 5 0)\<lparr>response_cache :=
          \<lparr>cache = [([104, 105], \<lparr>val = VStr [104, 105], timestamp = 0\<rparr>)],
           maxsize = 1, ttl = 7200\<rparr>\<rparr>))))) [104, 105] = None
   \<and> map_of (cache (response_cache (snd (get_context_async env0 [121, 111]
      ((rag_init 5 0)\<lparr>response_cache :=
          \<lparr>cache = [([104, 105], \<lparr>val = VStr [104, 105], timestamp = 0\<rparr>)],
           maxsize = 1, ttl = 7200\<rparr>\<rparr>))))) (ascii ''context_'' @ [121, 111])
       = Some \<lparr>val = VStr [], timestamp = 2\<rparr>
   \<and> map_of (cache (response_cache (snd (get_context_async env0 [104, 105]
        (tick ((tick ((rag_init 5 0)\<lparr>response_cache := cache_init 1 7200,
                                       request_count := 1\<rparr>))
           \<lparr>response_cache := cache_init 1 7200\<rparr>)))))) (ascii ''context_'' @ [104, 105])
       = Some \<lparr>val = VStr [], timestamp = 4\<rparr>
   \<and> map_of (cache (response_cache (snd (ask_async env0 [104, 105]
        ((rag_init 5 0)\<lparr>response_cache := cache_init 1 7200\<rparr>)))))
         (ascii ''context_'' @ [104, 105]) = None
   \<and> map_of (cache (response_cache (snd (ask_async env0 [104, 105]
        ((rag_init 5 0)\<lparr>response_cache := cache_init 1 7200\<rparr>))))) [104, 105] \<noteq> None"
proof -
  let ?hi = "[104, 105] :: pystr"
  let ?yo = "[121, 111] :: pystr"
  let ?R1 = "(rag_init 5 0)\<lparr>response_cache :=
          \<lparr>cache = [(?hi, \<lparr>val = VStr ?hi, timestamp = 0\<rparr>)], maxsize = 1, ttl = 7200\<rparr>\<rparr>"
  let ?ck = "ascii ''context_'' @ ?yo"
  let ?r3 = "tick (tick (?R1\<lparr>response_cache :=
             snd (cache_contains (clk env0 (ticks ?R1)) ?ck (response_cache ?R1))\<rparr>))"
  have k: "get_cache_key env0 ?yo = Inr ?yo" by (simp add: get_cache_key_def encodable_def)
  have cc: "cache_contains (clk env0 (ticks ?R1)) ?ck (response_cache ?R1)
             = (False, response_cache ?R1)"
    by (simp add: cache_contains_def ascii_context)
  have miss: "\<not> fst (cache_contains (clk env0 (ticks ?R1)) ?ck (response_cache ?R1))"
    using cc by simp
  have ss: "similarity_search env0 (Suc (ticks ?R1)) ?yo = Inr []" by simp
  have cp: "context_parts_async env0 ?yo [] [] ?r3 = (Some [], ?r3)" by simp
  have wf: "wf_cache (response_cache ?R1)" by (simp add: wf_cache_def)
  have full: "int (length (cache (snd (cache_contains (clk env0 (ticks ?R1)) ?ck
                (response_cache ?R1))))) = maxsize (response_cache ?R1)"
    using cc by simp
  have old: "\<exists>p \<in> set (cache (snd (cache_contains (clk env0 (ticks ?R1)) ?ck
                (response_cache ?R1)))). timestamp (snd p) \<le> clk env0 (ticks ?r3)"
    using cc by simp
  note T = contexts_share_response_cache [of env0 ?yo ?yo ?R1 _ _ "[]" "[]" ?r3]
  from T k miss ss cp wf full old
  have ev: "\<exists>ko \<in> fst ` set (cache (response_cache ?R1)).
                 ko \<noteq> ?ck
               \<and> map_of (cache (response_cache (snd (get_context_async env0 ?yo ?R1)))) ko = None"
    and st: "map_of (cache (response_cache (snd (get_context_async env0 ?yo ?R1)))) ?ck
               = Some \<lparr>val = fst (get_context_async env0 ?yo ?R1), timestamp = clk env0 (ticks ?r3)\<rparr>"
    by blast+
  from ev have 1: "map_of (cache (response_cache (snd (get_context_async env0 ?yo ?R1)))) ?hi = None"
    by simp
  have v: "fst (get_context_async env0 ?yo ?R1) = VStr []"
    by (subst get_context_async_env0_absent) (simp_all add: encodable_def ascii_context)
  from st v have 2: "map_of (cache (response_cache (snd (get_context_async env0 ?yo ?R1)))) ?ck
               = Some \<lparr>val = VStr [], timestamp = 2\<rparr>" by simp
  let ?R2 = "(rag_init 5 0)\<lparr>response_cache := cache_init 1 7200\<rparr>"
  let ?Rm = "tick ((tick (?R2\<lparr>request_count := request_count ?R2 + 1\<rparr>))
       \<lparr>response_cache :=
          snd (cache_contains (clk env0 (Suc (ticks ?R2))) ?hi (response_cache ?R2))\<rparr>)"
  have m2: "\<not> fst (cache_contains (clk env0 (Suc (ticks ?R2))) ?hi (response_cache ?R2))"
    by simp
  have ctx: "get_context_async env0 ?hi ?Rm =
      (VStr [], tick ((tick (tick ?Rm))\<lparr>response_cache :=
              cache_setitem (real (Suc (Suc (ticks ?Rm)))) (ascii ''context_'' @ ?hi) (VStr [])
                (response_cache ?Rm)\<rparr>))"
    by (rule get_context_async_env0_absent) (simp_all add: encodable_def, simp add: cache_init_def)
  have rcm: "response_cache (snd (get_context_async env0 ?hi ?Rm))
      = \<lparr>cache = [(ascii ''context_'' @ ?hi, \<lparr>val = VStr [], timestamp = 4\<rparr>)],
         maxsize = 1, ttl = 7200\<rparr>"
    unfolding ctx by (simp add: cache_setitem_def cache_init_def cache_contains_def Let_def)
  have qa: "qa_invoke env0 (ticks (snd (get_context_async env0 ?hi ?Rm))) ?hi
              (fst (get_context_async env0 ?hi ?Rm))
            = Inr \<lparr>resp_answer = Some ?hi, resp_source_documents = None\<rparr>" by simp
  have a: "resp_answer \<lparr>resp_answer = Some ?hi, resp_source_documents = None\<rparr> = Some ?hi"
    by simp
  note eq = ask_async_miss [OF strip_hi key_hi m2]
  have d: "source (fst (ask_async env0 ?hi ?R2)) = Some SrcDirect"
    unfolding eq ask_async_generate_direct(1) [OF qa a] by simp
  note T2 = contexts_share_response_cache [of env0 ?hi ?hi ?R2]
  from T2 d obtain key where
    kk: "get_cache_key env0 ?hi = Inr key"
    and w: "response_cache (snd (ask_async env0 ?hi ?R2)) =
               cache_setitem
                 (clk env0 (ticks (snd (get_context_async env0 ?hi
                    (tick ((tick (?R2\<lparr>request_count := request_count ?R2 + 1\<rparr>))
                       \<lparr>response_cache :=
                          snd (cache_contains (clk env0 (Suc (ticks ?R2))) key (response_cache ?R2))\<rparr>)))) + 2))
                 key (VDict (fst (ask_async env0 ?hi ?R2)))
                 (response_cache (snd (get_context_async env0 ?hi
                    (tick ((tick (?R2\<lparr>request_count := request_count ?R2 + 1\<rparr>))
                       \<lparr>response_cache :=
                          snd (cache_contains (clk env0 (Suc (ticks ?R2))) key (response_cache ?R2))\<rparr>)))))"
    by blast
  from kk key_hi have key: "key = ?hi" by simp
  have tk: "ticks (snd (get_context_async env0 ?hi ?Rm)) = 5" unfolding ctx by simp
  have fin: "response_cache (snd (ask_async env0 ?hi ?R2)) =
      \<lparr>cache = [(?hi, \<lparr>val = VDict (fst (ask_async env0 ?hi ?R2)), timestamp = 7\<rparr>)],
       maxsize = 1, ttl = 7200\<rparr>"
    unfolding w key rcm tk
    by (simp add: cache_setitem_def cleanup_oldest_def Let_def ascii_context)
  have 3: "map_of (cache (response_cache (snd (get_context_async env0 ?hi ?Rm))))
             (ascii ''context_'' @ ?hi) = Some \<lparr>val = VStr [], timestamp = 4\<rparr>"
    unfolding rcm by simp
  have 4: "map_of (cache (response_cache (snd (ask_async env0 ?hi ?R2))))
             (ascii ''context_'' @ ?hi) = None"
    unfolding fin by (simp add: ascii_context)
  have 5: "map_of (cache (response_cache (snd (ask_async env0 ?hi ?R2)))) ?hi \<noteq> None"
    unfolding fin by simp
  have Rm: "?Rm = tick ((tick ((rag_init 5 0)\<lparr>response_cache := cache_init 1 7200,
                                       request_count := 1\<rparr>))
           \<lparr>response_cache := cache_init 1 7200\<rparr>)"
    by (simp add: rag_init_def)
  from 1 2 3 4 5 show ?thesis unfolding Rm by simp
qed

section \<open>Properties of the request handler and of batches\<close>














subsection \<open>Rate limiting\<close>

text \<open>
  C5, at a failing input: a handler with \<open>rate_limit = 10\<close> and
  \<open>_last_request_time = 0\<close>, and two tasks admitted while the clock shows 1. The
  first admission starts its handler at time 1 and leaves \<open>_last_request_time\<close> at
  0, because the time is written only after the handler has returned; so the second
  admission also starts at time 1, not \<open>1 / rate_limit\<close> later. A task whose handler
  raises never writes \<open>_last_request_time\<close> at all.
\<close>

theorem admissions_not_spaced:
  "fst (admit (env0\<lparr>clk := \<lambda>n. 1\<rparr>) (rag_init 5 0)) = Inr 1
   \<and> last_request_time (request_handler (snd (admit (env0\<lparr>clk := \<lambda>n. 1\<rparr>) (rag_init 5 0)))) = 0
   \<and> fst (admit (env0\<lparr>clk := \<lambda>n. 1\<rparr>) (snd (admit (env0\<lparr>clk := \<lambda>n. 1\<rparr>) (rag_init 5 0))))
       = Inr 1
   \<and> 1 / rate_limit (request_handler (rag_init 5 0)) = 1 / 10
   \<and> (\<exists>r'. process_request (env0\<lparr>clk := \<lambda>n. 1\<rparr>) None (rag_init 5 0)
          = Some (Inr (HError (ascii ''Question cannot be empty'') None), r')
        \<and> last_request_time (request_handler r') = 0)"
  by (simp add: admit_def rate_limit_sleep_def rag_init_def env0_def tick_def Let_def
      process_request_def handle_request_def)

end
